(* ===== verification/Prelude.thy ===== *)
theory Prelude
  imports Main "HOL-Library.Word"
begin

text \<open>
  What every component of the development shares: the basic value types of the Go program
  (byte strings, 64-bit integers, instants), the state-and-error computations its functions
  are written in, and the generic lemmas on keyed tables (lists of rows with a primary key)
  that the SQL stores use.
\<close>

section \<open>Values\<close>

text \<open>
  A Go \<^verbatim>\<open>string\<close> and a Go \<^verbatim>\<open>[]byte\<close> are both sequences of
  bytes, and a HOL character is exactly one byte; the conversions \<^verbatim>\<open>[]byte(s)\<close>
  and \<^verbatim>\<open>string(b)\<close> are therefore the identity.
\<close>

type_synonym bytes = "char list"
type_synonym int64 = "64 word"
type_synonym uuid = "128 word"

text \<open>
  Go's signed \<^verbatim>\<open><\<close> on \<^verbatim>\<open>int64\<close> is \<open>slt\<close>; Postgres compares its
  \<^verbatim>\<open>BIGINT\<close> column the same way.
\<close>

definition slt :: "int64 \<Rightarrow> int64 \<Rightarrow> bool" where
  "slt a b \<longleftrightarrow> sint a < sint b"

lemma slt_irrefl [simp]: "\<not> slt a a"
  by (simp add: slt_def)

lemma slt_trans: "slt a b \<Longrightarrow> slt b c \<Longrightarrow> slt a c"
  by (simp add: slt_def)

lemma slt_linear: "slt a b \<or> a = b \<or> slt b a"
  by (metis linorder_neqE slt_def signed_word_eqI)

lemma not_slt_iff: "\<not> slt a b \<longleftrightarrow> sint b \<le> sint a"
  by (auto simp: slt_def)

text \<open>The largest \<^verbatim>\<open>int64\<close>; above it \<^verbatim>\<open>Version++\<close> wraps to the smallest.\<close>

definition max_int64 :: int64 where
  "max_int64 = 0x7FFFFFFFFFFFFFFF"

lemma sint_max_int64: "sint max_int64 = 2 ^ 63 - 1"
  by (simp add: max_int64_def)

lemma sint_incr: "v \<noteq> max_int64 \<Longrightarrow> sint (v + 1 :: int64) = sint v + 1"
proof -
  assume "v \<noteq> max_int64"
  then have ne: "sint v \<noteq> 2 ^ 63 - 1"
    by (metis sint_max_int64 signed_word_eqI)
  have hi: "sint v < 2 ^ 63" and lo: "- (2 ^ 63) \<le> sint v"
    using sint_lt [of v] sint_ge [of v] by simp_all
  have "sint (v + 1) = signed_take_bit 63 (sint v + 1)"
    by (simp add: signed_take_bit_int_eq_self_iff sint_word_ariths)
  also have "\<dots> = sint v + 1"
    using ne hi lo by (intro signed_take_bit_int_eq_self) auto
  finally show ?thesis .
qed

lemma slt_incr: "v \<noteq> max_int64 \<Longrightarrow> slt v (v + 1)"
  by (simp add: slt_def sint_incr)

lemma incr_wraps: "slt (max_int64 + 1) max_int64"
  by (simp add: slt_def max_int64_def)

text \<open>
  A \<^verbatim>\<open>time.Time\<close> is an instant: nanoseconds since the Unix epoch. \<^verbatim>\<open>Before\<close>,
  \<^verbatim>\<open>After\<close> and \<^verbatim>\<open>Equal\<close> make it a linear order.
\<close>

datatype gotime = Unix_Ns (unix_ns: int)

instantiation gotime :: linorder
begin

definition less_eq_gotime :: "gotime \<Rightarrow> gotime \<Rightarrow> bool" where
  "less_eq_gotime s t \<longleftrightarrow> unix_ns s \<le> unix_ns t"

definition less_gotime :: "gotime \<Rightarrow> gotime \<Rightarrow> bool" where
  "less_gotime s t \<longleftrightarrow> unix_ns s < unix_ns t"

instance
  by standard (auto simp: less_eq_gotime_def less_gotime_def gotime.expand)

end

lemmas gotime_order = less_eq_gotime_def less_gotime_def

definition second :: int where "second = 1000000000"
definition minute :: int where "minute = 60 * second"
definition hour :: int where "hour = 60 * minute"

lemmas duration_defs = second_def minute_def hour_def

definition time_add :: "gotime \<Rightarrow> int \<Rightarrow> gotime" where
  "time_add t d = Unix_Ns (unix_ns t + d)"

definition time_sub :: "gotime \<Rightarrow> gotime \<Rightarrow> int" where
  "time_sub t u = unix_ns t - unix_ns u"

text \<open>\<^verbatim>\<open>time.Time{}\<close>, the first instant of year 1.\<close>

definition zero_time :: gotime where
  "zero_time = Unix_Ns (- 62135596800 * second)"

lemma unix_ns_time_add [simp]: "unix_ns (time_add t d) = unix_ns t + d"
  by (simp add: time_add_def)

text \<open>
  The float64 nearest to an integer (round to nearest, ties to even): 53 significant bits.
  A JSON number decoded without a target type is a float64.
\<close>

fun bit_length :: "nat \<Rightarrow> nat" where
  "bit_length n = (if n = 0 then 0 else Suc (bit_length (n div 2)))"

declare bit_length.simps [simp del]

definition float64_of_int :: "int \<Rightarrow> int" where
  "float64_of_int n =
    (let m = nat \<bar>n\<bar>; l = bit_length m
     in if l \<le> 53 then n
        else (let e = l - 53; q = m div 2 ^ e; r = m mod 2 ^ e;
                  up = (2 * r > 2 ^ e \<or> 2 * r = 2 ^ e \<and> odd q)
              in sgn n * int ((if up then Suc q else q) * 2 ^ e)))"

lemma bit_length_le: "n < 2 ^ k \<Longrightarrow> bit_length n \<le> k"
proof (induction k arbitrary: n)
  case 0
  then show ?case by (simp add: bit_length.simps)
next
  case (Suc k)
  then have "n div 2 < 2 ^ k" by simp
  from Suc.IH [OF this] show ?case by (simp add: bit_length.simps [of n])
qed

lemma float64_of_int_exact: "\<bar>n\<bar> < 2 ^ 53 \<Longrightarrow> float64_of_int n = n"
proof -
  assume "\<bar>n\<bar> < 2 ^ 53"
  then have "nat \<bar>n\<bar> < 2 ^ 53" by simp
  then have "bit_length (nat \<bar>n\<bar>) \<le> 53" by (rule bit_length_le)
  then show ?thesis by (simp add: float64_of_int_def Let_def)
qed

section \<open>Computations with state and errors\<close>

text \<open>
  A Go function that reads and writes state and returns \<^verbatim>\<open>(T, error)\<close> is a
  \<open>cmd\<close>: it maps a state to the error (\<open>Inl\<close>) or the value (\<open>Inr\<close>) together with the
  state it leaves behind. The state is returned on both branches, because the code does not
  undo earlier effects when a later call fails.
\<close>

type_synonym ('s, 'e, 'a) cmd = "'s \<Rightarrow> ('e + 'a) \<times> 's"

definition ret :: "'a \<Rightarrow> ('s, 'e, 'a) cmd" where
  "ret x = (\<lambda>s. (Inr x, s))"

definition raise :: "'e \<Rightarrow> ('s, 'e, 'a) cmd" where
  "raise e = (\<lambda>s. (Inl e, s))"

text \<open>Sequencing: the first error ends the function (\<^verbatim>\<open>if err != nil { return err }\<close>).\<close>

definition bind_m :: "('s, 'e, 'a) cmd \<Rightarrow> ('a \<Rightarrow> ('s, 'e, 'b) cmd) \<Rightarrow> ('s, 'e, 'b) cmd" where
  "bind_m c f = (\<lambda>s. case c s of (Inl e, t) \<Rightarrow> (Inl e, t) | (Inr x, t) \<Rightarrow> f x t)"

text \<open>Handling: \<open>h\<close> rewrites the error of \<open>c\<close> (wrapping, mapping to a sentinel).\<close>

definition map_err :: "('e \<Rightarrow> 'e) \<Rightarrow> ('s, 'e, 'a) cmd \<Rightarrow> ('s, 'e, 'a) cmd" where
  "map_err h c = (\<lambda>s. case c s of (Inl e, t) \<Rightarrow> (Inl (h e), t) | (Inr x, t) \<Rightarrow> (Inr x, t))"

definition of_result :: "'e + 'a \<Rightarrow> ('s, 'e, 'a) cmd" where
  "of_result r = (\<lambda>s. (r, s))"

definition gets :: "('s \<Rightarrow> 'a) \<Rightarrow> ('s, 'e, 'a) cmd" where
  "gets f = (\<lambda>s. (Inr (f s), s))"

definition ensure :: "bool \<Rightarrow> 'e \<Rightarrow> ('s, 'e, unit) cmd" where
  "ensure b e = (if b then ret () else raise e)"

text \<open>A computation on one part of the state, seen as a computation on the whole.\<close>

definition zoom :: "('s \<Rightarrow> 't) \<Rightarrow> ('t \<Rightarrow> 's \<Rightarrow> 's) \<Rightarrow> ('t, 'e, 'a) cmd \<Rightarrow> ('s, 'e, 'a) cmd" where
  "zoom g p c = (\<lambda>s. case c (g s) of (r, t) \<Rightarrow> (r, p t s))"

text \<open>A transaction: a body that fails leaves the state as it found it.\<close>

definition atomically :: "('s, 'e, 'a) cmd \<Rightarrow> ('s, 'e, 'a) cmd" where
  "atomically c = (\<lambda>s. case c s of (Inl e, t) \<Rightarrow> (Inl e, s) | (Inr x, t) \<Rightarrow> (Inr x, t))"

text \<open>A call whose error the caller looks at: the error becomes a value.\<close>

definition attempt :: "('s, 'e, 'a) cmd \<Rightarrow> ('s, 'e, 'e + 'a) cmd" where
  "attempt c = (\<lambda>s. case c s of (r, t) \<Rightarrow> (Inr r, t))"

named_theorems cmd_defs \<open>definitions of the state-and-error combinators\<close>

declare ret_def [cmd_defs] raise_def [cmd_defs] bind_m_def [cmd_defs] map_err_def [cmd_defs]
  of_result_def [cmd_defs] gets_def [cmd_defs] ensure_def [cmd_defs] zoom_def [cmd_defs]
  atomically_def [cmd_defs]
  attempt_def [cmd_defs]

lemma bind_m_ret [simp]: "bind_m (ret x) f = f x"
  by (simp add: cmd_defs)

lemma bind_m_raise [simp]: "bind_m (raise e) f = raise e"
  by (simp add: cmd_defs)

lemma bind_m_assoc: "bind_m (bind_m c f) g = bind_m c (\<lambda>x. bind_m (f x) g)"
  by (auto simp: cmd_defs fun_eq_iff split: prod.splits sum.splits)

lemma bind_m_Inr: "c s = (Inr x, t) \<Longrightarrow> bind_m c f s = f x t"
  by (simp add: bind_m_def)

lemma bind_m_Inl: "c s = (Inl e, t) \<Longrightarrow> bind_m c f s = (Inl e, t)"
  by (simp add: bind_m_def)

text \<open>Inversion: a sequence that succeeded succeeded in both halves.\<close>

lemma bind_m_InrE:
  assumes "bind_m c f s = (Inr y, u)"
  obtains x t where "c s = (Inr x, t)" and "f x t = (Inr y, u)"
  using assms by (auto simp: bind_m_def split: prod.splits sum.splits)

lemma bind_m_cases:
  assumes "bind_m c f s = (r, u)"
  obtains (err) e where "c s = (Inl e, u)" and "r = Inl e"
    | (ok) x t where "c s = (Inr x, t)" and "f x t = (r, u)"
  using assms by (auto simp: bind_m_def split: prod.splits sum.splits)

lemma map_err_InrD: "map_err h c s = (Inr x, t) \<Longrightarrow> c s = (Inr x, t)"
  by (auto simp: map_err_def split: prod.splits sum.splits)

lemma atomically_Inl: "atomically c s = (Inl e, t) \<Longrightarrow> t = s"
  by (auto simp: atomically_def split: prod.splits sum.splits)

lemma atomically_Inr_iff: "atomically c s = (Inr x, t) \<longleftrightarrow> c s = (Inr x, t)"
  by (auto simp: atomically_def split: prod.splits sum.splits)

lemma of_result_apply: "of_result r s = (r, s)"
  by (simp add: of_result_def)

lemma gets_apply: "gets f s = (Inr (f s), s)"
  by (simp add: gets_def)

subsection \<open>Frames and invariants of computations\<close>

text \<open>\<open>keeps f c\<close>: whatever \<open>c\<close> does, it leaves the part \<open>f\<close> of the state as it was.\<close>

definition keeps :: "('s \<Rightarrow> 'v) \<Rightarrow> ('s, 'e, 'a) cmd \<Rightarrow> bool" where
  "keeps f c \<longleftrightarrow> (\<forall>s. f (snd (c s)) = f s)"

text \<open>\<open>preserves I c\<close>: the invariant \<open>I\<close> survives \<open>c\<close>, on success and on error.\<close>

definition preserves :: "('s \<Rightarrow> bool) \<Rightarrow> ('s, 'e, 'a) cmd \<Rightarrow> bool" where
  "preserves I c \<longleftrightarrow> (\<forall>s. I s \<longrightarrow> I (snd (c s)))"

lemma keepsD: "keeps f c \<Longrightarrow> c s = (r, t) \<Longrightarrow> f t = f s"
  by (metis keeps_def snd_conv)

lemma preservesD: "preserves I c \<Longrightarrow> c s = (r, t) \<Longrightarrow> I s \<Longrightarrow> I t"
  by (metis preserves_def snd_conv)

named_theorems cmd_frame \<open>introduction rules for \<open>keeps\<close> and \<open>preserves\<close>\<close>

lemma keeps_ret [cmd_frame, simp]: "keeps f (ret x)"
  and keeps_raise [cmd_frame, simp]: "keeps f (raise e)"
  and keeps_of_result [cmd_frame, simp]: "keeps f (of_result r)"
  and keeps_gets [cmd_frame, simp]: "keeps f (gets g)"
  and keeps_ensure [cmd_frame, simp]: "keeps f (ensure b e)"
  by (simp_all add: keeps_def cmd_defs)

lemma keeps_bind [cmd_frame]:
  "keeps f c \<Longrightarrow> (\<And>x. keeps f (g x)) \<Longrightarrow> keeps f (bind_m c g)"
  by (auto simp: keeps_def bind_m_def split: prod.split sum.split) (metis snd_conv)+

lemma keeps_map_err [cmd_frame]: "keeps f c \<Longrightarrow> keeps f (map_err h c)"
  by (auto simp: keeps_def map_err_def split: prod.split sum.split) (metis snd_conv)+

lemma keeps_if [cmd_frame]: "(b \<Longrightarrow> keeps f c) \<Longrightarrow> (\<not> b \<Longrightarrow> keeps f d) \<Longrightarrow> keeps f (if b then c else d)"
  by simp

lemma keeps_case_sum [cmd_frame]:
  "(\<And>x. keeps f (c x)) \<Longrightarrow> (\<And>y. keeps f (d y)) \<Longrightarrow> keeps f (case r of Inl x \<Rightarrow> c x | Inr y \<Rightarrow> d y)"
  by (simp split: sum.split)

lemma keeps_case_option [cmd_frame]:
  "keeps f c \<Longrightarrow> (\<And>y. keeps f (d y)) \<Longrightarrow> keeps f (case r of None \<Rightarrow> c | Some y \<Rightarrow> d y)"
  by (simp split: option.split)

lemma keeps_case_prod [cmd_frame]:
  "(\<And>x y. keeps f (c x y)) \<Longrightarrow> keeps f (case p of (x, y) \<Rightarrow> c x y)"
  by (simp split: prod.split)

lemma preserves_of_keeps: "keeps f c \<Longrightarrow> preserves (\<lambda>s. P (f s)) c"
  by (simp add: keeps_def preserves_def)

lemma preserves_ret [cmd_frame, simp]: "preserves I (ret x)"
  and preserves_raise [cmd_frame, simp]: "preserves I (raise e)"
  and preserves_of_result [cmd_frame, simp]: "preserves I (of_result r)"
  and preserves_gets [cmd_frame, simp]: "preserves I (gets g)"
  and preserves_ensure [cmd_frame, simp]: "preserves I (ensure b e)"
  by (simp_all add: preserves_def cmd_defs)

lemma preserves_bind [cmd_frame]:
  "preserves I c \<Longrightarrow> (\<And>x. preserves I (g x)) \<Longrightarrow> preserves I (bind_m c g)"
  by (auto simp: preserves_def bind_m_def split: prod.split sum.split)

lemma preserves_map_err [cmd_frame]: "preserves I c \<Longrightarrow> preserves I (map_err h c)"
  by (auto simp: preserves_def map_err_def split: prod.split sum.split)

lemma preserves_if [cmd_frame]:
  "(b \<Longrightarrow> preserves I c) \<Longrightarrow> (\<not> b \<Longrightarrow> preserves I d) \<Longrightarrow> preserves I (if b then c else d)"
  by simp

lemma preserves_case_sum [cmd_frame]:
  "(\<And>x. preserves I (c x)) \<Longrightarrow> (\<And>y. preserves I (d y)) \<Longrightarrow>
    preserves I (case r of Inl x \<Rightarrow> c x | Inr y \<Rightarrow> d y)"
  by (simp split: sum.split)

lemma preserves_case_option [cmd_frame]:
  "preserves I c \<Longrightarrow> (\<And>y. preserves I (d y)) \<Longrightarrow>
    preserves I (case r of None \<Rightarrow> c | Some y \<Rightarrow> d y)"
  by (simp split: option.split)

lemma preserves_case_prod [cmd_frame]:
  "(\<And>x y. preserves I (c x y)) \<Longrightarrow> preserves I (case p of (x, y) \<Rightarrow> c x y)"
  by (simp split: prod.split)

lemma preserves_attempt [cmd_frame]: "preserves I c \<Longrightarrow> preserves I (attempt c)"
  by (auto simp: preserves_def attempt_def split: prod.split)

lemma keeps_attempt [cmd_frame]: "keeps f c \<Longrightarrow> keeps f (attempt c)"
  by (auto simp: keeps_def attempt_def split: prod.split) (metis snd_conv)

lemma preserves_atomically [cmd_frame]: "preserves I c \<Longrightarrow> preserves I (atomically c)"
  by (auto simp: preserves_def atomically_def split: prod.split sum.split)

lemma keeps_atomically [cmd_frame]: "keeps f c \<Longrightarrow> keeps f (atomically c)"
  by (auto simp: keeps_def atomically_def split: prod.split sum.split) (metis snd_conv)+

section \<open>Codecs\<close>

text \<open>The elements of a list, unless one of them is missing (a loop that stops at an error).\<close>

fun all_some :: "'a option list \<Rightarrow> 'a list option" where
  "all_some [] = Some []"
| "all_some (None # xs) = None"
| "all_some (Some x # xs) = map_option ((#) x) (all_some xs)"

lemma all_some_map_Some: "(\<And>x. x \<in> set xs \<Longrightarrow> f x = Some (g x)) \<Longrightarrow> all_some (map f xs) = Some (map g xs)"
  by (induction xs) auto

lemma all_some_eq_Some_iff: "all_some xs = Some ys \<longleftrightarrow> xs = map Some ys"
  by (induction xs arbitrary: ys rule: all_some.induct) (auto simp: Cons_eq_map_conv)

text \<open>A \<^verbatim>\<open>for range\<close> loop that converts every element and returns the first error.\<close>

fun map_result :: "('a \<Rightarrow> 'e + 'b) \<Rightarrow> 'a list \<Rightarrow> 'e + 'b list" where
  "map_result f [] = Inr []"
| "map_result f (x # xs) =
    (case f x of Inl e \<Rightarrow> Inl e
     | Inr y \<Rightarrow> (case map_result f xs of Inl e \<Rightarrow> Inl e | Inr ys \<Rightarrow> Inr (y # ys)))"

lemma map_result_map: "(\<And>x. x \<in> set xs \<Longrightarrow> f x = Inr (g x)) \<Longrightarrow> map_result f xs = Inr (map g xs)"
  by (induction xs) auto

lemma map_result_InrD: "map_result f xs = Inr ys \<Longrightarrow> list_all2 (\<lambda>x y. f x = Inr y) xs ys"
  by (induction xs arbitrary: ys) (auto split: sum.splits)

lemma map_result_InlD: "map_result f xs = Inl e \<Longrightarrow> \<exists>x\<in>set xs. f x = Inl e"
  by (induction xs) (auto split: sum.splits)

lemma map_result_length: "map_result f xs = Inr ys \<Longrightarrow> length ys = length xs"
  by (metis map_result_InrD list_all2_lengthD)

text \<open>
  The contract of an encoder and its decoder. The first argument is the context they share
  (a key, a library, nothing); \<open>good\<close> is the domain on which decoding recovers the value.
\<close>

locale codec =
  fixes enc :: "'p \<Rightarrow> 'a \<Rightarrow> 'b"
    and dec :: "'p \<Rightarrow> 'b \<Rightarrow> 'a option"
    and good :: "'p \<Rightarrow> 'a \<Rightarrow> bool"
  assumes dec_enc: "good p x \<Longrightarrow> dec p (enc p x) = Some x"
begin

lemma enc_inj: "good p x \<Longrightarrow> good p y \<Longrightarrow> enc p x = enc p y \<longleftrightarrow> x = y"
  by (metis dec_enc option.inject)

lemma dec_map_enc: "(\<And>x. x \<in> set xs \<Longrightarrow> good p x) \<Longrightarrow> all_some (map (dec p) (map (enc p) xs)) = Some xs"
proof -
  assume "\<And>x. x \<in> set xs \<Longrightarrow> good p x"
  then have "all_some (map (\<lambda>x. dec p (enc p x)) xs) = Some (map (\<lambda>x. x) xs)"
    by (intro all_some_map_Some dec_enc)
  then show ?thesis by (simp add: o_def)
qed

lemma distinct_map_enc: "(\<And>x. x \<in> set xs \<Longrightarrow> good p x) \<Longrightarrow> distinct (map (enc p) xs) \<longleftrightarrow> distinct xs"
  by (induction xs) (auto simp: enc_inj image_iff)

end

end
