(* ===== verification/Go_Errors.thy ===== *)
theory Go_Errors
  imports Prelude
begin

text \<open>
  Errors as values (\<^verbatim>\<open>pkg/errors\<close>, the repository's sentinel variables and gRPC
  status errors). A sentinel is compared by identity, so each package variable is a constructor
  of its own, even where two packages use the same message.
\<close>

section \<open>Sentinels and status codes\<close>

datatype sentinel =
    Pg_ErrUserExists | Pg_ErrInvalidToken | Pg_ErrUserNotExist
  | Uc_ErrUserNotExist | Uc_ErrInvalidToken | Uc_ErrUserExists
  | ErrEmptyPassword
  | Sk_ErrUnauthenticated
  | Vault_ErrNotFound | Vault_ErrConflict
  | ErrVaultCryptoNotFound
  | ErrWrongMasterPassword | ErrEntryNotFound | ErrEntryDeleted | ErrWrongEntryType
  | Sql_ErrNoRows | Pgx_ErrNoRows

fun sentinel_msg :: "sentinel \<Rightarrow> string" where
  "sentinel_msg Pg_ErrUserExists = ''user already exists''"
| "sentinel_msg Pg_ErrInvalidToken = ''invalid token''"
| "sentinel_msg Pg_ErrUserNotExist = ''user does not exist''"
| "sentinel_msg Uc_ErrUserNotExist = ''user not exists''"
| "sentinel_msg Uc_ErrInvalidToken = ''refresh token is invalid''"
| "sentinel_msg Uc_ErrUserExists = ''user already exists''"
| "sentinel_msg ErrEmptyPassword = ''password should not be empty''"
| "sentinel_msg Sk_ErrUnauthenticated = ''unauthenticated''"
| "sentinel_msg Vault_ErrNotFound = ''vault crypto not found''"
| "sentinel_msg Vault_ErrConflict =
     ''vault crypto already initialized with different salt or verifier''"
| "sentinel_msg ErrVaultCryptoNotFound = ''vault crypto not found on server''"
| "sentinel_msg ErrWrongMasterPassword = ''wrong master password''"
| "sentinel_msg ErrEntryNotFound = ''entry not found''"
| "sentinel_msg ErrEntryDeleted = ''entry was deleted''"
| "sentinel_msg ErrWrongEntryType = ''entry type does not match this operation''"
| "sentinel_msg Sql_ErrNoRows = ''sql: no rows in result set''"
| "sentinel_msg Pgx_ErrNoRows = ''no rows in result set''"

datatype grpc_code =
  OK | InvalidArgument | NotFound | AlreadyExists | Unauthenticated | Internal | Unknown

section \<open>Error values\<close>

text \<open>
  \<open>LibErr\<close> is an error made by a library or a service (a driver, the network, the operating
  system); it carries no sentinel of this repository.
\<close>

datatype go_error =
    ErrNew string
  | Sentinel sentinel
  | Validation string string
  | Typed string go_error
  | Wrapped string go_error
  | Located go_error string
  | Joined "go_error list"
  | StatusErr grpc_code string
  | LibErr string

text \<open>\<^verbatim>\<open>errors.New\<close>, \<^verbatim>\<open>NewValidationError\<close>, \<^verbatim>\<open>NewTypedError\<close>.\<close>

definition NewValidationError :: "string \<Rightarrow> string \<Rightarrow> go_error" where
  "NewValidationError field text = Validation field text"

definition NewTypedError :: "string \<Rightarrow> go_error \<Rightarrow> go_error" where
  "NewTypedError typ err = Typed typ err"

text \<open>
  \<^verbatim>\<open>Wrap\<close> does not check for \<^verbatim>\<open>nil\<close>: \<^verbatim>\<open>fmt.Errorf\<close> with a nil
  operand for \<^verbatim>\<open>%w\<close> still returns an error, whose text says so.
\<close>

definition Wrap :: "go_error option \<Rightarrow> string \<Rightarrow> go_error" where
  "Wrap err msg = (case err of
      None \<Rightarrow> ErrNew (msg @ '': %!w(<nil>)'')
    | Some e \<Rightarrow> Wrapped msg e)"

text \<open>\<^verbatim>\<open>WithLocation\<close> passes \<^verbatim>\<open>nil\<close> through; \<open>loc\<close> is the caller's file and line.\<close>

definition WithLocation :: "string \<Rightarrow> go_error option \<Rightarrow> go_error option" where
  "WithLocation loc err = map_option (\<lambda>e. Located e loc) err"

text \<open>\<^verbatim>\<open>errors.Join\<close> drops nil errors and is nil when all of them are.\<close>

definition Join :: "go_error option list \<Rightarrow> go_error option" where
  "Join errs = (let es = concat (map (\<lambda>e. case e of None \<Rightarrow> [] | Some x \<Rightarrow> [x]) errs)
    in if es = [] then None else Some (Joined es))"

text \<open>\<^verbatim>\<open>errors.Is\<close>: somewhere in the chain is the sentinel.\<close>

fun errors_is :: "go_error \<Rightarrow> sentinel \<Rightarrow> bool" where
  "errors_is (Sentinel s) t = (s = t)"
| "errors_is (Typed _ e) t = errors_is e t"
| "errors_is (Wrapped _ e) t = errors_is e t"
| "errors_is (Located e _) t = errors_is e t"
| "errors_is (Joined es) t = list_ex (\<lambda>e. errors_is e t) es"
| "errors_is _ t = False"

fun first_some :: "'a option list \<Rightarrow> 'a option" where
  "first_some [] = None"
| "first_some (None # xs) = first_some xs"
| "first_some (Some x # xs) = Some x"

text \<open>\<^verbatim>\<open>errors.AsType[*ValidationError]\<close>: the first one in a depth-first walk.\<close>

fun as_validation :: "go_error \<Rightarrow> (string \<times> string) option" where
  "as_validation (Validation f m) = Some (f, m)"
| "as_validation (Typed _ e) = as_validation e"
| "as_validation (Wrapped _ e) = as_validation e"
| "as_validation (Located e _) = as_validation e"
| "as_validation (Joined es) = first_some (map as_validation es)"
| "as_validation _ = None"

text \<open>\<^verbatim>\<open>(*ValidationError).Error\<close>.\<close>

definition validation_text :: "string \<times> string \<Rightarrow> string" where
  "validation_text v = fst v @ '' is not valid: '' @ snd v"

fun join_lines :: "string list \<Rightarrow> string" where
  "join_lines [] = []"
| "join_lines [x] = x"
| "join_lines (x # y # xs) = x @ CHR 0x0A # join_lines (y # xs)"

text \<open>The text \<^verbatim>\<open>err.Error()\<close> of each kind of error.\<close>

fun err_text :: "go_error \<Rightarrow> string" where
  "err_text (ErrNew m) = m"
| "err_text (Sentinel s) = sentinel_msg s"
| "err_text (Validation f m) = validation_text (f, m)"
| "err_text (Typed typ e) = ''['' @ typ @ ''] '' @ err_text e"
| "err_text (Wrapped m e) = m @ '': '' @ err_text e"
| "err_text (Located e loc) = err_text e @ '' (at '' @ loc @ '')''"
| "err_text (Joined es) = join_lines (map err_text es)"
| "err_text (StatusErr _ m) = m"
| "err_text (LibErr m) = m"

text \<open>
  \<^verbatim>\<open>status.Code\<close> of a non-nil error: the code of the status error it is or wraps,
  \<^verbatim>\<open>Unknown\<close> otherwise.
\<close>

fun as_status :: "go_error \<Rightarrow> (grpc_code \<times> string) option" where
  "as_status (StatusErr c m) = Some (c, m)"
| "as_status (Typed _ e) = as_status e"
| "as_status (Wrapped _ e) = as_status e"
| "as_status (Located e _) = as_status e"
| "as_status (Joined es) = first_some (map as_status es)"
| "as_status _ = None"

definition status_code :: "go_error \<Rightarrow> grpc_code" where
  "status_code e = (case as_status e of None \<Rightarrow> Unknown | Some (c, _) \<Rightarrow> c)"

section \<open>Wrapping is transparent to classification\<close>

lemma errors_is_Wrap [simp]: "errors_is (Wrap (Some e) m) t = errors_is e t"
  by (simp add: Wrap_def)

lemma as_validation_Wrap [simp]: "as_validation (Wrap (Some e) m) = as_validation e"
  by (simp add: Wrap_def)

lemma Wrap_nil_is_error: "Wrap None m = ErrNew (m @ '': %!w(<nil>)'')"
  by (simp add: Wrap_def)

lemma as_validation_new [simp]: "as_validation (NewValidationError f m) = Some (f, m)"
  by (simp add: NewValidationError_def)

lemma errors_is_new [simp]: "\<not> errors_is (NewValidationError f m) t"
  by (simp add: NewValidationError_def)

lemma status_code_StatusErr [simp]: "status_code (StatusErr c m) = c"
  by (simp add: status_code_def)

lemma WithLocation_is [simp]:
  "WithLocation loc (Some e) = Some e' \<Longrightarrow> errors_is e' t = errors_is e t"
  by (auto simp: WithLocation_def)

lemma Join_is: "Join errs = Some e \<Longrightarrow> errors_is e t \<longleftrightarrow> (\<exists>x. Some x \<in> set errs \<and> errors_is x t)"
  by (auto simp: Join_def Let_def list_ex_iff split: if_splits option.splits) (force split: option.splits)

lemma Join_None_iff: "Join errs = None \<longleftrightarrow> (\<forall>x\<in>set errs. x = None)"
  by (auto simp: Join_def Let_def split: option.splits)

end
