(* ===== verification/Models.thy ===== *)
theory Models
  imports Go_Errors
begin

text \<open>
  The data of the program: the CLI's models (\<^verbatim>\<open>internal/client/pkg/models\<close>), the two
  services' models, the token types of \<^verbatim>\<open>pkg/jwthelper\<close> and the protobuf messages of
  \<^verbatim>\<open>api/\<close>. Field names keep the source's names behind a short prefix that says which
  struct they belong to.
\<close>

section \<open>The CLI\<close>

definition EntryTypePassword :: string where "EntryTypePassword = ''PASSWORD''"
definition EntryTypeText :: string where "EntryTypeText = ''TEXT''"
definition EntryTypeFile :: string where "EntryTypeFile = ''FILE''"
definition EntryTypeCard :: string where "EntryTypeCard = ''CARD''"

lemmas entry_type_defs =
  EntryTypePassword_def EntryTypeText_def EntryTypeFile_def EntryTypeCard_def

text \<open>\<^verbatim>\<open>models.Entry\<close> of the client: one row of the local vault.\<close>

record client_entry =
  ce_UUID :: uuid
  ce_Type :: string
  ce_EncryptedDek :: bytes
  ce_Payload :: bytes
  ce_Meta :: bytes
  ce_Version :: int64
  ce_IsDeleted :: bool
  ce_UpdatedAt :: gotime
  ce_IsDirty :: bool
  ce_UserID :: "int64 option"

text \<open>
  A Go map is \<open>None\<close> for nil and otherwise its pairs in key order; the code never iterates
  over one.
\<close>

record entry_metadata =
  md_Name :: string
  md_Notes :: string
  md_OriginalFilename :: string
  md_ExtraTags :: "(string \<times> string) list option"

record card_payload =
  card_Holder :: string
  card_Number :: string
  card_Expiry :: string
  card_CVC :: string

record decrypted_entry =
  de_Payload :: bytes
  de_Meta :: entry_metadata
  de_Type :: string

record session =
  sn_AccessToken :: string
  sn_RefreshToken :: string
  sn_ExpiresAt :: gotime
  sn_RefreshExpiresAt :: gotime
  sn_UserID :: "int64 option"

section \<open>Skeeper\<close>

text \<open>\<^verbatim>\<open>models.Entry\<close> of the server.\<close>

record server_entry =
  se_UUID :: uuid
  se_Type :: string
  se_EncryptedDek :: bytes
  se_Payload :: bytes
  se_Meta :: bytes
  se_Version :: int64
  se_IsDeleted :: bool
  se_UpdatedAt :: gotime

record sync_request =
  rq_LastSyncAt :: gotime
  rq_Updates :: "server_entry list"

record sync_response =
  rs_CurrentSyncAt :: gotime
  rs_Updates :: "server_entry list"
  rs_AppliedUpdateUUIDs :: "uuid list"

section \<open>Auther and its tokens\<close>

record token =
  tk_Token :: string
  tk_ExpiresAt :: gotime

record token_pair =
  tp_AccessToken :: token
  tp_RefreshToken :: token

text \<open>
  \<^verbatim>\<open>TokenClaims\<close>: the registered claims and the user id. A date claim is a pointer,
  nil when the token does not carry it.
\<close>

record token_claims =
  cl_Issuer :: string
  cl_Subject :: string
  cl_Audience :: "string list"
  cl_ExpiresAt :: "gotime option"
  cl_NotBefore :: "gotime option"
  cl_IssuedAt :: "gotime option"
  cl_ID :: string
  cl_UserID :: int64

record user_credentials =
  cr_Email :: string
  cr_Password :: string

record db_user_credentials =
  dc_Email :: string
  dc_PasswordHash :: bytes

record user_info =
  ui_ID :: int64
  ui_Email :: string
  ui_PasswordHash :: bytes

text \<open>\<^verbatim>\<open>RefreshTokenHashed\<close> embeds the token.\<close>

record refresh_token_hashed = token +
  rth_Hash :: string

record login_response =
  lr_TokenPair :: token_pair
  lr_User :: user_info

section \<open>Wire messages\<close>

text \<open>
  Seconds and nanoseconds of \<^verbatim>\<open>google.protobuf.Timestamp\<close>. A message field and a
  field with explicit presence are options; the generated getters return the zero value when
  they are absent.
\<close>

record pb_timestamp =
  ts_Seconds :: int
  ts_Nanos :: int

record api_entry =
  pe_Uuid :: string
  pe_Type :: string
  pe_EncryptedDek :: bytes
  pe_Payload :: bytes
  pe_Meta :: bytes
  pe_Version :: int64
  pe_IsDeleted :: bool
  pe_UpdatedAt :: "pb_timestamp option"

record api_sync_request =
  ps_Updates :: "api_entry list"
  ps_LastSyncAt :: "pb_timestamp option"

record api_sync_response =
  pr_Updates :: "api_entry list"
  pr_CurrentSyncAt :: "pb_timestamp option"
  pr_AppliedUpdateUuids :: "string list"

record api_vault_crypto =
  pv_KdfSalt :: bytes
  pv_MasterVerifier :: bytes

record api_token =
  pt_Token :: "string option"
  pt_ExpiresAt :: "pb_timestamp option"

record api_user =
  pu_Id :: "int64 option"
  pu_Email :: "string option"

record api_login_response =
  pl_RefreshToken :: "api_token option"
  pl_AccessToken :: "api_token option"
  pl_User :: "api_user option"

record api_exchange_response =
  px_RefreshToken :: "api_token option"
  px_AccessToken :: "api_token option"

text \<open>A generated getter of a string field with explicit presence.\<close>

definition get_str :: "string option \<Rightarrow> string" where
  "get_str v = (case v of None \<Rightarrow> [] | Some s \<Rightarrow> s)"

lemma get_str_simps [simp]: "get_str None = []" "get_str (Some s) = s"
  by (simp_all add: get_str_def)

text \<open>\<^verbatim>\<open>timestamppb.New\<close> and \<^verbatim>\<open>AsTime\<close>.\<close>

definition timestamp_new :: "gotime \<Rightarrow> pb_timestamp" where
  "timestamp_new t = \<lparr>ts_Seconds = unix_ns t div second, ts_Nanos = unix_ns t mod second\<rparr>"

definition timestamp_AsTime :: "pb_timestamp \<Rightarrow> gotime" where
  "timestamp_AsTime ts = Unix_Ns (ts_Seconds ts * second + ts_Nanos ts)"

lemma timestamp_roundtrip [simp]: "timestamp_AsTime (timestamp_new t) = t"
  by (cases t) (simp add: timestamp_AsTime_def timestamp_new_def second_def)

end
