(* ===== verification/Libraries.thy ===== *)
theory Libraries
  imports Models
begin

text \<open>
  What the program calls but this repository does not contain, as parameters of the model:
  the functions of third-party packages and of the cryptographic and codec packages
  (record \<open>lib\<close>), and everything one command observes of its surroundings: random bytes,
  the clock, fresh identifiers, and which calls to a database or the network fail (record
  \<open>env\<close>). The predicates at the end state documented behaviour of those functions; theorems
  that rely on it name the predicate as a hypothesis.
\<close>

section \<open>Library functions\<close>

type_synonym rsa_key = bytes

record lib =
  argon2_IDKey :: "bytes \<Rightarrow> bytes \<Rightarrow> nat \<Rightarrow> nat \<Rightarrow> nat \<Rightarrow> nat \<Rightarrow> bytes"
  sha256_Sum256 :: "bytes \<Rightarrow> bytes"
  gcm_Seal :: "bytes \<Rightarrow> bytes \<Rightarrow> bytes \<Rightarrow> bytes"
  gcm_Open :: "bytes \<Rightarrow> bytes \<Rightarrow> bytes \<Rightarrow> bytes option"
  bcrypt_Generate :: "bytes \<Rightarrow> bytes \<Rightarrow> string + bytes"
  bcrypt_Compare :: "bytes \<Rightarrow> bytes \<Rightarrow> bool"
  json_Marshal_meta :: "entry_metadata \<Rightarrow> bytes"
  json_Unmarshal_meta :: "bytes \<Rightarrow> entry_metadata option"
  json_Marshal_card :: "card_payload \<Rightarrow> bytes"
  json_Unmarshal_card :: "bytes \<Rightarrow> card_payload option"
  fmt_q :: "string \<Rightarrow> string"
  uuid_String :: "uuid \<Rightarrow> string"
  uuid_Parse :: "string \<Rightarrow> uuid option"
  sqlite_time_text :: "gotime \<Rightarrow> string"
  sqlite_time_read :: "string \<Rightarrow> gotime option"
  sqlite_unixepoch :: "string \<Rightarrow> int option"
  pg_timestamptz :: "gotime \<Rightarrow> gotime"
  mail_ParseAddress :: "string \<Rightarrow> string + string"
  strings_TrimSpace :: "string \<Rightarrow> string"
  strings_ToLower :: "string \<Rightarrow> string"
  rsa_ParsePublicPEM :: "bytes \<Rightarrow> string + rsa_key"
  rsa_ParsePrivatePEM :: "bytes \<Rightarrow> string + rsa_key"
  jwt_NumericDate :: "gotime \<Rightarrow> gotime"
  jwt_Sign_RS256 :: "rsa_key \<Rightarrow> token_claims \<Rightarrow> string + string"
  jwt_Decode :: "string \<Rightarrow> (string \<times> token_claims) option"
  jwt_Verify_RS256 :: "rsa_key \<Rightarrow> string \<Rightarrow> bool"
  jwt_ClaimsValid :: "gotime \<Rightarrow> token_claims \<Rightarrow> bool"
  jwt_VerifyAudience :: "token_claims \<Rightarrow> string \<Rightarrow> bool \<Rightarrow> bool"
  jwt_MapNumber :: "string \<Rightarrow> string + (string \<Rightarrow> int option)"

text \<open>
  Reading guide. \<open>argon2_IDKey\<close> takes password, salt, time, memory, threads and key length.
  \<open>gcm_Seal\<close> and \<open>gcm_Open\<close> take key, nonce and data (no additional data is ever used).
  \<open>bcrypt_Generate\<close> takes the random salt first. A \<open>None\<close> of an unmarshaller or parser is
  its error. \<open>fmt_q\<close> is the verb \<^verbatim>\<open>%q\<close>. \<open>sqlite_time_text\<close> is the text the SQLite driver stores for a time value,
  \<open>sqlite_time_read\<close> what it scans back, and \<open>sqlite_unixepoch\<close> SQLite's function of that
  name on such a text (\<open>None\<close> is NULL). \<open>pg_timestamptz\<close> is the instant a
  \<^verbatim>\<open>TIMESTAMPTZ\<close> column holds after a time was written to it. The left side of a sum
  is the text of the library's error. \<open>jwt_NumericDate\<close> is the date a claim carries for an
  instant, \<open>jwt_Decode\<close> gives the \<^verbatim>\<open>alg\<close> header and the claims of a well-formed token,
  \<open>jwt_ClaimsValid\<close> checks the date claims at an instant, and \<open>jwt_MapNumber\<close> gives the
  numeric claims of a token parsed into a map, as the truncation of the float64 they are
  decoded to.
\<close>

section \<open>The surroundings of one command\<close>

datatype draw =
    DrawDEK | DrawPayloadNonce | DrawMetaNonce | DrawDekNonce | DrawSalt
  | DrawAccessNonce | DrawRefreshNonce | DrawRefreshToken | DrawBcryptSalt | DrawDummy | DrawSessionKey

datatype reading =
    NowSeal | NowMeta | NowDelete | NowSync | NowAccess | NowIssued | NowRefresh | NowRotate
  | NowMark | NowUntilAccess | NowUntilRefresh | NowValidate | NowStart | NowFinish

datatype fresh_id = IdEntry | IdJwt | IdRequest

datatype db_call =
    UpsertQuery | UpdatedQuery | VaultSelect | VaultInsert | VaultReselect
  | UserInsert | UserSelect
  | ReplaceBegin | ReplaceDelete | ReplaceInsert | ReplaceCommit
  | RotateBegin | RotateSelect | RotateRevoke | RotateRevokeCommit
  | RotateMark | RotateInsert | RotatePrune | RotateCommit
  | TokenInsert
  | SessionGet | SessionSave | SessionClear
  | EntryGet | EntrySave | EntryList | EntryDirty | EntryLast | EntryMarkSynced
  | EntryDirtyRow nat | EntryListRow nat
  | CryptoSelect | CryptoInsert | CryptoReplace | CryptoVerifier
  | PersistBegin | PersistSave nat | PersistMark nat | PersistCommit
  | NetRequest | NetResponse
  | FileRead | FileWrite
  | Ack db_call

text \<open>
  A call that writes can fail in two ways: before it took effect, and (\<open>Ack\<close>) after it did,
  when only the answer is lost.

  \<open>rpc\<close> tells apart the requests one command makes: every observation is indexed by it, so a
  command may see different random bytes, times and failures in each.
\<close>

record env =
  rnd :: "nat \<Rightarrow> draw \<Rightarrow> nat \<Rightarrow> char"
  clk :: "nat \<Rightarrow> reading \<Rightarrow> gotime"
  fresh :: "nat \<Rightarrow> fresh_id \<Rightarrow> uuid"
  fault :: "nat \<Rightarrow> db_call \<Rightarrow> string option"
  rpc :: nat

text \<open>\<^verbatim>\<open>rand.Read(make([]byte, n))\<close>, which never fails since Go 1.24.\<close>

definition rand_bytes :: "env \<Rightarrow> draw \<Rightarrow> nat \<Rightarrow> bytes" where
  "rand_bytes ev d n = map (rnd ev (rpc ev) d) [0..<n]"

definition time_now :: "env \<Rightarrow> reading \<Rightarrow> gotime" where
  "time_now ev r = clk ev (rpc ev) r"

definition time_until :: "env \<Rightarrow> reading \<Rightarrow> gotime \<Rightarrow> int" where
  "time_until ev r t = time_sub t (time_now ev r)"

definition fresh_uuid :: "env \<Rightarrow> fresh_id \<Rightarrow> uuid" where
  "fresh_uuid ev i = fresh ev (rpc ev) i"

text \<open>A call to a database or the network returns its error, if it has one.\<close>

definition try_call :: "env \<Rightarrow> db_call \<Rightarrow> ('s, go_error, unit) cmd" where
  "try_call ev c = (case fault ev (rpc ev) c of None \<Rightarrow> ret () | Some m \<Rightarrow> raise (LibErr m))"

definition in_rpc :: "nat \<Rightarrow> env \<Rightarrow> env" where
  "in_rpc n ev = ev\<lparr>rpc := n\<rparr>"

text \<open>
  The numbered calls a function makes: each of them sees observations of its own.
\<close>

definition call_at :: "nat \<Rightarrow> env \<Rightarrow> env" where
  "call_at k ev = in_rpc (16 * rpc ev + k) ev"

definition no_faults :: "env \<Rightarrow> bool" where
  "no_faults ev \<longleftrightarrow> (\<forall>n c. fault ev n c = None)"

lemma length_rand_bytes [simp]: "length (rand_bytes ev d n) = n"
  by (simp add: rand_bytes_def)

lemma no_faults_in_rpc [simp]: "no_faults (in_rpc n ev) = no_faults ev"
  by (simp add: no_faults_def in_rpc_def)

lemma no_faults_call_at [simp]: "no_faults (call_at n ev) = no_faults ev"
  by (simp add: call_at_def)

lemma try_call_ok [simp]: "no_faults ev \<Longrightarrow> try_call ev c = ret ()"
  by (simp add: try_call_def no_faults_def)

lemma try_call_state: "try_call ev c s = (r, t) \<Longrightarrow> t = s"
  by (auto simp: try_call_def cmd_defs split: option.splits)

lemma keeps_try_call [cmd_frame, simp]: "keeps f (try_call ev c)"
  by (simp add: try_call_def keeps_case_option)

lemma preserves_try_call [cmd_frame, simp]: "preserves I (try_call ev c)"
  by (simp add: try_call_def preserves_case_option)

definition ack_call :: "env \<Rightarrow> db_call \<Rightarrow> ('s, go_error, 'a) cmd \<Rightarrow> ('s, go_error, 'a) cmd" where
  "ack_call ev c m = bind_m (try_call ev c) (\<lambda>_. bind_m m (\<lambda>x. bind_m (try_call ev (Ack c)) (\<lambda>_. ret x)))"

definition no_lost_answers :: "env \<Rightarrow> bool" where
  "no_lost_answers ev \<longleftrightarrow> (\<forall>n c. fault ev n (Ack c) = None)"

lemma no_lost_answers_in_rpc [simp]: "no_lost_answers (in_rpc n ev) = no_lost_answers ev"
  by (simp add: no_lost_answers_def in_rpc_def)

lemma try_ack_ok [simp]: "no_lost_answers ev \<Longrightarrow> try_call ev (Ack c) = ret ()"
  by (simp add: try_call_def no_lost_answers_def)

lemma bind_m_ret_right [simp]: "bind_m m ret = m"
  by (auto simp: cmd_defs fun_eq_iff split: prod.splits sum.splits)

lemma ack_call_ok [simp]: "no_faults ev \<Longrightarrow> ack_call ev c m = m"
  by (simp add: ack_call_def)

lemma keeps_ack_call [cmd_frame]: "keeps f m \<Longrightarrow> keeps f (ack_call ev c m)"
  by (auto simp: ack_call_def intro!: keeps_bind)

lemma preserves_ack_call [cmd_frame]: "preserves I m \<Longrightarrow> preserves I (ack_call ev c m)"
  by (auto simp: ack_call_def intro!: preserves_bind)

text \<open>Without lost answers, a call that failed left the state alone, if its effect does so.\<close>

lemma ack_call_Inl:
  assumes "no_lost_answers ev" and "ack_call ev c m s = (Inl e, t)"
    and "\<And>e t. m s = (Inl e, t) \<Longrightarrow> t = s"
  shows "t = s"
  using assms
  by (auto simp: ack_call_def no_lost_answers_def bind_m_def try_call_def ret_def raise_def
      split: option.splits sum.splits prod.splits)

lemma ack_call_InrD: "ack_call ev c m s = (Inr x, t) \<Longrightarrow> m s = (Inr x, t)"
  by (auto simp: ack_call_def bind_m_def try_call_def ret_def raise_def
      split: option.splits sum.splits prod.splits)

lemma try_call_cases:
  obtains (ok) "fault ev (rpc ev) c = None" and "try_call ev c = ret ()"
    | (failed) m where "fault ev (rpc ev) c = Some m" and "try_call ev c = raise (LibErr m)"
  by (cases "fault ev (rpc ev) c") (auto simp: try_call_def)

section \<open>Documented behaviour\<close>

text \<open>
  Argon2id returns as many bytes as asked for; SHA-256 returns 32. AES-GCM decrypts exactly
  what it sealed under the same key and nonce: sealing is deterministic, and a ciphertext whose
  tag verifies is the sealing of the plaintext it opens to. The tag adds 16 bytes.
\<close>

definition crypto_ok :: "lib \<Rightarrow> bool" where
  "crypto_ok L \<longleftrightarrow>
    (\<forall>p s t m h n. length (argon2_IDKey L p s t m h n) = n) \<and>
    (\<forall>d. length (sha256_Sum256 L d) = 32) \<and>
    (\<forall>k n d. length (gcm_Seal L k n d) = length d + 16) \<and>
    (\<forall>k n d c. gcm_Open L k n c = Some d \<longleftrightarrow> c = gcm_Seal L k n d)"

text \<open>Parsing the canonical text of a UUID gives the UUID back.\<close>

definition uuid_ok :: "lib \<Rightarrow> bool" where
  "uuid_ok L \<longleftrightarrow> (\<forall>u. uuid_Parse L (uuid_String L u) = Some u)"

text \<open>
  \<^verbatim>\<open>encoding/json\<close> round-trips a struct of valid UTF-8 strings. An empty map with
  \<^verbatim>\<open>omitempty\<close> is left out and comes back nil, so it is excluded. The predicate
  \<open>clean\<close> says which values those are.
\<close>

definition json_ok :: "lib \<Rightarrow> (string \<Rightarrow> bool) \<Rightarrow> bool" where
  "json_ok L clean \<longleftrightarrow>
    (\<forall>m. clean (md_Name m) \<longrightarrow> clean (md_Notes m) \<longrightarrow> clean (md_OriginalFilename m) \<longrightarrow>
      md_ExtraTags m \<noteq> Some [] \<longrightarrow>
      (\<forall>kvs. md_ExtraTags m = Some kvs \<longrightarrow> list_all (\<lambda>(k, v). clean k \<and> clean v) kvs) \<longrightarrow>
      json_Unmarshal_meta L (json_Marshal_meta L m) = Some m) \<and>
    (\<forall>c. clean (card_Holder c) \<longrightarrow> clean (card_Number c) \<longrightarrow> clean (card_Expiry c) \<longrightarrow>
      clean (card_CVC c) \<longrightarrow> json_Unmarshal_card L (json_Marshal_card L c) = Some c)"

text \<open>The SQLite driver reads back the time it wrote.\<close>

definition sqlite_time_ok :: "lib \<Rightarrow> bool" where
  "sqlite_time_ok L \<longleftrightarrow> (\<forall>t. sqlite_time_read L (sqlite_time_text L t) = Some t)"

text \<open>bcrypt hashes every password up to its limit of 72 bytes, and accepts it again.\<close>

definition bcrypt_ok :: "lib \<Rightarrow> bool" where
  "bcrypt_ok L \<longleftrightarrow> (\<forall>s p. length p \<le> 72 \<longrightarrow>
    (\<exists>h. bcrypt_Generate L s p = Inr h \<and> bcrypt_Compare L h p))"

text \<open>
  A token signed with the private key of a pair decodes to the RS256 header and the claims that
  were signed, and verifies under the public key.
\<close>

definition jwt_pair_ok :: "lib \<Rightarrow> rsa_key \<Rightarrow> rsa_key \<Rightarrow> bool" where
  "jwt_pair_ok L priv pub \<longleftrightarrow>
    (\<forall>c. \<exists>t. jwt_Sign_RS256 L priv c = Inr t \<and> jwt_Decode L t = Some (''RS256'', c) \<and>
      jwt_Verify_RS256 L pub t)"

text \<open>
  The date claims are valid while now is before the expiry and not before the two start dates;
  an absent date never fails. A date claim is the instant rounded down to a second. A required,
  non-empty audience verifies when the token lists it.
\<close>

definition jwt_claims_ok :: "lib \<Rightarrow> bool" where
  "jwt_claims_ok L \<longleftrightarrow>
    (\<forall>now c. jwt_ClaimsValid L now c \<longleftrightarrow>
      (\<forall>t. cl_ExpiresAt c = Some t \<longrightarrow> now < t) \<and>
      (\<forall>t. cl_NotBefore c = Some t \<longrightarrow> t \<le> now) \<and>
      (\<forall>t. cl_IssuedAt c = Some t \<longrightarrow> t \<le> now)) \<and>
    (\<forall>t. jwt_NumericDate L t = Unix_Ns (unix_ns t div second * second)) \<and>
    (\<forall>c a. a \<noteq> [] \<longrightarrow> jwt_VerifyAudience L c a True = (a \<in> set (cl_Audience c)))"

text \<open>A signed user id, parsed into a map of untyped numbers, is the float64 nearest to it.\<close>

definition jwt_map_ok :: "lib \<Rightarrow> bool" where
  "jwt_map_ok L \<longleftrightarrow>
    (\<forall>k c t. jwt_Sign_RS256 L k c = Inr t \<longrightarrow>
      (\<exists>m. jwt_MapNumber L t = Inr m \<and> m ''UserID'' = Some (float64_of_int (sint (cl_UserID c)))))"

lemma crypto_okD:
  assumes "crypto_ok L"
  shows argon2_length: "length (argon2_IDKey L p s t m h n) = n"
    and sha256_length: "length (sha256_Sum256 L d) = 32"
    and gcm_Seal_length: "length (gcm_Seal L k nn d) = length d + 16"
    and gcm_Open_iff: "gcm_Open L k nn c = Some d \<longleftrightarrow> c = gcm_Seal L k nn d"
    and gcm_Open_Seal: "gcm_Open L k nn (gcm_Seal L k nn d) = Some d"
  using assms by (simp_all add: crypto_ok_def)

lemma gcm_Seal_inj: "crypto_ok L \<Longrightarrow> gcm_Seal L k n d = gcm_Seal L k n d' \<longleftrightarrow> d = d'"
  by (metis gcm_Open_Seal option.inject)

lemma uuid_Parse_String: "uuid_ok L \<Longrightarrow> uuid_Parse L (uuid_String L u) = Some u"
  by (simp add: uuid_ok_def)

lemma uuid_String_inj: "uuid_ok L \<Longrightarrow> uuid_String L u = uuid_String L v \<longleftrightarrow> u = v"
  by (metis option.inject uuid_Parse_String)

lemma sqlite_time_read_text: "sqlite_time_ok L \<Longrightarrow> sqlite_time_read L (sqlite_time_text L t) = Some t"
  by (simp add: sqlite_time_ok_def)

end
