(* ===== verification/Vault_Crypto.thy ===== *)
theory Vault_Crypto
  imports Libraries
begin

text \<open>
  \<^verbatim>\<open>internal/client/pkg/crypto/crypto.go\<close>: the master key, its verifier, and AES-GCM
  blobs whose first bytes are the random nonce.
\<close>

section \<open>Master key\<close>

definition KeyLength :: nat where "KeyLength = 32"
definition SaltSize :: nat where "SaltSize = 16"

definition DeriveMasterKey :: "lib \<Rightarrow> string \<Rightarrow> bytes \<Rightarrow> bytes" where
  "DeriveMasterKey L password salt = argon2_IDKey L password salt 3 (64 * 1024) 4 KeyLength"

definition MasterKeyVerifier :: "lib \<Rightarrow> bytes \<Rightarrow> bytes" where
  "MasterKeyVerifier L masterKey = sha256_Sum256 L masterKey"

lemma length_DeriveMasterKey [simp]: "crypto_ok L \<Longrightarrow> length (DeriveMasterKey L p s) = 32"
  by (simp add: DeriveMasterKey_def KeyLength_def argon2_length)

lemma length_MasterKeyVerifier [simp]: "crypto_ok L \<Longrightarrow> length (MasterKeyVerifier L k) = 32"
  by (simp add: MasterKeyVerifier_def sha256_length)

lemma MasterKeyVerifier_not_Nil [simp]: "crypto_ok L \<Longrightarrow> MasterKeyVerifier L k \<noteq> []"
  using length_MasterKeyVerifier [of L k] by fastforce

section \<open>AES-GCM blobs\<close>

text \<open>\<^verbatim>\<open>aes.NewCipher\<close> takes keys of 16, 24 or 32 bytes only.\<close>

definition aes_NewCipher :: "bytes \<Rightarrow> go_error + bytes" where
  "aes_NewCipher key =
    (if length key \<in> {16, 24, 32} then Inr key else Inl (LibErr ''crypto/aes: invalid key size''))"

definition gcm_NonceSize :: nat where "gcm_NonceSize = 12"

definition EncryptAESGCM :: "lib \<Rightarrow> env \<Rightarrow> draw \<Rightarrow> bytes \<Rightarrow> bytes \<Rightarrow> go_error + bytes" where
  "EncryptAESGCM L ev d data key =
    (case aes_NewCipher key of
       Inl e \<Rightarrow> Inl e
     | Inr block \<Rightarrow>
         let nonce = rand_bytes ev d gcm_NonceSize in Inr (nonce @ gcm_Seal L block nonce data))"

definition DecryptAESGCM :: "lib \<Rightarrow> bytes \<Rightarrow> bytes \<Rightarrow> go_error + bytes" where
  "DecryptAESGCM L cipherText key =
    (case aes_NewCipher key of
       Inl e \<Rightarrow> Inl e
     | Inr block \<Rightarrow>
         if length cipherText < gcm_NonceSize then Inl (ErrNew ''ciphertext too short'')
         else (case gcm_Open L block (take gcm_NonceSize cipherText) (drop gcm_NonceSize cipherText) of
                 None \<Rightarrow> Inl (LibErr ''cipher: message authentication failed'')
               | Some plain \<Rightarrow> Inr plain))"

lemma aes_NewCipher_32: "length key = 32 \<Longrightarrow> aes_NewCipher key = Inr key"
  by (simp add: aes_NewCipher_def)

lemma EncryptAESGCM_32:
  "length key = 32 \<Longrightarrow>
    EncryptAESGCM L ev d data key
      = Inr (rand_bytes ev d gcm_NonceSize @ gcm_Seal L key (rand_bytes ev d gcm_NonceSize) data)"
  by (simp add: EncryptAESGCM_def aes_NewCipher_32 Let_def)

lemma EncryptAESGCM_InrD:
  "EncryptAESGCM L ev d data key = Inr c \<Longrightarrow>
    aes_NewCipher key = Inr key \<and>
    c = rand_bytes ev d gcm_NonceSize @ gcm_Seal L key (rand_bytes ev d gcm_NonceSize) data"
  by (auto simp: EncryptAESGCM_def aes_NewCipher_def Let_def split: if_splits)

lemma DecryptAESGCM_blob:
  "length nonce = gcm_NonceSize \<Longrightarrow> aes_NewCipher key = Inr key \<Longrightarrow> crypto_ok L \<Longrightarrow>
    DecryptAESGCM L (nonce @ gcm_Seal L key nonce data) key = Inr data"
  by (simp add: DecryptAESGCM_def gcm_Open_Seal)

text \<open>
  Decryption inverts encryption: a blob made under a key opens under that key to the data
  that was sealed, whatever nonce was drawn.
\<close>

theorem decrypt_encrypt:
  assumes "crypto_ok L" and "EncryptAESGCM L ev d data key = Inr c"
  shows "DecryptAESGCM L c key = Inr data"
  using EncryptAESGCM_InrD [OF assms(2)] assms(1) by (simp add: DecryptAESGCM_blob)

text \<open>
  C37: Decryption is authentic. A blob opens to some data exactly when the key has a size AES
  takes and the blob is a 12-byte nonce followed by the sealing of that data; every other input
  is an error.
\<close>

theorem decrypt_authentic:
  assumes "crypto_ok L"
  shows "DecryptAESGCM L c key = Inr data \<longleftrightarrow>
    length key \<in> {16, 24, 32} \<and>
    (\<exists>nonce. length nonce = 12 \<and> c = nonce @ gcm_Seal L key nonce data)"
    (is "?l \<longleftrightarrow> ?r")
proof
  assume ?l
  then have k: "length key \<in> {16, 24, 32}" and len: "\<not> length c < 12"
    and "gcm_Open L key (take 12 c) (drop 12 c) = Some data"
    by (auto simp: DecryptAESGCM_def aes_NewCipher_def gcm_NonceSize_def split: if_splits option.splits)
  then have "drop 12 c = gcm_Seal L key (take 12 c) data"
    using gcm_Open_iff [OF assms] by blast
  then have "c = take 12 c @ gcm_Seal L key (take 12 c) data"
    by (metis append_take_drop_id)
  with k len show ?r by (auto intro!: exI [of _ "take 12 c"])
next
  assume ?r
  then obtain nonce where "length nonce = gcm_NonceSize" and "aes_NewCipher key = Inr key"
    and "c = nonce @ gcm_Seal L key nonce data"
    by (auto simp: aes_NewCipher_def gcm_NonceSize_def)
  then show ?l using DecryptAESGCM_blob assms by simp
qed

interpretation aead: codec
  "\<lambda>(L, ev, d, key) data. EncryptAESGCM L ev d data key"
  "\<lambda>(L, ev, d, key) c. case c of Inl e \<Rightarrow> None | Inr b \<Rightarrow>
     (case DecryptAESGCM L b key of Inl e \<Rightarrow> None | Inr x \<Rightarrow> Some x)"
  "\<lambda>(L, ev, d, key) data. crypto_ok L \<and> length key = 32"
  by unfold_locales (auto simp: EncryptAESGCM_32 DecryptAESGCM_blob aes_NewCipher_32)

lemma EncryptAESGCM_length:
  "crypto_ok L \<Longrightarrow> EncryptAESGCM L ev d data key = Inr c \<Longrightarrow> length c = length data + 28"
  by (auto dest!: EncryptAESGCM_InrD simp: gcm_Seal_length gcm_NonceSize_def)

end
