(* ===== verification/Go_Strings.thy ===== *)
theory Go_Strings
  imports Prelude
begin

text \<open>
  The parts of Go's standard library on strings that the program computes with:
  \<^verbatim>\<open>strings.Split\<close>, \<^verbatim>\<open>filepath.Base\<close>, \<^verbatim>\<open>encoding/hex\<close>,
  unpadded \<^verbatim>\<open>encoding/base64\<close>, the verb \<^verbatim>\<open>%d\<close> and \<^verbatim>\<open>unicode/utf8\<close>.
\<close>

section \<open>Splitting and file names\<close>

text \<open>\<^verbatim>\<open>strings.Split(s, sep)\<close> for a one-byte separator.\<close>

fun split_on :: "char \<Rightarrow> string \<Rightarrow> string list" where
  "split_on c [] = [[]]"
| "split_on c (x # xs) =
    (if x = c then [] # split_on c xs
     else (case split_on c xs of [] \<Rightarrow> [[x]] | y # ys \<Rightarrow> (x # y) # ys))"

lemma split_on_no_sep: "c \<notin> set s \<Longrightarrow> split_on c s = [s]"
  by (induction s) auto

lemma split_on_append: "c \<notin> set s \<Longrightarrow> split_on c (s @ c # t) = s # split_on c t"
  by (induction s) auto

lemma split_on_not_Nil: "split_on c s \<noteq> []"
  by (induction s) (auto split: list.split)

text \<open>
  \<^verbatim>\<open>filepath.Base\<close> on a Unix path: trailing separators are removed, then everything up to
  the last separator.
\<close>

definition slash :: char where "slash = CHR ''/''"

definition path_tail :: "string \<Rightarrow> string" where
  "path_tail p = rev (takeWhile (\<lambda>c. c \<noteq> slash) (dropWhile (\<lambda>c. c = slash) (rev p)))"

definition filepath_base :: "string \<Rightarrow> string" where
  "filepath_base p =
    (if p = [] then ''.'' else if path_tail p = [] then [slash] else path_tail p)"

lemma filepath_base_nonempty: "filepath_base p \<noteq> []"
  by (simp add: filepath_base_def)

lemma path_tail_no_slash: "slash \<notin> set (path_tail p)"
  unfolding path_tail_def set_rev by (auto dest: set_takeWhileD)

lemma slash_not_dot: "slash \<notin> set ''.''"
  by (simp add: slash_def)

lemma filepath_base_no_slash:
  assumes "filepath_base p \<noteq> [slash]"
  shows "slash \<notin> set (filepath_base p)"
proof (cases "p = []")
  case True
  then show ?thesis unfolding filepath_base_def using slash_not_dot by simp
next
  case False
  with assms path_tail_no_slash [of p] show ?thesis
    unfolding filepath_base_def by (cases "path_tail p = []") simp_all
qed

lemma path_tail_id:
  assumes "slash \<notin> set p"
  shows "path_tail p = p"
proof -
  have all: "\<forall>c\<in>set (rev p). c \<noteq> slash"
    using assms by auto
  then have "dropWhile (\<lambda>c. c = slash) (rev p) = rev p"
    by (cases "rev p") auto
  moreover have "takeWhile (\<lambda>c. c \<noteq> slash) (rev p) = rev p"
    using all by (simp add: takeWhile_eq_all_conv)
  ultimately show ?thesis by (simp only: path_tail_def rev_rev_ident)
qed

lemma filepath_base_id: "p \<noteq> [] \<Longrightarrow> slash \<notin> set p \<Longrightarrow> filepath_base p = p"
  by (simp add: filepath_base_def path_tail_id)

section \<open>Decimal numbers in messages\<close>

fun nat_digits :: "nat \<Rightarrow> string" where
  "nat_digits n = (if n < 10 then [char_of (48 + n)] else nat_digits (n div 10) @ [char_of (48 + n mod 10)])"

declare nat_digits.simps [simp del]

text \<open>The verb \<^verbatim>\<open>%d\<close>.\<close>

definition fmt_d :: "int \<Rightarrow> string" where
  "fmt_d n = (if n < 0 then CHR ''-'' # nat_digits (nat (- n)) else nat_digits (nat n))"

section \<open>Hexadecimal\<close>

definition hex_digit :: "nat \<Rightarrow> char" where
  "hex_digit n = (if n < 10 then char_of (48 + n) else char_of (87 + n))"

text \<open>\<^verbatim>\<open>hex.EncodeToString\<close>.\<close>

definition hex_encode :: "bytes \<Rightarrow> string" where
  "hex_encode bs = concat (map (\<lambda>b. [hex_digit (of_char b div 16), hex_digit (of_char b mod 16)]) bs)"

lemma of_char_less [simp]: "(of_char c :: nat) < 256"
  by (metis of_char_of of_char_mod_256 mod_less_divisor zero_less_numeral)

lemma hex_digit_code: "n < 16 \<Longrightarrow> of_char (hex_digit n) = (if n < 10 then 48 + n else 87 + n :: nat)"
  by (auto simp: hex_digit_def)

lemma hex_digit_inj: "m < 16 \<Longrightarrow> n < 16 \<Longrightarrow> hex_digit m = hex_digit n \<Longrightarrow> m = n"
  by (drule arg_cong [where f = "of_char :: char \<Rightarrow> nat"]) (auto simp: hex_digit_code split: if_splits)

lemma length_hex_encode [simp]: "length (hex_encode bs) = 2 * length bs"
  by (induction bs) (auto simp: hex_encode_def)

lemma nibble_less [simp]: "of_char (b::char) div 16 < (16::nat)"
  using of_char_less [of b] by linarith

lemma hex_encode_inj: "hex_encode as = hex_encode bs \<longleftrightarrow> as = bs"
proof (induction as arbitrary: bs)
  case Nil
  then show ?case by (cases bs) (auto simp: hex_encode_def)
next
  case (Cons a as)
  show ?case
  proof (cases bs)
    case Nil
    then show ?thesis by (simp add: hex_encode_def)
  next
    case (Cons b cs)
    have "a = b" if "of_char a div 16 = (of_char b div 16 :: nat)"
      and "of_char a mod 16 = (of_char b mod 16 :: nat)"
      using that by (metis div_mod_decomp of_char_eq_iff)
    then show ?thesis
      using Cons Cons.IH [of cs]
      by (auto simp: hex_encode_def dest!: hex_digit_inj [rotated 2])
  qed
qed

section \<open>Unpadded base64\<close>

definition b64_alphabet :: string where
  "b64_alphabet = ''ABCDEFGHIJKLMNOPQRSTUVWXYZabcdefghijklmnopqrstuvwxyz0123456789+/''"

definition b64_char :: "nat \<Rightarrow> char" where
  "b64_char n = b64_alphabet ! n"

fun index_of :: "'a \<Rightarrow> 'a list \<Rightarrow> nat option" where
  "index_of x [] = None"
| "index_of x (y # ys) = (if x = y then Some 0 else map_option Suc (index_of x ys))"

definition b64_val :: "char \<Rightarrow> nat option" where
  "b64_val c = index_of c b64_alphabet"

text \<open>\<^verbatim>\<open>base64.RawStdEncoding.EncodeToString\<close>: three bytes to four digits, no padding.\<close>

fun b64_encode :: "bytes \<Rightarrow> string" where
  "b64_encode [] = []"
| "b64_encode [a] =
    [b64_char (of_char a div 4), b64_char (of_char a mod 4 * 16)]"
| "b64_encode [a, b] =
    [b64_char (of_char a div 4),
     b64_char (of_char a mod 4 * 16 + of_char b div 16),
     b64_char (of_char b mod 16 * 4)]"
| "b64_encode (a # b # c # r) =
    [b64_char (of_char a div 4),
     b64_char (of_char a mod 4 * 16 + of_char b div 16),
     b64_char (of_char b mod 16 * 4 + of_char c div 64),
     b64_char (of_char c mod 64)] @ b64_encode r"

text \<open>
  \<^verbatim>\<open>DecodeString\<close>: line breaks are skipped, an unknown digit or a lone last digit is
  an error, the unused low bits of the last digit are ignored.
\<close>

fun b64_quads :: "nat list \<Rightarrow> bytes option" where
  "b64_quads [] = Some []"
| "b64_quads [w] = None"
| "b64_quads [w, x] = Some [char_of (w * 4 + x div 16)]"
| "b64_quads [w, x, y] = Some [char_of (w * 4 + x div 16), char_of (x mod 16 * 16 + y div 4)]"
| "b64_quads (w # x # y # z # r) =
    map_option (\<lambda>bs. char_of (w * 4 + x div 16) # char_of (x mod 16 * 16 + y div 4)
      # char_of (y mod 4 * 64 + z) # bs) (b64_quads r)"

definition b64_decode :: "string \<Rightarrow> bytes option" where
  "b64_decode s =
    (case all_some (map b64_val (filter (\<lambda>c. c \<noteq> CHR 0x0A \<and> c \<noteq> CHR 0x0D) s)) of
       None \<Rightarrow> None | Some ds \<Rightarrow> b64_quads ds)"

lemma b64_alphabet_all:
  "list_all (\<lambda>n. b64_val (b64_char n) = Some n \<and> b64_char n \<noteq> CHR 0x0A \<and> b64_char n \<noteq> CHR 0x0D)
    [0..<64]"
  by code_simp

lemma b64_val_char: "n < 64 \<Longrightarrow> b64_val (b64_char n) = Some n"
  and b64_char_no_newline: "n < 64 \<Longrightarrow> b64_char n \<noteq> CHR 0x0A \<and> b64_char n \<noteq> CHR 0x0D"
  using b64_alphabet_all by (auto simp: list_all_iff)

lemma crumb_less [simp]: "of_char (b::char) div 64 < (4::nat)"
  using of_char_less [of b] by linarith

lemma byte_parts [simp]:
  fixes b :: char
  shows "of_char b div 16 div 16 = (0::nat)" and "of_char b div 16 mod 16 = (of_char b div 16 :: nat)"
    and "of_char b div 64 div 4 = (0::nat)" and "of_char b div 64 mod 4 = (of_char b div 64 :: nat)"
  by (simp_all only: div_less mod_less nibble_less crumb_less)

text \<open>The digits of an encoding, before they are written as characters.\<close>

fun b64_digits :: "bytes \<Rightarrow> nat list" where
  "b64_digits [] = []"
| "b64_digits [a] = [of_char a div 4, of_char a mod 4 * 16]"
| "b64_digits [a, b] =
    [of_char a div 4, of_char a mod 4 * 16 + of_char b div 16, of_char b mod 16 * 4]"
| "b64_digits (a # b # c # r) =
    [of_char a div 4, of_char a mod 4 * 16 + of_char b div 16,
     of_char b mod 16 * 4 + of_char c div 64, of_char c mod 64] @ b64_digits r"

lemma b64_encode_digits: "b64_encode bs = map b64_char (b64_digits bs)"
  by (induction bs rule: b64_encode.induct) auto

lemma b64_digit_bounds:
  fixes a b :: char
  shows "of_char a div 4 < (64::nat)" and "of_char a mod 4 * 16 < (64::nat)"
    and "of_char a mod 4 * 16 + of_char b div 16 < (64::nat)"
    and "of_char a mod 16 * 4 < (64::nat)" and "of_char a mod 64 < (64::nat)"
    and "of_char a mod 16 * 4 + of_char b div 64 < (64::nat)"
  using of_char_less [of a] of_char_less [of b] by linarith+

lemma b64_digits_bound: "d \<in> set (b64_digits bs) \<Longrightarrow> d < 64"
  by (induction bs rule: b64_digits.induct) (auto simp: b64_digit_bounds simp del: of_char_less)

lemma b64_quads_digits: "b64_quads (b64_digits bs) = Some bs"
  by (induction bs rule: b64_digits.induct) auto

lemma b64_decode_encode: "b64_decode (b64_encode bs) = Some bs"
proof -
  have nl: "filter (\<lambda>c. c \<noteq> CHR 0x0A \<and> c \<noteq> CHR 0x0D) (map b64_char (b64_digits bs))
      = map b64_char (b64_digits bs)"
    using b64_digits_bound b64_char_no_newline by (intro filter_True) auto
  have "all_some (map (\<lambda>d. b64_val (b64_char d)) (b64_digits bs)) = Some (map id (b64_digits bs))"
    by (rule all_some_map_Some) (simp add: b64_val_char b64_digits_bound)
  then show ?thesis
    by (simp add: b64_decode_def b64_encode_digits nl o_def b64_quads_digits del: filter_map)
qed

lemma b64_encode_empty_iff: "b64_encode bs = [] \<longleftrightarrow> bs = []"
  by (cases bs rule: b64_encode.cases) auto

interpretation b64: codec "\<lambda>(_::unit) bs. b64_encode bs" "\<lambda>(_::unit) s. b64_decode s" "\<lambda>_ _. True"
  by unfold_locales (simp add: b64_decode_encode)

section \<open>UTF-8\<close>

definition byte_in :: "char \<Rightarrow> nat \<Rightarrow> nat \<Rightarrow> bool" where
  "byte_in c lo hi \<longleftrightarrow> lo \<le> of_char c \<and> of_char c \<le> hi"

text \<open>
  The width of the code point a non-empty string starts with, as \<^verbatim>\<open>DecodeRune\<close> reads it:
  0 stands for an invalid encoding, which the library consumes as one byte.
\<close>

definition rune_len :: "bytes \<Rightarrow> nat" where
  "rune_len s = (case s of
      [] \<Rightarrow> 0
    | a # r1 \<Rightarrow>
      if byte_in a 0 0x7F then 1
      else (case r1 of [] \<Rightarrow> 0 | b # r2 \<Rightarrow>
        if byte_in a 0xC2 0xDF then (if byte_in b 0x80 0xBF then 2 else 0)
        else (case r2 of [] \<Rightarrow> 0 | c # r3 \<Rightarrow>
          if (byte_in a 0xE0 0xE0 \<and> byte_in b 0xA0 0xBF \<or> byte_in a 0xE1 0xEC \<and> byte_in b 0x80 0xBF
              \<or> byte_in a 0xED 0xED \<and> byte_in b 0x80 0x9F \<or> byte_in a 0xEE 0xEF \<and> byte_in b 0x80 0xBF)
             \<and> byte_in c 0x80 0xBF then 3
          else (case r3 of [] \<Rightarrow> 0 | d # _ \<Rightarrow>
            if (byte_in a 0xF0 0xF0 \<and> byte_in b 0x90 0xBF \<or> byte_in a 0xF1 0xF3 \<and> byte_in b 0x80 0xBF
                \<or> byte_in a 0xF4 0xF4 \<and> byte_in b 0x80 0x8F)
               \<and> byte_in c 0x80 0xBF \<and> byte_in d 0x80 0xBF then 4 else 0))))"

text \<open>\<^verbatim>\<open>utf8.RuneCountInString\<close>.\<close>

function rune_count :: "bytes \<Rightarrow> nat" where
  "rune_count s = (if s = [] then 0 else Suc (rune_count (drop (max 1 (rune_len s)) s)))"
  by pat_completeness auto
termination
  by (relation "measure length") auto

declare rune_count.simps [simp del]

text \<open>\<^verbatim>\<open>utf8.ValidString\<close>.\<close>

function utf8_valid :: "bytes \<Rightarrow> bool" where
  "utf8_valid s =
    (if s = [] then True
     else if rune_len s = 0 then False else utf8_valid (drop (rune_len s) s))"
  by pat_completeness auto
termination
  by (relation "measure length") auto

declare utf8_valid.simps [simp del]

lemma rune_len_le: "rune_len s \<le> 4" and rune_len_length: "rune_len s \<le> length s"
  by (auto simp: rune_len_def split: list.split)

lemma rune_count_le_length: "rune_count s \<le> length s"
proof (induction s rule: rune_count.induct)
  case (1 s)
  show ?case
  proof (cases s)
    case (Cons a r)
    with 1 have "rune_count (drop (max 1 (rune_len s)) s) \<le> length s - max 1 (rune_len s)" by simp
    with Cons show ?thesis by (simp add: rune_count.simps [of "a # r"])
  qed (simp add: rune_count.simps)
qed

lemma length_le_rune_count: "length s \<le> 4 * rune_count s"
proof (induction s rule: rune_count.induct)
  case (1 s)
  show ?case
  proof (cases s)
    case (Cons a r)
    with 1 have "length s - max 1 (rune_len s) \<le> 4 * rune_count (drop (max 1 (rune_len s)) s)" by simp
    with Cons rune_len_le [of s] show ?thesis by (simp add: rune_count.simps [of "a # r"])
  qed simp
qed

lemma rune_count_ascii: "(\<And>c. c \<in> set s \<Longrightarrow> of_char c < (128::nat)) \<Longrightarrow> rune_count s = length s"
proof (induction s)
  case (Cons a s)
  have "rune_len (a # s) = 1"
    using Cons.prems [of a] by (simp add: rune_len_def byte_in_def)
  with Cons show ?case by (simp add: rune_count.simps [of "a # s"])
qed (simp add: rune_count.simps)

end
