(* ===== verification/Instance_Lib.thy ===== *)
theory Instance_Lib
  imports Vault_Crypto Go_Strings
begin

text \<open>
  A concrete instance of the library functions, on which the witnesses evaluate. It satisfies
  every predicate of documented behaviour of theory \<open>Libraries\<close>, so those hypotheses are
  jointly satisfiable; it is an executable stand-in without any cryptographic strength.
\<close>

section \<open>Self-delimiting strings\<close>

definition enc_str :: "string \<Rightarrow> bytes" where
  "enc_str s = concat (map (\<lambda>c. [CHR ''.'', c]) s) @ [CHR ''!'']"

function dec_strs :: "string \<Rightarrow> bytes \<Rightarrow> string list option" where
  "dec_strs acc [] = (if acc = [] then Some [] else None)"
| "dec_strs acc [m] = (if m = CHR ''!'' then Some [rev acc] else None)"
| "dec_strs acc (m # c # r) =
    (if m = CHR ''!'' then map_option ((#) (rev acc)) (dec_strs [] (c # r))
     else dec_strs (c # acc) r)"
  by pat_completeness auto
termination
  by (relation "measure (\<lambda>(acc, xs). length xs)") auto

definition enc_strs :: "string list \<Rightarrow> bytes" where
  "enc_strs xs = concat (map enc_str xs)"

lemma dec_strs_end: "dec_strs acc (CHR ''!'' # r) = map_option ((#) (rev acc)) (dec_strs [] r)"
  by (cases r) auto

lemma dec_strs_enc_str: "dec_strs acc (enc_str s @ r) = map_option ((#) (rev acc @ s)) (dec_strs [] r)"
  by (induction s arbitrary: acc) (auto simp: enc_str_def dec_strs_end)

lemma dec_enc_strs: "dec_strs [] (enc_strs xs) = Some xs"
  by (induction xs) (auto simp: enc_strs_def dec_strs_enc_str)

section \<open>Numbers and times\<close>

fun nat_bytes :: "nat \<Rightarrow> bytes" where
  "nat_bytes n = (if n = 0 then [] else char_of (n mod 256) # nat_bytes (n div 256))"

declare nat_bytes.simps [simp del]

fun bytes_nat :: "bytes \<Rightarrow> nat" where
  "bytes_nat [] = 0"
| "bytes_nat (c # cs) = of_char c + 256 * bytes_nat cs"

lemma bytes_nat_bytes: "bytes_nat (nat_bytes n) = n"
proof (induction n rule: nat_bytes.induct)
  case (1 n)
  then show ?case by (cases "n = 0") (simp_all add: nat_bytes.simps [of n] nat_bytes.simps [of 0])
qed

definition time_text :: "gotime \<Rightarrow> string" where
  "time_text t = (if unix_ns t < 0 then CHR ''-'' else CHR ''+'') # rev (nat_bytes (nat \<bar>unix_ns t\<bar>))"

definition time_read :: "string \<Rightarrow> gotime option" where
  "time_read s = (case s of [] \<Rightarrow> None
    | c # r \<Rightarrow> let n = int (bytes_nat (rev r)) in
        Some (Unix_Ns (if c = CHR ''-'' then - n else n)))"

lemma time_read_text: "time_read (time_text t) = Some t"
  by (cases t) (simp add: time_read_def time_text_def Let_def bytes_nat_bytes)

section \<open>JSON and tokens\<close>

fun flat_pairs :: "(string \<times> string) list \<Rightarrow> string list" where
  "flat_pairs [] = []"
| "flat_pairs ((k, v) # r) = k # v # flat_pairs r"

fun to_pairs :: "string list \<Rightarrow> (string \<times> string) list option" where
  "to_pairs [] = Some []"
| "to_pairs [k] = None"
| "to_pairs (k # v # r) = map_option ((#) (k, v)) (to_pairs r)"

lemma to_flat_pairs: "to_pairs (flat_pairs ps) = Some ps"
  by (induction ps rule: flat_pairs.induct) auto

definition meta_strs :: "entry_metadata \<Rightarrow> string list" where
  "meta_strs m = md_Name m # md_Notes m # md_OriginalFilename m #
    (case md_ExtraTags m of None \<Rightarrow> [] | Some ps \<Rightarrow> ''tags'' # flat_pairs ps)"

fun strs_meta :: "string list \<Rightarrow> entry_metadata option" where
  "strs_meta [a, b, c] =
    Some \<lparr>md_Name = a, md_Notes = b, md_OriginalFilename = c, md_ExtraTags = None\<rparr>"
| "strs_meta (a # b # c # d # r) =
    map_option (\<lambda>ps. \<lparr>md_Name = a, md_Notes = b, md_OriginalFilename = c, md_ExtraTags = Some ps\<rparr>)
      (to_pairs r)"
| "strs_meta _ = None"

lemma strs_meta_strs: "strs_meta (meta_strs m) = Some m"
  by (cases m) (auto simp: meta_strs_def to_flat_pairs split: option.split)

fun strs_card :: "string list \<Rightarrow> card_payload option" where
  "strs_card [a, b, c, d] =
    Some \<lparr>card_Holder = a, card_Number = b, card_Expiry = c, card_CVC = d\<rparr>"
| "strs_card _ = None"

definition card_strs :: "card_payload \<Rightarrow> string list" where
  "card_strs c = [card_Holder c, card_Number c, card_Expiry c, card_CVC c]"

definition opt_time_text :: "gotime option \<Rightarrow> string" where
  "opt_time_text t = (case t of None \<Rightarrow> [] | Some u \<Rightarrow> time_text u)"

lemma time_read_opt_text: "time_read (opt_time_text t) = t"
  by (cases t) (simp_all add: opt_time_text_def time_read_text, simp add: time_read_def)

definition claims_strs :: "token_claims \<Rightarrow> string list" where
  "claims_strs c = [cl_Issuer c, cl_Subject c, opt_time_text (cl_ExpiresAt c),
     opt_time_text (cl_NotBefore c), opt_time_text (cl_IssuedAt c), cl_ID c,
     nat_bytes (unat (cl_UserID c))] @ cl_Audience c"

fun strs_claims :: "string list \<Rightarrow> token_claims option" where
  "strs_claims (i # sub # e # n # a # d # u # aud) =
    Some \<lparr>cl_Issuer = i, cl_Subject = sub, cl_Audience = aud, cl_ExpiresAt = time_read e,
      cl_NotBefore = time_read n, cl_IssuedAt = time_read a, cl_ID = d,
      cl_UserID = of_nat (bytes_nat u)\<rparr>"
| "strs_claims _ = None"

lemma strs_claims_strs: "strs_claims (claims_strs c) = Some c"
  by (cases c) (simp add: claims_strs_def time_read_opt_text bytes_nat_bytes)

definition toy_sign :: "rsa_key \<Rightarrow> token_claims \<Rightarrow> string" where
  "toy_sign k c = enc_strs (k # ''RS256'' # claims_strs c)"

definition toy_decode :: "string \<Rightarrow> (string \<times> token_claims) option" where
  "toy_decode t = (case dec_strs [] t of
      Some (k # alg # r) \<Rightarrow> map_option (Pair alg) (strs_claims r)
    | _ \<Rightarrow> None)"

section \<open>The instance\<close>

definition toy_tag :: "bytes \<Rightarrow> bytes" where
  "toy_tag k = take 16 (k @ replicate 16 CHR 0x00)"

definition toy_open :: "bytes \<Rightarrow> bytes \<Rightarrow> bytes \<Rightarrow> bytes option" where
  "toy_open k n c =
    (if 16 \<le> length c \<and> drop (length c - 16) c = toy_tag k then Some (take (length c - 16) c) else None)"

definition toy_uuid_text :: "uuid \<Rightarrow> string" where
  "toy_uuid_text u = replicate (unat u) CHR ''u''"

definition toy_uuid_parse :: "string \<Rightarrow> uuid option" where
  "toy_uuid_parse s = (if list_all (\<lambda>c. c = CHR ''u'') s then Some (of_nat (length s)) else None)"

definition toy_lower :: "string \<Rightarrow> string" where
  "toy_lower s = map (\<lambda>c. if byte_in c 65 90 then char_of (of_char c + 32 :: nat) else c) s"

definition toy :: lib where
  "toy = \<lparr>
     argon2_IDKey = (\<lambda>p s t m h n. take n (p @ s @ replicate n CHR 0x00)),
     sha256_Sum256 = (\<lambda>d. take 32 (d @ replicate 32 CHR 0x00)),
     gcm_Seal = (\<lambda>k n d. d @ toy_tag k),
     gcm_Open = toy_open,
     bcrypt_Generate = (\<lambda>s p. if length p \<le> 72 then Inr p else Inl ''too long''),
     bcrypt_Compare = (\<lambda>h p. h = p),
     json_Marshal_meta = (\<lambda>m. enc_strs (meta_strs m)),
     json_Unmarshal_meta = (\<lambda>b. Option.bind (dec_strs [] b) strs_meta),
     json_Marshal_card = (\<lambda>c. enc_strs (card_strs c)),
     json_Unmarshal_card = (\<lambda>b. Option.bind (dec_strs [] b) strs_card),
     fmt_q = (\<lambda>s. CHR 0x22 # s @ [CHR 0x22]),
     uuid_String = toy_uuid_text,
     uuid_Parse = toy_uuid_parse,
     sqlite_time_text = time_text,
     sqlite_time_read = time_read,
     sqlite_unixepoch = (\<lambda>s. map_option (\<lambda>t. unix_ns t div second) (time_read s)),
     pg_timestamptz = (\<lambda>t. Unix_Ns (unix_ns t div 1000 * 1000)),
     mail_ParseAddress = (\<lambda>s. if CHR ''@'' \<in> set s then Inr s else Inl ''mail: missing @''),
     strings_TrimSpace = (\<lambda>s. s),
     strings_ToLower = toy_lower,
     rsa_ParsePublicPEM = Inr,
     rsa_ParsePrivatePEM = Inr,
     jwt_NumericDate = (\<lambda>t. Unix_Ns (unix_ns t div second * second)),
     jwt_Sign_RS256 = (\<lambda>k c. Inr (toy_sign k c)),
     jwt_Decode = toy_decode,
     jwt_Verify_RS256 = (\<lambda>k t. (case dec_strs [] t of Some (k' # _) \<Rightarrow> k' = k | _ \<Rightarrow> False)),
     jwt_ClaimsValid = (\<lambda>now c. (case cl_ExpiresAt c of None \<Rightarrow> True | Some t \<Rightarrow> now < t) \<and>
        (case cl_NotBefore c of None \<Rightarrow> True | Some t \<Rightarrow> t \<le> now) \<and>
        (case cl_IssuedAt c of None \<Rightarrow> True | Some t \<Rightarrow> t \<le> now)),
     jwt_VerifyAudience = (\<lambda>c a req. a \<in> set (cl_Audience c)),
     jwt_MapNumber = (\<lambda>t. case toy_decode t of None \<Rightarrow> Inl ''malformed''
        | Some (alg, c) \<Rightarrow> Inr (\<lambda>name.
            if name = ''UserID'' then Some (float64_of_int (sint (cl_UserID c))) else None))
   \<rparr>"

lemma toy_sel:
  "bcrypt_Generate toy = (\<lambda>s p. if length p \<le> 72 then Inr p else Inl ''too long'')" "bcrypt_Compare toy = (\<lambda>h p. h = p)"
  "uuid_String toy = toy_uuid_text" "uuid_Parse toy = toy_uuid_parse"
  "sqlite_time_text toy = time_text" "sqlite_time_read toy = time_read"
  "sqlite_unixepoch toy = (\<lambda>s. map_option (\<lambda>t. unix_ns t div second) (time_read s))"
  "pg_timestamptz toy = (\<lambda>t. Unix_Ns (unix_ns t div 1000 * 1000))"
  "strings_TrimSpace toy = (\<lambda>s. s)" "strings_ToLower toy = toy_lower"
  "mail_ParseAddress toy = (\<lambda>s. if CHR ''@'' \<in> set s then Inr s else Inl ''mail: missing @'')"
  "rsa_ParsePublicPEM toy = Inr" "rsa_ParsePrivatePEM toy = Inr"
  "jwt_NumericDate toy = (\<lambda>t. Unix_Ns (unix_ns t div second * second))"
  "jwt_Sign_RS256 toy = (\<lambda>k c. Inr (toy_sign k c))" "jwt_Decode toy = toy_decode"
  by (simp_all add: toy_def)

lemma length_toy_tag [simp]: "length (toy_tag k) = 16"
  by (simp add: toy_tag_def)

lemma toy_open_iff: "toy_open k n c = Some d \<longleftrightarrow> c = d @ toy_tag k"
proof
  assume "toy_open k n c = Some d"
  then have d: "drop (length c - 16) c = toy_tag k" "d = take (length c - 16) c"
    by (auto simp: toy_open_def split: if_splits)
  have "c = take (length c - 16) c @ drop (length c - 16) c"
    by simp
  then show "c = d @ toy_tag k" unfolding d .
qed (simp add: toy_open_def)

lemma toy_crypto_ok: "crypto_ok toy"
  by (auto simp: crypto_ok_def toy_def toy_open_iff)

lemma toy_uuid_ok: "uuid_ok toy"
  by (simp add: uuid_ok_def toy_def toy_uuid_text_def toy_uuid_parse_def list_all_iff)

lemma toy_json_ok: "json_ok toy clean"
  by (auto simp: json_ok_def toy_def dec_enc_strs strs_meta_strs card_strs_def)

lemma toy_sqlite_time_ok: "sqlite_time_ok toy"
  by (simp add: sqlite_time_ok_def toy_def time_read_text)

lemma toy_bcrypt_ok: "bcrypt_ok toy"
  by (simp add: bcrypt_ok_def toy_def)

lemma toy_jwt_pair_ok: "jwt_pair_ok toy k k"
  by (simp add: jwt_pair_ok_def toy_def toy_sign_def toy_decode_def dec_enc_strs strs_claims_strs)

lemma toy_jwt_claims_ok: "jwt_claims_ok toy"
  by (simp add: jwt_claims_ok_def toy_def split: option.split)

lemma toy_jwt_map_ok: "jwt_map_ok toy"
  by (auto simp: jwt_map_ok_def toy_def toy_sign_def toy_decode_def dec_enc_strs strs_claims_strs)

text \<open>Surroundings with constant random bytes, a stopped clock and no failures.\<close>

definition calm :: "gotime \<Rightarrow> env" where
  "calm t = \<lparr>rnd = (\<lambda>n d i. CHR 0x2A), clk = (\<lambda>n r. t), fresh = (\<lambda>n i. 7),
     fault = (\<lambda>n c. None), rpc = 0\<rparr>"

lemma calm_no_faults [simp]: "no_faults (calm t)"
  by (simp add: no_faults_def calm_def)

lemma calm_in_rpc: "rand_bytes (in_rpc n (calm t)) d k = replicate k CHR 0x2A"
    "rand_bytes (calm t) d k = replicate k CHR 0x2A"
    "time_now (in_rpc n (calm t)) r = t" "time_now (calm t) r = t"
    "fresh_uuid (in_rpc n (calm t)) i = 7" "fresh_uuid (calm t) i = 7"
    "fault (in_rpc n (calm t)) = (\<lambda>n c. None)" "fault (calm t) = (\<lambda>n c. None)"
  by (simp_all add: rand_bytes_def time_now_def fresh_uuid_def in_rpc_def calm_def map_replicate_const)

lemma calm_call_at: "rand_bytes (call_at n ev) d k = rand_bytes (in_rpc (16 * rpc ev + n) ev) d k"
    "time_now (call_at n (calm t)) r = t" "fresh_uuid (call_at n (calm t)) i = 7"
  by (simp_all add: call_at_def calm_in_rpc)

lemmas toy_ok = toy_crypto_ok toy_uuid_ok toy_json_ok toy_sqlite_time_ok toy_bcrypt_ok toy_jwt_pair_ok
  toy_jwt_claims_ok toy_jwt_map_ok

section \<open>Concrete blobs\<close>

theorem decrypt_encrypt_witness:
  "\<exists>c. EncryptAESGCM toy (calm (Unix_Ns 0)) DrawPayloadNonce ''secret'' (replicate 32 CHR ''k'') = Inr c \<and>
    DecryptAESGCM toy c (replicate 32 CHR ''k'') = Inr ''secret''"
proof -
  obtain c where "EncryptAESGCM toy (calm (Unix_Ns 0)) DrawPayloadNonce ''secret'' (replicate 32 CHR ''k'') = Inr c"
    using EncryptAESGCM_32 [of "replicate 32 CHR ''k''"] by simp
  with decrypt_encrypt [OF toy_crypto_ok this] show ?thesis by blast
qed

theorem decrypt_authentic_witness:
  "\<not> (\<exists>data. DecryptAESGCM toy ''short'' (replicate 32 CHR ''k'') = Inr data)"
proof
  assume "\<exists>data. DecryptAESGCM toy ''short'' (replicate 32 CHR ''k'') = Inr data"
  then obtain data nonce :: bytes where "length nonce = 12"
    and "''short'' = nonce @ gcm_Seal toy (replicate 32 CHR ''k'') nonce data"
    unfolding decrypt_authentic [OF toy_crypto_ok] by (elim exE conjE)
  then have "length ''short'' = 12 + length (gcm_Seal toy (replicate 32 CHR ''k'') nonce data)"
    by (metis length_append)
  then show False by simp
qed

end
