(* ===== verification/Wire.thy ===== *)
theory Wire
  imports Instance_Lib
begin

text \<open>
  Entries on the wire: the conversions of the server's models
  (\<^verbatim>\<open>internal/skeeper/pkg/models/models.go\<close>) and of the CLI's gRPC client
  (\<^verbatim>\<open>internal/client/repository/skeeper/client.go\<close>).
\<close>

section \<open>The server's side\<close>

definition Entry_ToProto :: "lib \<Rightarrow> server_entry \<Rightarrow> api_entry" where
  "Entry_ToProto L e = \<lparr>
     pe_Uuid = uuid_String L (se_UUID e), pe_Type = se_Type e,
     pe_EncryptedDek = se_EncryptedDek e, pe_Payload = se_Payload e, pe_Meta = se_Meta e,
     pe_Version = se_Version e, pe_IsDeleted = se_IsDeleted e,
     pe_UpdatedAt = Some (timestamp_new (se_UpdatedAt e))\<rparr>"

definition NewEntryFromProto :: "lib \<Rightarrow> api_entry \<Rightarrow> go_error + server_entry" where
  "NewEntryFromProto L e =
    (case uuid_Parse L (pe_Uuid e) of
       None \<Rightarrow> Inl (NewValidationError ''uuid'' ''invalid uuid format'')
     | Some parsedUUID \<Rightarrow> Inr \<lparr>
         se_UUID = parsedUUID, se_Type = pe_Type e,
         se_EncryptedDek = pe_EncryptedDek e, se_Payload = pe_Payload e, se_Meta = pe_Meta e,
         se_Version = pe_Version e, se_IsDeleted = pe_IsDeleted e,
         se_UpdatedAt = (case pe_UpdatedAt e of None \<Rightarrow> zero_time | Some ts \<Rightarrow> timestamp_AsTime ts)\<rparr>)"

definition NewSyncRequestFromProto :: "lib \<Rightarrow> api_sync_request \<Rightarrow> go_error + sync_request" where
  "NewSyncRequestFromProto L r =
    (let lastSyncAt = (case ps_LastSyncAt r of None \<Rightarrow> zero_time | Some ts \<Rightarrow> timestamp_AsTime ts)
     in case map_result (\<lambda>p. case NewEntryFromProto L p of
               Inl e \<Rightarrow> Inl (Wrap (Some e) ''parse entry in sync request'')
             | Inr entry \<Rightarrow> Inr entry) (ps_Updates r) of
          Inl e \<Rightarrow> Inl e
        | Inr updates \<Rightarrow> Inr \<lparr>rq_LastSyncAt = lastSyncAt, rq_Updates = updates\<rparr>)"

definition SyncResponse_ToProto :: "lib \<Rightarrow> sync_response \<Rightarrow> api_sync_response" where
  "SyncResponse_ToProto L s = \<lparr>
     pr_Updates = map (Entry_ToProto L) (rs_Updates s),
     pr_CurrentSyncAt = Some (timestamp_new (rs_CurrentSyncAt s)),
     pr_AppliedUpdateUuids = map (uuid_String L) (rs_AppliedUpdateUUIDs s)\<rparr>"

section \<open>The client's side\<close>

definition clientEntryToProto :: "lib \<Rightarrow> client_entry \<Rightarrow> api_entry" where
  "clientEntryToProto L e = \<lparr>
     pe_Uuid = uuid_String L (ce_UUID e), pe_Type = ce_Type e,
     pe_EncryptedDek = ce_EncryptedDek e, pe_Payload = ce_Payload e, pe_Meta = ce_Meta e,
     pe_Version = ce_Version e, pe_IsDeleted = ce_IsDeleted e,
     pe_UpdatedAt = Some (timestamp_new (ce_UpdatedAt e))\<rparr>"

definition protoToClientEntry :: "lib \<Rightarrow> api_entry \<Rightarrow> go_error + client_entry" where
  "protoToClientEntry L pe =
    (case uuid_Parse L (pe_Uuid pe) of
       None \<Rightarrow> Inl (LibErr ''invalid UUID'')
     | Some parsed \<Rightarrow> Inr \<lparr>
         ce_UUID = parsed, ce_Type = pe_Type pe,
         ce_EncryptedDek = pe_EncryptedDek pe, ce_Payload = pe_Payload pe, ce_Meta = pe_Meta pe,
         ce_Version = pe_Version pe, ce_IsDeleted = pe_IsDeleted pe,
         ce_UpdatedAt = (case pe_UpdatedAt pe of None \<Rightarrow> zero_time | Some ts \<Rightarrow> timestamp_AsTime ts),
         ce_IsDirty = False, ce_UserID = None\<rparr>)"

text \<open>The server's entry that a client entry turns into when it is sent, and the way back.\<close>

definition to_server :: "client_entry \<Rightarrow> server_entry" where
  "to_server e = \<lparr>se_UUID = ce_UUID e, se_Type = ce_Type e, se_EncryptedDek = ce_EncryptedDek e,
     se_Payload = ce_Payload e, se_Meta = ce_Meta e, se_Version = ce_Version e,
     se_IsDeleted = ce_IsDeleted e, se_UpdatedAt = ce_UpdatedAt e\<rparr>"

definition to_client :: "server_entry \<Rightarrow> client_entry" where
  "to_client e = \<lparr>ce_UUID = se_UUID e, ce_Type = se_Type e, ce_EncryptedDek = se_EncryptedDek e,
     ce_Payload = se_Payload e, ce_Meta = se_Meta e, ce_Version = se_Version e,
     ce_IsDeleted = se_IsDeleted e, ce_UpdatedAt = se_UpdatedAt e, ce_IsDirty = False, ce_UserID = None\<rparr>"

lemma to_client_to_server: "to_client (to_server e) = e\<lparr>ce_IsDirty := False, ce_UserID := None\<rparr>"
  by (simp add: to_client_def to_server_def)

lemma to_server_to_client [simp]: "to_server (to_client e) = e"
  by (simp add: to_client_def to_server_def)

section \<open>Conversions invert each other\<close>

interpretation server_wire: codec "\<lambda>L e. Entry_ToProto L e"
  "\<lambda>L p. case NewEntryFromProto L p of Inl e \<Rightarrow> None | Inr e \<Rightarrow> Some e" "\<lambda>L _. uuid_ok L"
  by unfold_locales (simp add: Entry_ToProto_def NewEntryFromProto_def uuid_Parse_String)

lemma NewEntryFromProto_client:
  "uuid_ok L \<Longrightarrow> NewEntryFromProto L (clientEntryToProto L e) = Inr (to_server e)"
  by (simp add: NewEntryFromProto_def clientEntryToProto_def to_server_def uuid_Parse_String)

lemma protoToClientEntry_server:
  "uuid_ok L \<Longrightarrow> protoToClientEntry L (Entry_ToProto L e) = Inr (to_client e)"
  by (simp add: protoToClientEntry_def Entry_ToProto_def to_client_def uuid_Parse_String)

text \<open>
  An entry survives the trip to the server and back. Encoding a client entry, parsing it on
  the server, encoding it there and parsing it on a client gives the entry back, except for the
  two local fields that are not sent.
\<close>

theorem wire_roundtrip:
  assumes "uuid_ok L"
  shows "(case NewEntryFromProto L (clientEntryToProto L e) of
      Inl err \<Rightarrow> Inl err | Inr se \<Rightarrow> protoToClientEntry L (Entry_ToProto L se))
    = Inr (e\<lparr>ce_IsDirty := False, ce_UserID := None\<rparr>)"
  using assms by (simp add: NewEntryFromProto_client protoToClientEntry_server to_client_to_server)

lemma NewSyncRequestFromProto_client:
  assumes "uuid_ok L"
  shows "NewSyncRequestFromProto L
      \<lparr>ps_Updates = map (clientEntryToProto L) es, ps_LastSyncAt = Some (timestamp_new t)\<rparr>
    = Inr \<lparr>rq_LastSyncAt = t, rq_Updates = map to_server es\<rparr>"
proof -
  have "map_result (\<lambda>p. case NewEntryFromProto L p of
        Inl e \<Rightarrow> Inl (Wrap (Some e) ''parse entry in sync request'') | Inr entry \<Rightarrow> Inr entry)
      (map (clientEntryToProto L) es) = Inr (map to_server es)"
    by (induction es) (simp_all add: NewEntryFromProto_client assms)
  then show ?thesis by (simp add: NewSyncRequestFromProto_def)
qed

text \<open>
  A sync request is parsed completely or refused. Every message of an accepted request
  became the entry it encodes, in order; a refused one is a validation error about a uuid, and
  some message of it does carry an unparsable uuid.
\<close>

theorem sync_request_all_or_validation_error:
  "case NewSyncRequestFromProto L r of
     Inl e \<Rightarrow> as_validation e = Some (''uuid'', ''invalid uuid format'') \<and>
       (\<exists>p\<in>set (ps_Updates r). uuid_Parse L (pe_Uuid p) = None)
   | Inr q \<Rightarrow> list_all2 (\<lambda>p e. NewEntryFromProto L p = Inr e) (ps_Updates r) (rq_Updates q)"
proof -
  let ?f = "\<lambda>p. case NewEntryFromProto L p of
      Inl e \<Rightarrow> Inl (Wrap (Some e) ''parse entry in sync request'') | Inr entry \<Rightarrow> Inr entry"
  have f_Inr: "?f p = Inr e \<longleftrightarrow> NewEntryFromProto L p = Inr e" for p e
    by (auto split: sum.split)
  have f_Inl: "uuid_Parse L (pe_Uuid p) = None \<and> as_validation e = Some (''uuid'', ''invalid uuid format'')"
    if "?f p = Inl e" for p e
    using that by (auto simp: NewEntryFromProto_def split: option.splits sum.splits)
  show ?thesis
  proof (cases "map_result ?f (ps_Updates r)")
    case (Inl e)
    from map_result_InlD [OF Inl] obtain p where p: "p \<in> set (ps_Updates r)" and fp: "?f p = Inl e"
      by (rule bexE)
    have "NewSyncRequestFromProto L r = Inl e"
      unfolding NewSyncRequestFromProto_def Let_def Inl by simp
    then show ?thesis
      using f_Inl [OF fp] p by (simp only: sum.case) (rule conjI, simp, rule bexI, simp_all)
  next
    case (Inr es)
    have "list_all2 (\<lambda>p e. ?f p = Inr e) (ps_Updates r) es"
      by (rule map_result_InrD [OF Inr])
    then have "list_all2 (\<lambda>p e. NewEntryFromProto L p = Inr e) (ps_Updates r) es"
      by (rule list_all2_mono) (simp only: f_Inr)
    with Inr show ?thesis by (simp add: NewSyncRequestFromProto_def)
  qed
qed

section \<open>Concrete messages\<close>

definition wire_sample :: client_entry where
  "wire_sample = \<lparr>ce_UUID = 3, ce_Type = EntryTypeText, ce_EncryptedDek = ''dek'', ce_Payload = ''p'',
     ce_Meta = ''m'', ce_Version = 4, ce_IsDeleted = False, ce_UpdatedAt = Unix_Ns 5, ce_IsDirty = True,
     ce_UserID = Some 1\<rparr>"

theorem wire_roundtrip_witness:
  "(case NewEntryFromProto toy (clientEntryToProto toy wire_sample) of
      Inl err \<Rightarrow> Inl err | Inr se \<Rightarrow> protoToClientEntry toy (Entry_ToProto toy se))
    = Inr (wire_sample\<lparr>ce_IsDirty := False, ce_UserID := None\<rparr>)"
  by (rule wire_roundtrip [OF toy_uuid_ok])

theorem sync_request_all_or_validation_error_witness:
  "case NewSyncRequestFromProto toy \<lparr>ps_Updates = [clientEntryToProto toy wire_sample], ps_LastSyncAt = None\<rparr> of
     Inl e \<Rightarrow> False | Inr q \<Rightarrow> length (rq_Updates q) = 1"
proof -
  let ?r = "\<lparr>ps_Updates = [clientEntryToProto toy wire_sample], ps_LastSyncAt = None\<rparr>"
  have "uuid_Parse toy (pe_Uuid (clientEntryToProto toy wire_sample)) \<noteq> None"
    by (simp add: clientEntryToProto_def uuid_Parse_String [OF toy_uuid_ok])
  with sync_request_all_or_validation_error [where L = toy and r = ?r] show ?thesis
    by (simp add: list_all2_Cons1 split: sum.splits) fastforce
qed

end
