(* ===== verification/Tables.thy ===== *)
theory Tables
  imports Prelude "HOL-Library.Multiset"
begin

text \<open>
  SQL tables with a primary key: a list of rows in storage order, no key twice. The locale
  \<open>keyed_store\<close> is the contract the repositories promise their callers (what a lookup
  returns after a write); \<open>versioned_store\<close> extends it with the version-gated write that
  last-write-wins synchronisation rests on. The list implementation at the top is what the
  Postgres and SQLite repositories interpret the contracts on.
\<close>

section \<open>Rows in a list\<close>

text \<open>\<^verbatim>\<open>SELECT ... WHERE key = k\<close> on a primary key: the row, or no rows.\<close>

fun find_row :: "('r \<Rightarrow> 'k) \<Rightarrow> 'r list \<Rightarrow> 'k \<Rightarrow> 'r option" where
  "find_row key [] k = None"
| "find_row key (r # rs) k = (if key r = k then Some r else find_row key rs k)"

text \<open>\<^verbatim>\<open>INSERT ... ON CONFLICT (key) DO UPDATE\<close>: overwrite in place, or append.\<close>

fun put_row :: "('r \<Rightarrow> 'k) \<Rightarrow> 'r \<Rightarrow> 'r list \<Rightarrow> 'r list" where
  "put_row key r [] = [r]"
| "put_row key r (s # rs) = (if key s = key r then r # rs else s # put_row key r rs)"

definition unique_keys :: "('r \<Rightarrow> 'k) \<Rightarrow> 'r list \<Rightarrow> bool" where
  "unique_keys key rs \<longleftrightarrow> distinct (map key rs)"

named_theorems table_simps \<open>lookups and writes on lists of rows\<close>

lemma unique_keys_Nil [simp]: "unique_keys key []"
  by (simp add: unique_keys_def)

lemma unique_keys_Cons [simp]:
  "unique_keys key (r # rs) \<longleftrightarrow> key r \<notin> key ` set rs \<and> unique_keys key rs"
  by (simp add: unique_keys_def)

lemma find_row_key: "find_row key rs k = Some r \<Longrightarrow> key r = k"
  by (induction rs) (auto split: if_splits)

lemma find_row_in_set: "find_row key rs k = Some r \<Longrightarrow> r \<in> set rs"
  by (induction rs) (auto split: if_splits)

lemma find_row_None_iff: "find_row key rs k = None \<longleftrightarrow> k \<notin> key ` set rs"
  by (induction rs) auto

lemma find_row_Some_iff:
  "unique_keys key rs \<Longrightarrow> find_row key rs k = Some r \<longleftrightarrow> r \<in> set rs \<and> key r = k"
  by (induction rs) (auto split: if_splits)

lemma find_row_put_row [table_simps]:
  "find_row key (put_row key r rs) k = (if k = key r then Some r else find_row key rs k)"
  by (induction rs) auto

lemma find_row_put_row_fun: "find_row key (put_row key r rs) = (find_row key rs)(key r \<mapsto> r)"
  by (rule ext) (simp add: find_row_put_row)

lemma keys_put_row: "key ` set (put_row key r rs) = insert (key r) (key ` set rs)"
  by (induction rs) auto

lemma set_put_row_subset: "set (put_row key r rs) \<subseteq> insert r (set rs)"
  by (induction rs) auto

lemma unique_keys_put_row [table_simps]:
  "unique_keys key rs \<Longrightarrow> unique_keys key (put_row key r rs)"
  by (induction rs) (auto simp: keys_put_row)

lemma set_put_row:
  "unique_keys key rs \<Longrightarrow> set (put_row key r rs) = insert r {s \<in> set rs. key s \<noteq> key r}"
  by (induction rs) (auto simp: image_iff)

lemma length_put_row:
  "length (put_row key r rs) = (if key r \<in> key ` set rs then length rs else Suc (length rs))"
  by (induction rs) auto

lemma put_row_same: "find_row key rs (key r) = Some r \<Longrightarrow> put_row key r rs = rs"
  by (induction rs) (auto split: if_splits)

lemma put_row_twice: "key r = key s \<Longrightarrow> put_row key r (put_row key s rs) = put_row key r rs"
  by (induction rs) auto

text \<open>\<^verbatim>\<open>UPDATE ... SET ... WHERE p\<close>: every row that satisfies \<open>p\<close>, in place.\<close>

definition update_where :: "('r \<Rightarrow> bool) \<Rightarrow> ('r \<Rightarrow> 'r) \<Rightarrow> 'r list \<Rightarrow> 'r list" where
  "update_where p f rs = map (\<lambda>r. if p r then f r else r) rs"

lemma unique_keys_update_where:
  assumes "\<And>r. key (f r) = key r"
  shows "unique_keys key (update_where p f rs) = unique_keys key rs"
proof -
  have "map key (update_where p f rs) = map key rs"
    using assms by (simp add: update_where_def)
  then show ?thesis by (simp add: unique_keys_def)
qed

lemma find_row_update_where:
  assumes "\<And>r. key (f r) = key r"
  shows "find_row key (update_where p f rs) k
    = map_option (\<lambda>r. if p r then f r else r) (find_row key rs k)"
  using assms by (induction rs) (auto simp: update_where_def)

text \<open>\<^verbatim>\<open>DELETE ... WHERE p\<close> keeps the rows that do not satisfy \<open>p\<close>.\<close>

lemma unique_keys_filter: "unique_keys key rs \<Longrightarrow> unique_keys key (filter p rs)"
  by (simp add: unique_keys_def distinct_map_filter)

lemma find_row_filter:
  "unique_keys key rs \<Longrightarrow>
    find_row key (filter p rs) k
      = (case find_row key rs k of None \<Rightarrow> None | Some r \<Rightarrow> if p r then Some r else None)"
proof (induction rs)
  case (Cons a rs)
  have "find_row key (filter p rs) (key a) = None"
    using Cons.prems by (auto simp: find_row_None_iff)
  moreover have "find_row key rs (key a) = None"
    using Cons.prems by (simp add: find_row_None_iff)
  ultimately show ?case using Cons by auto
qed simp

section \<open>The store contract\<close>

locale keyed_store =
  fixes key :: "'r \<Rightarrow> 'k"
    and wf :: "'t \<Rightarrow> bool"
    and look :: "'t \<Rightarrow> 'k \<Rightarrow> 'r option"
    and put :: "'r \<Rightarrow> 't \<Rightarrow> 't"
  assumes look_key: "look t k = Some r \<Longrightarrow> key r = k"
    and look_put: "wf t \<Longrightarrow> look (put r t) = (look t)(key r \<mapsto> r)"
    and wf_put: "wf t \<Longrightarrow> wf (put r t)"
begin

lemma look_put_same: "wf t \<Longrightarrow> look (put r t) (key r) = Some r"
  by (simp add: look_put)

lemma look_put_other: "wf t \<Longrightarrow> k \<noteq> key r \<Longrightarrow> look (put r t) k = look t k"
  by (simp add: look_put)

lemma put_idem: "wf t \<Longrightarrow> look (put r (put r t)) = look (put r t)"
  by (simp add: look_put wf_put)

lemma put_commute:
  "wf t \<Longrightarrow> key r \<noteq> key s \<Longrightarrow> look (put r (put s t)) = look (put s (put r t))"
  by (simp add: look_put wf_put fun_upd_twist)

lemma wf_fold_put: "wf t \<Longrightarrow> wf (fold put rs t)"
  by (induction rs arbitrary: t) (auto simp: wf_put)

text \<open>A batch of writes: the last write to a key wins, other keys keep their row.\<close>

lemma look_fold_put:
  "wf t \<Longrightarrow> look (fold put rs t) k
    = (case find_row key (rev rs) k of None \<Rightarrow> look t k | Some r \<Rightarrow> Some r)"
proof (induction rs rule: rev_induct)
  case (snoc r rs)
  then show ?case by (simp add: look_put wf_fold_put)
qed simp

end

section \<open>Version-gated writes\<close>

text \<open>
  \<open>newer o r\<close>: the stored row \<open>o\<close> gives way to the proposed row \<open>r\<close>. \<open>gate\<close> is the
  write of one proposed row: inserted when its key is free, stored when it is newer than the
  row that is there, dropped otherwise.
\<close>

definition gate ::
  "('r \<Rightarrow> 'k) \<Rightarrow> ('t \<Rightarrow> 'k \<Rightarrow> 'r option) \<Rightarrow> ('r \<Rightarrow> 't \<Rightarrow> 't) \<Rightarrow> ('r \<Rightarrow> 'r \<Rightarrow> bool) \<Rightarrow> 'r \<Rightarrow> 't \<Rightarrow> 't" where
  "gate key look put newer r t =
    (case look t (key r) of None \<Rightarrow> put r t | Some s \<Rightarrow> if newer s r then put r t else t)"

locale versioned_store = keyed_store key wf look put
  for key :: "'r \<Rightarrow> 'k" and wf :: "'t \<Rightarrow> bool"
    and look :: "'t \<Rightarrow> 'k \<Rightarrow> 'r option" and put :: "'r \<Rightarrow> 't \<Rightarrow> 't" +
  fixes rank :: "'r \<Rightarrow> int"
    and newer :: "'r \<Rightarrow> 'r \<Rightarrow> bool"
  assumes newer_iff: "newer s r \<longleftrightarrow> rank s < rank r"
begin

lemma wf_gate: "wf t \<Longrightarrow> wf (gate key look put newer r t)"
  by (auto simp: gate_def wf_put split: option.split)

lemma look_gate:
  "wf t \<Longrightarrow> look (gate key look put newer r t) k =
    (if k = key r then
       (case look t k of None \<Rightarrow> Some r | Some s \<Rightarrow> if rank s < rank r then Some r else Some s)
     else look t k)"
  by (auto simp: gate_def look_put newer_iff split: option.split)

text \<open>The rank stored under a key never decreases and a key never disappears.\<close>

lemma gate_monotone:
  assumes "wf t" and "look t k = Some s"
  shows "\<exists>s'. look (gate key look put newer r t) k = Some s' \<and> rank s \<le> rank s'"
  using assms by (auto simp: look_gate)

lemma wf_fold_gate: "wf t \<Longrightarrow> wf (fold (gate key look put newer) rs t)"
  by (induction rs arbitrary: t) (auto simp: wf_gate)

lemma fold_gate_monotone:
  assumes "wf t" and "look t k = Some s"
  shows "\<exists>s'. look (fold (gate key look put newer) rs t) k = Some s' \<and> rank s \<le> rank s'"
  using assms
proof (induction rs arbitrary: t s)
  case (Cons r rs)
  obtain s1 where "look (gate key look put newer r t) k = Some s1" and le: "rank s \<le> rank s1"
    using gate_monotone [OF Cons.prems] by blast
  with Cons.IH [OF wf_gate [OF Cons.prems(1)]] show ?case by fastforce
qed simp

text \<open>Two writes commute, unless they propose different rows of equal rank for one key.\<close>

lemma gate_commute:
  assumes "wf t" and "key r = key s \<Longrightarrow> rank r = rank s \<Longrightarrow> r = s"
  shows "look (gate key look put newer r (gate key look put newer s t))
    = look (gate key look put newer s (gate key look put newer r t))"
proof (rule ext)
  fix k
  note simps = look_gate [OF wf_gate [OF assms(1)]] look_gate [OF assms(1)]
  show "look (gate key look put newer r (gate key look put newer s t)) k
    = look (gate key look put newer s (gate key look put newer r t)) k"
  proof (cases "key r = key s")
    case same: True
    show ?thesis
    proof (cases "rank r = rank s")
      case True
      with same assms(2) show ?thesis by blast
    next
      case False
      with same show ?thesis by (cases "look t k") (auto simp: simps)
    qed
  next
    case False
    then show ?thesis by (simp add: simps)
  qed
qed

lemma gate_cong:
  "wf t \<Longrightarrow> wf u \<Longrightarrow> look t = look u \<Longrightarrow>
    look (gate key look put newer r t) = look (gate key look put newer r u)"
  by (rule ext) (simp only: look_gate)

lemma fold_gate_cong:
  "wf t \<Longrightarrow> wf u \<Longrightarrow> look t = look u \<Longrightarrow>
    look (fold (gate key look put newer) rs t) = look (fold (gate key look put newer) rs u)"
proof (induction rs arbitrary: t u)
  case (Cons r rs)
  have "look (gate key look put newer r t) = look (gate key look put newer r u)"
    by (rule gate_cong [OF Cons.prems])
  from Cons.IH [OF wf_gate [OF Cons.prems(1)] wf_gate [OF Cons.prems(2)] this]
  show ?case by simp
qed simp

lemma gate_idem: "wf t \<Longrightarrow> look (gate key look put newer r (gate key look put newer r t))
    = look (gate key look put newer r t)"
  by (rule ext) (auto simp: look_gate wf_gate split: option.split)

text \<open>Rows that agree whenever key and rank agree; then the order of the writes is irrelevant.\<close>

definition coherent :: "'r set \<Rightarrow> bool" where
  "coherent R \<longleftrightarrow> (\<forall>r\<in>R. \<forall>s\<in>R. key r = key s \<longrightarrow> rank r = rank s \<longrightarrow> r = s)"

lemma coherentD:
  assumes "coherent R" and "r \<in> R" and "s \<in> R" and "key r = key s" and "rank r = rank s"
  shows "r = s"
proof -
  have "\<forall>r\<in>R. \<forall>s\<in>R. key r = key s \<longrightarrow> rank r = rank s \<longrightarrow> r = s"
    using assms(1) by (simp only: coherent_def)
  from bspec [OF bspec [OF this assms(2)] assms(3)] assms(4,5)
  show ?thesis by iprover
qed

lemma coherent_subset: "coherent R \<Longrightarrow> S \<subseteq> R \<Longrightarrow> coherent S"
  unfolding coherent_def by blast

lemma fold_gate_swap:
  assumes "wf t" and "coherent (insert r (set rs))"
  shows "look (fold (gate key look put newer) rs (gate key look put newer r t))
    = look (gate key look put newer r (fold (gate key look put newer) rs t))"
  using assms
proof (induction rs arbitrary: t)
  case (Cons s rs)
  have coh: "coherent (insert r (set rs))"
    by (rule coherent_subset [OF Cons.prems(2)]) auto
  have rs: "key r = key s \<Longrightarrow> rank r = rank s \<Longrightarrow> r = s"
    by (rule coherentD [OF Cons.prems(2)]) simp_all
  have "look (gate key look put newer s (gate key look put newer r t))
    = look (gate key look put newer r (gate key look put newer s t))"
    by (rule gate_commute [OF Cons.prems(1) rs, symmetric])
  then have "look (fold (gate key look put newer) rs (gate key look put newer s (gate key look put newer r t)))
    = look (fold (gate key look put newer) rs (gate key look put newer r (gate key look put newer s t)))"
    by (rule fold_gate_cong [OF wf_gate [OF wf_gate [OF Cons.prems(1)]] wf_gate [OF wf_gate [OF Cons.prems(1)]]])
  also have "\<dots> = look (gate key look put newer r
      (fold (gate key look put newer) rs (gate key look put newer s t)))"
    by (rule Cons.IH [OF wf_gate [OF Cons.prems(1)] coh])
  finally show ?case by simp
qed simp

lemma fold_gate_perm:
  assumes "mset rs = mset ss" and "wf t" and "coherent (set rs)"
  shows "look (fold (gate key look put newer) rs t) = look (fold (gate key look put newer) ss t)"
  using assms
proof (induction rs arbitrary: ss t)
  case (Cons r rs)
  from Cons.prems(1) have "r \<in># mset ss" by (metis list.set_intros(1) set_mset_mset)
  then obtain ys zs where ss: "ss = ys @ r # zs" by (auto dest: split_list)
  have m: "mset rs = mset (ys @ zs)" using Cons.prems(1) ss by simp
  have seteq: "set rs = set (ys @ zs)" using m by (metis set_mset_mset)
  have coh: "coherent (set rs)" and cohy: "coherent (insert r (set ys))"
    by (rule coherent_subset [OF Cons.prems(3)], use seteq in auto)+
  have "look (fold (gate key look put newer) (r # rs) t)
    = look (fold (gate key look put newer) (ys @ zs) (gate key look put newer r t))"
    using Cons.IH [OF m wf_gate [OF Cons.prems(2)] coh] by simp
  also have "\<dots> = look (fold (gate key look put newer) zs
      (gate key look put newer r (fold (gate key look put newer) ys t)))"
    unfolding fold_append o_apply
    by (rule fold_gate_cong [OF wf_fold_gate [OF wf_gate [OF Cons.prems(2)]]
          wf_gate [OF wf_fold_gate [OF Cons.prems(2)]] fold_gate_swap [OF Cons.prems(2) cohy]])
  finally show ?case by (simp add: ss)
qed simp

end

section \<open>Cells that are written once\<close>

text \<open>
  A parameter that the first writer fixes: later writers find it set and leave it. The vault
  parameters of a user are such a cell, on the server and on each device.
\<close>

locale write_once =
  fixes held :: "'t \<Rightarrow> 'v option"
    and offer :: "'v \<Rightarrow> 't \<Rightarrow> 't"
  assumes held_offer: "held (offer v t) = Some (case held t of None \<Rightarrow> v | Some w \<Rightarrow> w)"
begin

lemma offer_set: "held t = Some w \<Longrightarrow> held (offer v t) = Some w"
  by (simp add: held_offer)

lemma held_fold_offer:
  "held (fold offer vs t) = (case held t of Some w \<Rightarrow> Some w
    | None \<Rightarrow> (case vs of [] \<Rightarrow> None | v # _ \<Rightarrow> Some v))"
  by (induction vs arbitrary: t) (auto simp: held_offer split: option.split list.split)

lemma held_after_some_offer: "vs \<noteq> [] \<Longrightarrow> \<exists>w. held (fold offer vs t) = Some w"
  by (auto simp: held_fold_offer split: option.split list.split)

end

end
