(* ===== verification/Skeeper_Store.thy ===== *)
theory Skeeper_Store
  imports Wire Tables Instance_Lib Go_Strings
begin

text \<open>
  The Postgres repository of the vault service
  (\<^verbatim>\<open>internal/skeeper/repository/postgres\<close>): the table \<^verbatim>\<open>entries\<close> with primary
  key (user, uuid) and the table \<^verbatim>\<open>vault_crypto\<close> with one row per user. Each SQL
  statement is one atomic function on the tables.
\<close>

section \<open>Tables\<close>

record entryDB =
  er_UUID :: uuid
  er_UserID :: int64
  er_Type :: string
  er_EncryptedDek :: bytes
  er_Payload :: bytes
  er_Meta :: bytes
  er_Version :: int64
  er_IsDeleted :: bool
  er_UpdatedAt :: gotime

record skeeper_db =
  db_entries :: "entryDB list"
  db_vault :: "int64 \<rightharpoonup> bytes \<times> bytes"

definition toDomain :: "entryDB \<Rightarrow> server_entry" where
  "toDomain e = \<lparr>
     se_UUID = er_UUID e, se_Type = er_Type e, se_EncryptedDek = er_EncryptedDek e,
     se_Payload = er_Payload e, se_Meta = er_Meta e, se_Version = er_Version e,
     se_IsDeleted = er_IsDeleted e, se_UpdatedAt = er_UpdatedAt e\<rparr>"

text \<open>The row proposed for an entry: the element of every \<^verbatim>\<open>UNNEST\<close>ed array.\<close>

definition entry_row :: "lib \<Rightarrow> int64 \<Rightarrow> server_entry \<Rightarrow> entryDB" where
  "entry_row L userID e = \<lparr>
     er_UUID = se_UUID e, er_UserID = userID, er_Type = se_Type e,
     er_EncryptedDek = se_EncryptedDek e, er_Payload = se_Payload e, er_Meta = se_Meta e,
     er_Version = se_Version e, er_IsDeleted = se_IsDeleted e,
     er_UpdatedAt = pg_timestamptz L (se_UpdatedAt e)\<rparr>"

definition entry_key :: "entryDB \<Rightarrow> int64 \<times> uuid" where
  "entry_key r = (er_UserID r, er_UUID r)"

lemma entry_key_entry_row [simp]: "entry_key (entry_row L u e) = (u, se_UUID e)"
  by (simp add: entry_key_def entry_row_def)

lemma toDomain_entry_row: "toDomain (entry_row L u e) = e\<lparr>se_UpdatedAt := pg_timestamptz L (se_UpdatedAt e)\<rparr>"
  by (simp add: toDomain_def entry_row_def)

text \<open>
  What the columns refuse: \<^verbatim>\<open>type\<close> is a text (which holds no NUL byte) of at most 50
  characters, \<^verbatim>\<open>encrypted_dek\<close> and \<^verbatim>\<open>payload\<close> are NOT NULL. Empty bytes of a
  message are a nil slice, which pgx sends as NULL.
\<close>

definition row_violation :: "entryDB \<Rightarrow> string option" where
  "row_violation p =
    (if CHR 0x00 \<in> set (er_Type p) then Some ''invalid byte sequence for encoding UTF8: 0x00''
     else if rune_count (er_Type p) > 50 then Some ''value too long for type character varying(50)''
     else if er_EncryptedDek p = [] then Some ''null value in column encrypted_dek violates not-null constraint''
     else if er_Payload p = [] then Some ''null value in column payload violates not-null constraint''
     else None)"

definition type_fits :: "string \<Rightarrow> bool" where
  "type_fits t \<longleftrightarrow> CHR 0x00 \<notin> set t \<and> rune_count t \<le> 50"

definition storable :: "server_entry \<Rightarrow> bool" where
  "storable e \<longleftrightarrow> type_fits (se_Type e) \<and> se_EncryptedDek e \<noteq> [] \<and> se_Payload e \<noteq> []"

lemma row_violation_entry_row [simp]: "row_violation (entry_row L u e) = None \<longleftrightarrow> storable e"
  by (simp add: row_violation_def storable_def type_fits_def entry_row_def not_less)

definition entries_ok :: "skeeper_db \<Rightarrow> bool" where
  "entries_ok db \<longleftrightarrow> unique_keys entry_key (db_entries db) \<and> (\<forall>r\<in>set (db_entries db). row_violation r = None)"

lemma entries_okD:
  assumes "entries_ok db"
  shows "unique_keys entry_key (db_entries db)" and "r \<in> set (db_entries db) \<Longrightarrow> row_violation r = None"
  using assms by (simp_all add: entries_ok_def)

section \<open>UpsertEntries\<close>

text \<open>
  \<^verbatim>\<open>INSERT ... ON CONFLICT (user_id, uuid) DO UPDATE ... WHERE entries.user_id =
  EXCLUDED.user_id AND entries.version < EXCLUDED.version RETURNING uuid\<close>, one proposed row
  after the other, each checked against its columns first. \<open>touched\<close> are the keys this command has already written: Postgres refuses
  to affect a row a second time in one command.
\<close>

definition version_gate :: "entryDB \<Rightarrow> entryDB \<Rightarrow> bool" where
  "version_gate old excluded \<longleftrightarrow>
    er_UserID old = er_UserID excluded \<and> slt (er_Version old) (er_Version excluded)"

fun upsert_rows ::
  "entryDB list \<Rightarrow> (int64 \<times> uuid) list \<Rightarrow> entryDB list \<Rightarrow> go_error + uuid list \<times> entryDB list" where
  "upsert_rows [] touched rows = Inr ([], rows)"
| "upsert_rows (p # ps) touched rows =
    (case row_violation p of
       Some m \<Rightarrow> Inl (LibErr m)
     | None \<Rightarrow>
         if entry_key p \<in> set touched
         then Inl (LibErr ''ON CONFLICT DO UPDATE command cannot affect row a second time'')
         else if (case find_row entry_key rows (entry_key p) of None \<Rightarrow> True | Some old \<Rightarrow> version_gate old p)
         then (case upsert_rows ps (entry_key p # touched) (put_row entry_key p rows) of
                 Inl e \<Rightarrow> Inl e
               | Inr (applied, rows') \<Rightarrow> Inr (er_UUID p # applied, rows'))
         else upsert_rows ps touched rows)"

definition UpsertEntries :: "lib \<Rightarrow> env \<Rightarrow> int64 \<Rightarrow> server_entry list \<Rightarrow> (skeeper_db, go_error, uuid list) cmd" where
  "UpsertEntries L ev userID entries =
    (if entries = [] then ret []
     else ack_call ev UpsertQuery (\<lambda>db.
       case upsert_rows (map (entry_row L userID) entries) [] (db_entries db) of
         Inl e \<Rightarrow> (Inl e, db)
       | Inr (applied, rows) \<Rightarrow> (Inr applied, db\<lparr>db_entries := rows\<rparr>)))"

section \<open>GetUpdatedAfter\<close>

text \<open>
  Rows of the user after the cursor, oldest first; rows of the same instant come in storage
  order, an order SQL leaves open.
\<close>

definition GetUpdatedAfter :: "lib \<Rightarrow> env \<Rightarrow> int64 \<Rightarrow> gotime \<Rightarrow> (skeeper_db, go_error, server_entry list) cmd" where
  "GetUpdatedAfter L ev userID lastSync =
    bind_m (try_call ev UpdatedQuery) (\<lambda>_.
      gets (\<lambda>db. map toDomain (sort_key er_UpdatedAt
        (filter (\<lambda>r. er_UserID r = userID \<and> pg_timestamptz L lastSync < er_UpdatedAt r) (db_entries db)))))"

section \<open>Vault crypto\<close>

definition vaultKDFSaltBytes :: nat where "vaultKDFSaltBytes = 16"
definition vaultVerifierSize :: nat where "vaultVerifierSize = 32"

text \<open>\<^verbatim>\<open>SELECT kdf_salt, master_verifier FROM vault_crypto WHERE user_id = $1\<close>.\<close>

definition vault_select :: "int64 \<Rightarrow> skeeper_db \<Rightarrow> (bytes \<times> bytes) option" where
  "vault_select userID db = db_vault db userID"

text \<open>
  \<^verbatim>\<open>INSERT ... ON CONFLICT (user_id) DO NOTHING RETURNING ...\<close>: the inserted row, or no
  rows when there was one.
\<close>

definition vault_insert :: "int64 \<Rightarrow> bytes \<Rightarrow> bytes \<Rightarrow> skeeper_db \<Rightarrow> (bytes \<times> bytes) option \<times> skeeper_db" where
  "vault_insert userID salt verifier db =
    (case db_vault db userID of
       Some _ \<Rightarrow> (None, db)
     | None \<Rightarrow> (Some (salt, verifier), db\<lparr>db_vault := (db_vault db)(userID \<mapsto> (salt, verifier))\<rparr>))"

definition Repo_GetVaultCrypto :: "env \<Rightarrow> int64 \<Rightarrow> (skeeper_db, go_error, bytes \<times> bytes) cmd" where
  "Repo_GetVaultCrypto ev userID =
    bind_m (try_call ev VaultSelect) (\<lambda>_.
    bind_m (gets (vault_select userID)) (\<lambda>row.
      case row of None \<Rightarrow> raise (Sentinel Vault_ErrNotFound) | Some sv \<Rightarrow> ret sv))"

text \<open>The comparison both \<^verbatim>\<open>SELECT\<close>s end in.\<close>

definition vault_compare :: "bytes \<times> bytes \<Rightarrow> bytes \<times> bytes \<Rightarrow> go_error + unit" where
  "vault_compare existing given =
    (if fst existing = fst given \<and> snd existing = snd given then Inr () else Inl (Sentinel Vault_ErrConflict))"

definition Repo_PutVaultCrypto :: "env \<Rightarrow> int64 \<Rightarrow> bytes \<Rightarrow> bytes \<Rightarrow> (skeeper_db, go_error, unit) cmd" where
  "Repo_PutVaultCrypto ev userID salt verifier =
    (if length salt \<noteq> vaultKDFSaltBytes \<or> length verifier \<noteq> vaultVerifierSize
     then raise (ErrNew ''invalid vault crypto payload sizes'')
     else
       bind_m (try_call ev VaultSelect) (\<lambda>_.
       bind_m (gets (vault_select userID)) (\<lambda>row.
         case row of
           None \<Rightarrow>
             bind_m (ack_call ev VaultInsert (\<lambda>db. case vault_insert userID salt verifier db of (r, db') \<Rightarrow> (Inr r, db'))) (\<lambda>inserted.
               case inserted of
                 Some _ \<Rightarrow> ret ()
               | None \<Rightarrow>
                   bind_m (try_call ev VaultReselect) (\<lambda>_.
                   bind_m (gets (vault_select userID)) (\<lambda>row2.
                     case row2 of
                       None \<Rightarrow> raise (Sentinel Pgx_ErrNoRows)
                     | Some existing \<Rightarrow> of_result (vault_compare existing (salt, verifier)))))
         | Some existing \<Rightarrow> of_result (vault_compare existing (salt, verifier)))))"

section \<open>The entries table is a version-gated store\<close>

definition entry_rank :: "entryDB \<Rightarrow> int" where
  "entry_rank r = sint (er_Version r)"

definition entry_newer :: "entryDB \<Rightarrow> entryDB \<Rightarrow> bool" where
  "entry_newer old r \<longleftrightarrow> slt (er_Version old) (er_Version r)"

abbreviation look_entry :: "entryDB list \<Rightarrow> int64 \<times> uuid \<Rightarrow> entryDB option" where
  "look_entry \<equiv> find_row entry_key"

abbreviation entry_gate :: "entryDB \<Rightarrow> entryDB list \<Rightarrow> entryDB list" where
  "entry_gate \<equiv> gate entry_key look_entry (put_row entry_key) entry_newer"

interpretation entry_store: versioned_store entry_key "unique_keys entry_key" look_entry
  "put_row entry_key" entry_rank entry_newer
proof unfold_locales
  show "look_entry t k = Some r \<Longrightarrow> entry_key r = k" for t k r
    by (rule find_row_key)
qed (simp_all only: find_row_put_row_fun unique_keys_put_row entry_newer_def entry_rank_def slt_def)

text \<open>
  The WHERE clause compares user ids as well; on a conflict of the primary key they are equal,
  so the statement is the version gate.
\<close>

lemma version_gate_on_conflict:
  "look_entry rows (entry_key p) = Some old \<Longrightarrow> version_gate old p = entry_newer old p"
  by (auto simp: version_gate_def entry_newer_def entry_key_def dest!: find_row_key)

lemma upsert_writes_iff:
  "(case look_entry rows (entry_key p) of None \<Rightarrow> True | Some old \<Rightarrow> version_gate old p)
    = (case look_entry rows (entry_key p) of None \<Rightarrow> True | Some old \<Rightarrow> entry_newer old p)"
  by (simp add: version_gate_on_conflict split: option.split)

lemma entry_gate_unfold:
  "entry_gate p rows =
    (if (case look_entry rows (entry_key p) of None \<Rightarrow> True | Some old \<Rightarrow> version_gate old p)
     then put_row entry_key p rows else rows)"
  by (simp add: gate_def upsert_writes_iff split: option.split)

text \<open>
  A statement that succeeds is the sequence of its version-gated writes, and every row it
  was given is one the columns take; one that is not makes it fail.
\<close>

lemma upsert_rows_is_fold:
  "upsert_rows ps touched rows = Inr (applied, rows') \<Longrightarrow>
    rows' = fold entry_gate ps rows \<and> (\<forall>p\<in>set ps. row_violation p = None)"
proof (induction ps arbitrary: touched rows applied)
  case (Cons p ps)
  then show ?case
    by (auto simp: entry_gate_unfold split: if_splits sum.splits option.splits)
qed simp

lemma upsert_rows_Inl: "upsert_rows ps touched rows = Inl e \<Longrightarrow> \<exists>m. e = LibErr m"
  by (induction ps arbitrary: touched rows) (auto split: if_splits sum.splits option.splits)

lemma upsert_rows_refused:
  assumes "p \<in> set ps" and "row_violation p \<noteq> None"
  shows "\<exists>m. upsert_rows ps touched rows = Inl (LibErr m)"
proof (cases "upsert_rows ps touched rows")
  case (Inl e)
  with upsert_rows_Inl [OF this] show ?thesis by blast
next
  case (Inr r)
  with upsert_rows_is_fold [of ps touched rows "fst r" "snd r"] assms show ?thesis by simp
qed

text \<open>Keys that are all different never hit the same row twice.\<close>

lemma upsert_rows_distinct:
  assumes "distinct (map entry_key ps)" and "set touched \<inter> entry_key ` set ps = {}" and "\<forall>p\<in>set ps. row_violation p = None"
  shows "upsert_rows ps touched rows = Inr
    (map er_UUID (filter (\<lambda>p. case look_entry rows (entry_key p) of
        None \<Rightarrow> True | Some old \<Rightarrow> entry_newer old p) ps),
     fold entry_gate ps rows)"
  using assms
proof (induction ps arbitrary: touched rows)
  case (Cons p ps)
  let ?w = "\<lambda>rows p. case look_entry rows (entry_key p) of None \<Rightarrow> True | Some old \<Rightarrow> entry_newer old p"
  have fresh: "entry_key p \<notin> set touched" "row_violation p = None" using Cons.prems(2,3) by auto
  have flt: "filter (?w (put_row entry_key p rows)) ps = filter (?w rows) ps"
  proof (rule filter_cong [OF refl])
    fix q assume "q \<in> set ps"
    with Cons.prems(1) have "entry_key q \<noteq> entry_key p" by (auto simp: image_iff)
    then show "?w (put_row entry_key p rows) q = ?w rows q" by (simp add: find_row_put_row)
  qed
  have ih1: "upsert_rows ps (entry_key p # touched) (put_row entry_key p rows)
    = Inr (map er_UUID (filter (?w rows) ps), fold entry_gate ps (put_row entry_key p rows))"
    unfolding flt [symmetric] by (rule Cons.IH) (use Cons.prems in auto)
  have ih2: "upsert_rows ps touched rows
    = Inr (map er_UUID (filter (?w rows) ps), fold entry_gate ps rows)"
    by (rule Cons.IH) (use Cons.prems in auto)
  show ?case
    by (simp add: fresh ih1 ih2 upsert_writes_iff entry_gate_unfold [of p rows])
qed simp

lemma distinct_entry_rows:
  "distinct (map entry_key (map (entry_row L u) es)) = distinct (map se_UUID es)"
  by (simp add: o_def distinct_map inj_on_def)

lemma UpsertEntries_InrD:
  "UpsertEntries L ev u es db = (Inr applied, db') \<Longrightarrow>
    db' = db\<lparr>db_entries := fold entry_gate (map (entry_row L u) es) (db_entries db)\<rparr> \<and> (\<forall>e\<in>set es. storable e)"
  by (auto simp: UpsertEntries_def ret_def dest!: ack_call_InrD upsert_rows_is_fold
      split: if_splits sum.splits prod.splits)

lemma UpsertEntries_distinct:
  assumes "no_faults ev" and "distinct (map se_UUID es)" and "\<forall>e\<in>set es. storable e"
  shows "UpsertEntries L ev u es db =
    (Inr (map se_UUID (filter (\<lambda>e. case look_entry (db_entries db) (u, se_UUID e) of
        None \<Rightarrow> True | Some old \<Rightarrow> slt (er_Version old) (se_Version e)) es)),
     db\<lparr>db_entries := fold entry_gate (map (entry_row L u) es) (db_entries db)\<rparr>)"
proof -
  let ?w = "\<lambda>p. case look_entry (db_entries db) (entry_key p) of None \<Rightarrow> True | Some old \<Rightarrow> entry_newer old p"
  have row: "er_UUID (entry_row L u e) = se_UUID e" "er_Version (entry_row L u e) = se_Version e" for e
    by (simp_all add: entry_row_def)
  have "upsert_rows (map (entry_row L u) es) [] (db_entries db)
    = Inr (map er_UUID (filter ?w (map (entry_row L u) es)),
       fold entry_gate (map (entry_row L u) es) (db_entries db))"
    by (rule upsert_rows_distinct) (use assms(2,3) in \<open>simp_all only: distinct_entry_rows, simp_all\<close>)
  then show ?thesis
    by (simp add: UpsertEntries_def ret_def assms(1) filter_map o_def row entry_newer_def cong: option.case_cong)
qed

text \<open>What a successful push leaves on each key: the specification of last-write-wins.\<close>

definition lww :: "entryDB option \<Rightarrow> entryDB option \<Rightarrow> entryDB option" where
  "lww stored proposed = (case proposed of None \<Rightarrow> stored | Some p \<Rightarrow>
     (case stored of None \<Rightarrow> Some p | Some s \<Rightarrow> if entry_newer s p then Some p else Some s))"

lemma look_fold_gate_distinct:
  assumes "unique_keys entry_key rows" and "distinct (map entry_key ps)"
  shows "look_entry (fold entry_gate ps rows) k = lww (look_entry rows k) (look_entry ps k)"
  using assms
proof (induction ps arbitrary: rows)
  case (Cons p ps)
  have uk: "unique_keys entry_key (entry_gate p rows)"
    by (rule entry_store.wf_gate [OF Cons.prems(1)])
  have none: "look_entry ps (entry_key p) = None"
    using Cons.prems(2) by (simp add: find_row_None_iff)
  have "look_entry (entry_gate p rows) k
    = (if k = entry_key p then lww (look_entry rows k) (Some p) else look_entry rows k)"
    by (simp add: entry_store.look_gate [OF Cons.prems(1)] lww_def entry_newer_def entry_rank_def
        slt_def split: option.split)
  moreover have "look_entry (fold entry_gate ps (entry_gate p rows)) k
    = lww (look_entry (entry_gate p rows) k) (look_entry ps k)"
    by (rule Cons.IH [OF uk]) (use Cons.prems in simp)
  ultimately show ?case using none by (auto simp: lww_def)
qed (simp add: lww_def)

lemma entry_newer_trans: "entry_newer a b \<Longrightarrow> entry_newer b c \<Longrightarrow> entry_newer a c"
  unfolding entry_newer_def by (rule slt_trans)

lemma fold_gate_progress:
  assumes "unique_keys entry_key rows" and "look_entry rows k = Some old"
  shows "\<exists>new. look_entry (fold entry_gate ps rows) k = Some new \<and>
    (new = old \<or> entry_newer old new \<and> new \<in> set ps)"
  using assms
proof (induction ps arbitrary: rows old)
  case (Cons p ps)
  have "\<exists>mid. look_entry (entry_gate p rows) k = Some mid \<and> (mid = old \<or> entry_newer old mid \<and> mid = p)"
    using Cons.prems(2)
    by (cases "k = entry_key p \<and> entry_rank old < entry_rank p")
      (auto simp: entry_store.look_gate [OF Cons.prems(1)] entry_newer_def entry_rank_def slt_def)
  then obtain mid where mid: "look_entry (entry_gate p rows) k = Some mid"
    and step: "mid = old \<or> entry_newer old mid \<and> mid = p"
    by (elim exE conjE)
  obtain new where "look_entry (fold entry_gate ps (entry_gate p rows)) k = Some new"
    and "new = mid \<or> entry_newer mid new \<and> new \<in> set ps"
    using Cons.IH [OF entry_store.wf_gate [OF Cons.prems(1)] mid] by (elim exE conjE)
  with step show ?case by (auto intro: entry_newer_trans)
qed simp

text \<open>A push with an entry the columns do not take is refused as a whole.\<close>

lemma UpsertEntries_refused:
  assumes "e \<in> set es" and "\<not> storable e"
  shows "\<exists>m. UpsertEntries L ev u es db = (Inl (LibErr m), db)"
proof -
  have "\<exists>m. upsert_rows (map (entry_row L u) es) [] (db_entries db) = Inl (LibErr m)"
    by (rule upsert_rows_refused [of "entry_row L u e"]) (use assms in simp_all)
  moreover have "es \<noteq> []" using assms(1) by auto
  ultimately show ?thesis
    by (auto simp: UpsertEntries_def ack_call_def bind_m_def try_call_def ret_def raise_def split: option.split)
qed

text \<open>Whatever the calls of the push answered, it ran completely or not at all.\<close>

lemma UpsertEntries_state:
  assumes "UpsertEntries L ev u es db = (r, db')"
  shows "db' = db \<or> (\<forall>e\<in>set es. storable e) \<and>
    db' = db\<lparr>db_entries := fold entry_gate (map (entry_row L u) es) (db_entries db)\<rparr>"
  using assms
  by (auto simp: UpsertEntries_def ret_def raise_def ack_call_def bind_m_def try_call_def
      dest!: upsert_rows_is_fold split: if_splits sum.splits prod.splits option.splits)

lemma set_entry_gate: "set (entry_gate p rows) \<subseteq> insert p (set rows)"
  using set_put_row_subset [of entry_key p rows] by (auto simp: entry_gate_unfold)

lemma set_fold_gate: "set (fold entry_gate ps rows) \<subseteq> set ps \<union> set rows"
proof (induction ps arbitrary: rows)
  case (Cons p ps)
  from Cons.IH [of "entry_gate p rows"] set_entry_gate [of p rows] show ?case by auto
qed simp

lemma entries_ok_fold_gate:
  assumes "entries_ok db" and "\<forall>e\<in>set es. storable e"
  shows "entries_ok (db\<lparr>db_entries := fold entry_gate (map (entry_row L u) es) (db_entries db)\<rparr>)"
  using set_fold_gate [of "map (entry_row L u) es" "db_entries db"] assms
  by (auto simp: entries_ok_def entry_store.wf_fold_gate)

lemma preserves_UpsertEntries [cmd_frame]: "preserves entries_ok (UpsertEntries L ev u es)"
  unfolding preserves_def
proof (intro allI impI)
  fix db assume ok: "entries_ok db"
  obtain r db' where eq: "UpsertEntries L ev u es db = (r, db')" by (cases "UpsertEntries L ev u es db")
  from UpsertEntries_state [OF eq] entries_ok_fold_gate [OF ok] ok show "entries_ok (snd (UpsertEntries L ev u es db))"
    by (auto simp: eq)
qed

lemma keeps_vault_UpsertEntries [cmd_frame]: "keeps db_vault (UpsertEntries L ev u es)"
  unfolding keeps_def
proof
  fix db
  obtain r db' where "UpsertEntries L ev u es db = (r, db')" by (cases "UpsertEntries L ev u es db")
  with UpsertEntries_state [OF this] show "db_vault (snd (UpsertEntries L ev u es db)) = db_vault db"
    by auto
qed

lemma keeps_GetUpdatedAfter [cmd_frame]: "keeps f (GetUpdatedAfter L ev u t)"
  by (simp add: GetUpdatedAfter_def keeps_bind)

section \<open>What the entries table promises\<close>

text \<open>
  C1: Last write wins. A push of entries with different uuids succeeds if the columns take every
  one of them; then every key holds the proposed row if the key was free or the stored version
  was lower, and the stored row otherwise. The answer lists exactly the uuids that were stored,
  the constraints of the table still hold, and the vault parameters are untouched. If a column
  refuses one of them, the whole push is an error and nothing is stored.
\<close>

theorem upsert_last_write_wins:
  assumes "no_faults ev" and "entries_ok db" and "distinct (map se_UUID es)"
  shows "if \<forall>e\<in>set es. storable e
    then \<exists>applied db'. UpsertEntries L ev u es db = (Inr applied, db') \<and>
      entries_ok db' \<and> db_vault db' = db_vault db \<and>
      (\<forall>k. look_entry (db_entries db') k
        = lww (look_entry (db_entries db) k) (look_entry (map (entry_row L u) es) k)) \<and>
      applied = map se_UUID (filter (\<lambda>e. case look_entry (db_entries db) (u, se_UUID e) of
        None \<Rightarrow> True | Some old \<Rightarrow> slt (er_Version old) (se_Version e)) es)
    else \<exists>m. UpsertEntries L ev u es db = (Inl (LibErr m), db)"
proof (cases "\<forall>e\<in>set es. storable e")
  case True
  have "distinct (map entry_key (map (entry_row L u) es))"
    using assms(3) by (simp only: distinct_entry_rows)
  from look_fold_gate_distinct [OF entries_okD(1) [OF assms(2)] this]
  have "look_entry (fold entry_gate (map (entry_row L u) es) (db_entries db)) k
    = lww (look_entry (db_entries db) k) (look_entry (map (entry_row L u) es) k)" for k .
  with True entries_ok_fold_gate [OF assms(2) True] show ?thesis
    by (simp add: UpsertEntries_distinct [OF assms(1,3)])
next
  case False
  then show ?thesis using UpsertEntries_refused [of _ es L ev u db] by auto
qed

text \<open>
  A push never loses data, whatever fails during it. A stored row is still there
  afterwards: unchanged, or replaced by a pushed row of the same user with a strictly higher
  version. Rows of other users never change.
\<close>

theorem upsert_never_loses:
  assumes "entries_ok db" and "UpsertEntries L ev u es db = (r, db')"
    and "look_entry (db_entries db) k = Some old"
  shows "\<exists>new. look_entry (db_entries db') k = Some new \<and>
    (new = old \<or> fst k = u \<and> sint (er_Version old) < sint (er_Version new) \<and>
      new \<in> entry_row L u ` set es)"
proof -
  from fold_gate_progress [OF entries_okD(1) [OF assms(1)] assms(3), of "map (entry_row L u) es"]
  obtain new where new: "look_entry (fold entry_gate (map (entry_row L u) es) (db_entries db)) k = Some new"
    and how: "new = old \<or> entry_newer old new \<and> new \<in> set (map (entry_row L u) es)"
    by (elim exE conjE)
  have "new = old \<or> fst k = u \<and> sint (er_Version old) < sint (er_Version new) \<and>
      new \<in> entry_row L u ` set es"
    using how find_row_key [OF new] by (auto simp: entry_newer_def slt_def)
  with UpsertEntries_state [OF assms(2)] assms(3) new show ?thesis by auto
qed

text \<open>The pushes of several devices, one after the other.\<close>

definition run_pushes :: "lib \<Rightarrow> env \<Rightarrow> (int64 \<times> server_entry list) list \<Rightarrow> skeeper_db \<Rightarrow> skeeper_db" where
  "run_pushes L ev pushes db = fold (\<lambda>(u, es) db. snd (UpsertEntries L ev u es db)) pushes db"

definition pushed_rows :: "lib \<Rightarrow> (int64 \<times> server_entry list) list \<Rightarrow> entryDB list" where
  "pushed_rows L pushes = concat (map (\<lambda>(u, es). map (entry_row L u) es) pushes)"

lemma run_pushes_is_fold:
  assumes "no_faults ev" and "\<forall>p\<in>set pushes. distinct (map se_UUID (snd p)) \<and> (\<forall>e\<in>set (snd p). storable e)"
  shows "db_entries (run_pushes L ev pushes db) = fold entry_gate (pushed_rows L pushes) (db_entries db)"
  using assms(2)
proof (induction pushes arbitrary: db)
  case (Cons p pushes)
  obtain u es where p: "p = (u, es)" by (cases p)
  have "db_entries (snd (UpsertEntries L ev u es db)) = fold entry_gate (map (entry_row L u) es) (db_entries db)"
    using Cons.prems p by (simp add: UpsertEntries_distinct [OF assms(1)])
  with Cons.IH [of "snd (UpsertEntries L ev u es db)"] Cons.prems p show ?case
    by (simp add: run_pushes_def pushed_rows_def)
qed (simp add: run_pushes_def pushed_rows_def)

lemma mset_pushed_rows: "mset ps = mset qs \<Longrightarrow> mset (pushed_rows L ps) = mset (pushed_rows L qs)"
  by (simp add: pushed_rows_def mset_concat flip: sum_mset_sum_list)

text \<open>
  C3: The server's table does not depend on the order in which devices pushed. Pushes that
  agree whenever they propose the same version of the same entry can be permuted freely: every
  key ends with the same row.
\<close>

theorem pushes_commute:
  assumes "no_faults ev" and "entries_ok db"
    and "\<forall>p\<in>set pushes. distinct (map se_UUID (snd p)) \<and> (\<forall>e\<in>set (snd p). storable e)"
    and "\<forall>r\<in>set (pushed_rows L pushes). \<forall>s\<in>set (pushed_rows L pushes).
      entry_key r = entry_key s \<longrightarrow> er_Version r = er_Version s \<longrightarrow> r = s"
    and "mset pushes' = mset pushes"
  shows "look_entry (db_entries (run_pushes L ev pushes' db)) = look_entry (db_entries (run_pushes L ev pushes db))"
proof -
  have coh: "entry_store.coherent (set (pushed_rows L pushes))"
    unfolding entry_store.coherent_def
  proof (intro ballI impI)
    fix r s assume r: "r \<in> set (pushed_rows L pushes)" and s: "s \<in> set (pushed_rows L pushes)"
      and key: "entry_key r = entry_key s" and "entry_rank r = entry_rank s"
    then have "er_Version r = er_Version s" by (simp only: entry_rank_def signed_word_eqI)
    with assms(4) [rule_format, OF r s key] show "r = s" by simp
  qed
  have ok: "\<forall>p\<in>set pushes'. distinct (map se_UUID (snd p)) \<and> (\<forall>e\<in>set (snd p). storable e)"
    using assms(3,5) by (metis set_mset_mset)
  have "mset (pushed_rows L pushes) = mset (pushed_rows L pushes')"
    by (rule mset_pushed_rows) (simp add: assms(5))
  from entry_store.fold_gate_perm [OF this _ coh] assms(2)
  show ?thesis
    by (simp add: run_pushes_is_fold assms(1,3) ok entries_ok_def)
qed

text \<open>
  A pull returns exactly the user's rows that were updated after the cursor, oldest first,
  and changes nothing.
\<close>

theorem pull_exact:
  assumes "no_faults ev"
  shows "\<exists>out. GetUpdatedAfter L ev u t db = (Inr out, db) \<and> sorted (map se_UpdatedAt out) \<and>
    mset out = image_mset toDomain
      (filter_mset (\<lambda>r. er_UserID r = u \<and> pg_timestamptz L t < er_UpdatedAt r) (mset (db_entries db)))"
proof -
  have eq: "se_UpdatedAt \<circ> toDomain = er_UpdatedAt" by (rule ext) (simp add: toDomain_def)
  show ?thesis by (simp add: GetUpdatedAfter_def assms gets_apply eq)
qed

section \<open>Vault parameters are fixed once\<close>

interpretation server_vault: write_once "vault_select u" "\<lambda>(s, v) db. snd (vault_insert u s v db)"
  by unfold_locales (auto simp: vault_select_def vault_insert_def split: option.split)

lemma vault_select_insert:
  "vault_select u (snd (vault_insert u s v db)) = Some (case vault_select u db of None \<Rightarrow> (s, v) | Some w \<Rightarrow> w)"
  using server_vault.held_offer [of u "(s, v)" db] by simp

lemma vault_insert_other: "u' \<noteq> u \<Longrightarrow> vault_select u' (snd (vault_insert u s v db)) = vault_select u' db"
  by (auto simp: vault_select_def vault_insert_def split: option.split)

lemma vault_insert_entries: "db_entries (snd (vault_insert u s v db)) = db_entries db"
  by (simp add: vault_insert_def split: option.split)

lemma vault_compare_Inr_iff: "vault_compare e g = Inr () \<longleftrightarrow> e = g"
  by (cases e, cases g) (simp add: vault_compare_def)

lemma vault_compare_eq: "vault_compare e g = (if e = g then Inr () else Inl (Sentinel Vault_ErrConflict))"
  by (cases e, cases g) (auto simp: vault_compare_def)

lemma Repo_PutVaultCrypto_state:
  assumes "Repo_PutVaultCrypto ev u s v db = (r, db')"
  shows "db' = db \<or> db' = snd (vault_insert u s v db)"
  using assms
  by (auto simp: Repo_PutVaultCrypto_def cmd_defs ack_call_def try_call_def
      split: if_splits option.splits sum.splits prod.splits)

lemma preserves_PutVaultCrypto [cmd_frame]: "preserves entries_ok (Repo_PutVaultCrypto ev u s v)"
  unfolding preserves_def
  by (metis Repo_PutVaultCrypto_state entries_ok_def surjective_pairing vault_insert_entries)

text \<open>
  The repository's answer to a write of vault parameters, on every branch: wrong sizes are
  refused, a free cell takes the parameters, equal parameters are accepted without a write, and
  any others are a conflict.
\<close>

theorem vault_put_answers:
  assumes "no_faults ev"
  shows "Repo_PutVaultCrypto ev u s v db =
    (if length s \<noteq> 16 \<or> length v \<noteq> 32 then (Inl (ErrNew ''invalid vault crypto payload sizes''), db)
     else case db_vault db u of
        None \<Rightarrow> (Inr (), db\<lparr>db_vault := (db_vault db)(u \<mapsto> (s, v))\<rparr>)
      | Some sv \<Rightarrow> (if sv = (s, v) then Inr () else Inl (Sentinel Vault_ErrConflict), db))"
  using assms
  by (simp add: Repo_PutVaultCrypto_def vaultKDFSaltBytes_def vaultVerifierSize_def vault_select_def
      vault_insert_def vault_compare_eq cmd_defs split: option.split)

section \<open>Concrete runs\<close>

definition sample_entry :: "uuid \<Rightarrow> int64 \<Rightarrow> server_entry" where
  "sample_entry i v = \<lparr>se_UUID = i, se_Type = ''TEXT'', se_EncryptedDek = ''d'', se_Payload = ''p'',
     se_Meta = ''m'', se_Version = v, se_IsDeleted = False, se_UpdatedAt = Unix_Ns 5000\<rparr>"

definition sample_db :: skeeper_db where
  "sample_db = \<lparr>db_entries = [entry_row toy 1 (sample_entry 5 2)], db_vault = Map.empty\<rparr>"

lemma sample_storable: "storable (sample_entry i v)"
  by (simp add: storable_def type_fits_def sample_entry_def rune_count.simps rune_len_def byte_in_def)

lemma sample_db_ok: "entries_ok sample_db"
  by (simp add: entries_ok_def sample_db_def sample_storable)

theorem upsert_last_write_wins_witness:
  "\<exists>db'. UpsertEntries toy (calm zero_time) 1 [sample_entry 5 1, sample_entry 6 1] sample_db = (Inr [6], db') \<and>
    look_entry (db_entries db') (1, 5) = Some (entry_row toy 1 (sample_entry 5 2)) \<and>
    look_entry (db_entries db') (1, 6) = Some (entry_row toy 1 (sample_entry 6 1))"
  using upsert_last_write_wins [OF calm_no_faults [of zero_time] sample_db_ok,
      where es = "[sample_entry 5 1, sample_entry 6 1]" and L = toy and u = 1]
  by (simp add: sample_storable)
    (auto simp: sample_db_def sample_entry_def entry_key_def entry_row_def slt_def lww_def entry_newer_def)

theorem upsert_never_loses_witness:
  "\<exists>r db' new. UpsertEntries toy (calm zero_time) 1 [sample_entry 5 3] sample_db = (r, db') \<and>
    look_entry (db_entries db') (1, 5) = Some new \<and> 2 \<le> sint (er_Version new)"
proof -
  obtain r db' where run: "UpsertEntries toy (calm zero_time) 1 [sample_entry 5 3] sample_db = (r, db')"
    by (cases "UpsertEntries toy (calm zero_time) 1 [sample_entry 5 3] sample_db")
  have "look_entry (db_entries sample_db) (1, 5) = Some (entry_row toy 1 (sample_entry 5 2))"
    by (simp add: sample_db_def sample_entry_def entry_key_def entry_row_def)
  from upsert_never_loses [OF sample_db_ok run this] run show ?thesis
    by (auto simp: entry_row_def sample_entry_def)
qed

theorem pushes_commute_witness:
  "look_entry (db_entries (run_pushes toy (calm zero_time) [(1, [sample_entry 5 4]), (1, [sample_entry 5 3])] sample_db))
    = look_entry (db_entries (run_pushes toy (calm zero_time) [(1, [sample_entry 5 3]), (1, [sample_entry 5 4])] sample_db))"
  by (rule pushes_commute [OF calm_no_faults [of zero_time] sample_db_ok])
    (simp_all add: sample_storable, simp_all add: pushed_rows_def sample_entry_def entry_key_def entry_row_def add_mset_commute)

theorem pull_exact_witness:
  "\<exists>out. GetUpdatedAfter toy (calm zero_time) 1 (Unix_Ns 0) sample_db = (Inr out, sample_db) \<and>
    mset out = {#sample_entry 5 2#}"
  using pull_exact [OF calm_no_faults [of zero_time], where L = toy and u = 1 and t = "Unix_Ns 0" and db = sample_db]
  by (auto simp: sample_db_def sample_entry_def entry_row_def toDomain_def toy_def less_gotime_def)

theorem vault_put_answers_witness:
  "Repo_PutVaultCrypto (calm zero_time) 1 (replicate 16 CHR ''s'') (replicate 32 CHR ''v'') sample_db
    = (Inr (), sample_db\<lparr>db_vault := [1 \<mapsto> (replicate 16 CHR ''s'', replicate 32 CHR ''v'')]\<rparr>)"
  using vault_put_answers [OF calm_no_faults [of zero_time], where u = 1 and s = "replicate 16 CHR ''s''"
      and v = "replicate 32 CHR ''v''" and db = sample_db]
  by (simp add: sample_db_def)

end
