(* ===== verification/Vault_Race.thy ===== *)
theory Vault_Race
  imports Skeeper_Store
begin

text \<open>
  Devices of one user that set the vault parameters at the same time. Each call of
  \<^verbatim>\<open>PutVaultCrypto\<close> runs up to three SQL statements outside a transaction; the
  statements of different calls interleave. A step is one statement of one call, its failure,
  or the loss of the insert's answer.
\<close>

section \<open>One call, statement by statement\<close>

datatype put_pc = Start | AtInsert | AtReselect | Done "go_error + unit"

fun put_step :: "int64 \<Rightarrow> bytes \<times> bytes \<Rightarrow> put_pc \<Rightarrow> skeeper_db \<Rightarrow> put_pc \<times> skeeper_db" where
  "put_step u given Start db =
    (case vault_select u db of
       None \<Rightarrow> (AtInsert, db)
     | Some existing \<Rightarrow> (Done (vault_compare existing given), db))"
| "put_step u given AtInsert db =
    (case vault_insert u (fst given) (snd given) db of
       (Some _, db') \<Rightarrow> (Done (Inr ()), db')
     | (None, db') \<Rightarrow> (AtReselect, db'))"
| "put_step u given AtReselect db =
    (case vault_select u db of
       None \<Rightarrow> (Done (Inl (Sentinel Pgx_ErrNoRows)), db)
     | Some existing \<Rightarrow> (Done (vault_compare existing given), db))"
| "put_step u given (Done r) db = (Done r, db)"

fun put_run :: "nat \<Rightarrow> int64 \<Rightarrow> bytes \<times> bytes \<Rightarrow> put_pc \<Rightarrow> skeeper_db \<Rightarrow> put_pc \<times> skeeper_db" where
  "put_run 0 u given pc db = (pc, db)"
| "put_run (Suc n) u given pc db = (case put_step u given pc db of (pc', db') \<Rightarrow> put_run n u given pc' db')"

text \<open>Run without interruption, the statements are the repository's operation.\<close>

lemma put_run_is_PutVaultCrypto:
  assumes "no_faults ev" and "length s = 16" and "length v = 32"
  shows "(case put_run 3 u (s, v) Start db of (pc, db') \<Rightarrow> (case pc of Done r \<Rightarrow> Some (r, db') | _ \<Rightarrow> None))
    = Some (Repo_PutVaultCrypto ev u s v db)"
  using assms
  by (simp add: numeral_eq_Suc Repo_PutVaultCrypto_def vaultKDFSaltBytes_def vaultVerifierSize_def
      vault_select_def vault_insert_def cmd_defs split: option.split)

section \<open>Interleaving\<close>

record race =
  rc_db :: skeeper_db
  rc_pc :: "nat \<Rightarrow> put_pc"

text \<open>\<open>arg i\<close> are the parameters call \<open>i\<close> offers.\<close>

inductive race_step :: "int64 \<Rightarrow> (nat \<Rightarrow> bytes \<times> bytes) \<Rightarrow> race \<Rightarrow> race \<Rightarrow> bool"
  for u :: int64 and arg :: "nat \<Rightarrow> bytes \<times> bytes" where
  statement: "\<forall>r. rc_pc s i \<noteq> Done r \<Longrightarrow> put_step u (arg i) (rc_pc s i) (rc_db s) = (pc', db') \<Longrightarrow>
    race_step u arg s (s\<lparr>rc_db := db', rc_pc := (rc_pc s)(i := pc')\<rparr>)"
| failure: "\<forall>r. rc_pc s i \<noteq> Done r \<Longrightarrow>
    race_step u arg s (s\<lparr>rc_pc := (rc_pc s)(i := Done (Inl (LibErr m)))\<rparr>)"
| lost: "rc_pc s i = AtInsert \<Longrightarrow> put_step u (arg i) AtInsert (rc_db s) = (pc', db') \<Longrightarrow>
    race_step u arg s (s\<lparr>rc_db := db', rc_pc := (rc_pc s)(i := Done (Inl (LibErr m)))\<rparr>)"

text \<open>States reached from calls that have not begun; \<open>db0\<close> is the database they found.\<close>

inductive race_reach :: "int64 \<Rightarrow> (nat \<Rightarrow> bytes \<times> bytes) \<Rightarrow> skeeper_db \<Rightarrow> race \<Rightarrow> bool"
  for u :: int64 and arg :: "nat \<Rightarrow> bytes \<times> bytes" and db0 :: skeeper_db where
  init: "(\<forall>i. rc_pc s i = Start) \<Longrightarrow> rc_db s = db0 \<Longrightarrow> race_reach u arg db0 s"
| step: "race_reach u arg db0 s \<Longrightarrow> race_step u arg s t \<Longrightarrow> race_reach u arg db0 t"

inductive_cases race_stepE: "race_step u arg s t"

section \<open>The invariant\<close>

text \<open>What a call's position says about the stored parameters \<open>cell\<close>.\<close>

fun pc_ok :: "bytes \<times> bytes \<Rightarrow> (bytes \<times> bytes) option \<Rightarrow> put_pc \<Rightarrow> bool" where
  "pc_ok given cell Start = True"
| "pc_ok given cell AtInsert = True"
| "pc_ok given cell AtReselect = (cell \<noteq> None)"
| "pc_ok given cell (Done (Inr _)) = (cell = Some given)"
| "pc_ok given cell (Done (Inl e)) =
    ((\<exists>m. e = LibErr m) \<or> e = Sentinel Vault_ErrConflict \<and> (\<exists>w. cell = Some w \<and> w \<noteq> given))"

lemma pc_ok_grow:
  assumes "pc_ok given cell pc" and "cell' = Some (case cell of None \<Rightarrow> w | Some x \<Rightarrow> x)"
  shows "pc_ok given cell' pc"
  using assms by (cases "(given, cell, pc)" rule: pc_ok.cases) auto

definition race_inv :: "int64 \<Rightarrow> (nat \<Rightarrow> bytes \<times> bytes) \<Rightarrow> skeeper_db \<Rightarrow> race \<Rightarrow> bool" where
  "race_inv u arg db0 s \<longleftrightarrow>
    (\<forall>i. pc_ok (arg i) (vault_select u (rc_db s)) (rc_pc s i)) \<and>
    (\<forall>w. vault_select u db0 = Some w \<longrightarrow> vault_select u (rc_db s) = Some w) \<and>
    (\<forall>w. vault_select u (rc_db s) = Some w \<longrightarrow> vault_select u db0 = Some w \<or> (\<exists>i. w = arg i))"

text \<open>A statement keeps the cell, or fills it if it was empty.\<close>

lemma put_step_cell:
  assumes "put_step u given pc db = (pc', db')"
  shows "db' = db \<or> pc = AtInsert \<and> db' = snd (vault_insert u (fst given) (snd given) db)"
  using assms by (cases pc) (auto split: option.splits prod.splits)

lemma put_step_pc_ok:
  assumes "put_step u given pc db = (pc', db')" and "pc_ok given (vault_select u db) pc"
  shows "pc_ok given (vault_select u db') pc'"
  using assms
  by (cases pc) (auto simp: vault_compare_eq vault_insert_def vault_select_def split: option.splits if_splits)

lemma race_inv_write:
  assumes "race_inv u arg db0 s"
    and "db' = rc_db s \<or> db' = snd (vault_insert u (fst (arg i)) (snd (arg i)) (rc_db s))"
    and "pc_ok (arg i) (vault_select u db') pc'"
  shows "race_inv u arg db0 (s\<lparr>rc_db := db', rc_pc := (rc_pc s)(i := pc')\<rparr>)"
  using assms(2)
proof
  assume "db' = rc_db s"
  with assms(1,3) show ?thesis by (simp add: race_inv_def)
next
  assume "db' = snd (vault_insert u (fst (arg i)) (snd (arg i)) (rc_db s))"
  then have cell: "vault_select u db' = Some (case vault_select u (rc_db s) of None \<Rightarrow> arg i | Some w \<Rightarrow> w)"
    by (simp add: vault_select_insert split: option.split)
  have "pc_ok (arg j) (vault_select u db') (rc_pc s j)" for j
    by (rule pc_ok_grow [OF _ cell]) (use assms(1) in \<open>simp add: race_inv_def\<close>)
  with assms(1,3) cell show ?thesis
    unfolding race_inv_def by (auto split: option.splits)
qed

lemma race_inv_step:
  assumes "race_step u arg s t" and "race_inv u arg db0 s"
  shows "race_inv u arg db0 t"
  using assms(1)
proof (cases rule: race_step.cases)
  case (statement i pc' db')
  have "pc_ok (arg i) (vault_select u (rc_db s)) (rc_pc s i)" using assms(2) by (simp add: race_inv_def)
  from race_inv_write [OF assms(2) _ put_step_pc_ok [OF statement(3) this]] put_step_cell [OF statement(3)]
  show ?thesis unfolding statement(1) by blast
next
  case (failure i m)
  from race_inv_write [OF assms(2), of "rc_db s" i "Done (Inl (LibErr m))"]
  show ?thesis unfolding failure(1) by simp
next
  case (lost i pc' db' m)
  from race_inv_write [OF assms(2), of db' i "Done (Inl (LibErr m))"] put_step_cell [OF lost(3)]
  show ?thesis unfolding lost(1) by auto
qed

lemma race_reach_inv: "race_reach u arg db0 s \<Longrightarrow> race_inv u arg db0 s"
proof (induction rule: race_reach.induct)
  case (init s)
  then show ?case by (simp add: race_inv_def)
next
  case (step s t)
  then show ?case by (blast intro: race_inv_step)
qed

section \<open>What racing calls are promised\<close>

text \<open>
  C6: Racing calls agree. However the statements of concurrent calls interleave and fail, the
  calls that were answered with success all offered the parameters that are stored, a call that
  was answered with a conflict offered others, no call ends in a missing row, and parameters
  that were there before are still there.
\<close>

theorem racing_puts_agree:
  assumes "race_reach u arg db0 s"
  shows "(\<forall>i. rc_pc s i = Done (Inr ()) \<longrightarrow> vault_select u (rc_db s) = Some (arg i)) \<and>
    (\<forall>i. rc_pc s i = Done (Inl (Sentinel Vault_ErrConflict)) \<longrightarrow>
      (\<exists>w. vault_select u (rc_db s) = Some w \<and> w \<noteq> arg i)) \<and>
    (\<forall>i. rc_pc s i \<noteq> Done (Inl (Sentinel Pgx_ErrNoRows))) \<and>
    (\<forall>w. vault_select u db0 = Some w \<longrightarrow> vault_select u (rc_db s) = Some w)"
proof -
  note inv = race_reach_inv [OF assms, unfolded race_inv_def]
  have ok: "pc_ok (arg i) (vault_select u (rc_db s)) (rc_pc s i)" for i
    using inv by (rule conjunct1 [THEN spec])
  have "rc_pc s i = Done (Inr ()) \<longrightarrow> vault_select u (rc_db s) = Some (arg i)"
    and "rc_pc s i = Done (Inl (Sentinel Vault_ErrConflict)) \<longrightarrow> (\<exists>w. vault_select u (rc_db s) = Some w \<and> w \<noteq> arg i)"
    and "rc_pc s i \<noteq> Done (Inl (Sentinel Pgx_ErrNoRows))" for i
    using ok [of i] by auto
  moreover have "vault_select u db0 = Some w \<longrightarrow> vault_select u (rc_db s) = Some w" for w
    using inv by (elim conjE) (erule spec)
  ultimately show ?thesis by (intro conjI allI)
qed

text \<open>How many statements a call can still run.\<close>

fun steps_left :: "put_pc \<Rightarrow> nat" where
  "steps_left Start = 3"
| "steps_left AtInsert = 2"
| "steps_left AtReselect = 1"
| "steps_left (Done _) = 0"

lemma put_step_decreases:
  "put_step u given pc db = (pc', db') \<Longrightarrow> \<forall>r. pc \<noteq> Done r \<Longrightarrow> steps_left pc' < steps_left pc"
  by (cases pc) (auto split: option.splits prod.splits)

lemma steps_left_pos: "\<forall>r. pc \<noteq> Done r \<Longrightarrow> 0 < steps_left pc"
  by (cases pc) auto

lemma race_step_decreases:
  assumes "race_step u arg s t"
  shows "\<exists>i pc'. rc_pc t = (rc_pc s)(i := pc') \<and> steps_left pc' < steps_left (rc_pc s i)"
  using assms
proof (cases rule: race_step.cases)
  case (statement i pc' db')
  with put_step_decreases [OF statement(3,2)] show ?thesis by (intro exI [of _ i] exI [of _ pc']) simp
next
  case (failure i m)
  with steps_left_pos [OF failure(2)] show ?thesis
    by (intro exI [of _ i] exI [of _ "Done (Inl (LibErr m))"]) simp
next
  case (lost i pc' db' m)
  then show ?thesis by (intro exI [of _ i] exI [of _ "Done (Inl (LibErr m))"]) simp
qed

definition total_left :: "nat \<Rightarrow> race \<Rightarrow> nat" where
  "total_left n s = (\<Sum>i<n. steps_left (rc_pc s i))"

lemma race_step_total:
  assumes "race_step u arg s t" and "\<forall>i\<ge>n. \<exists>r. rc_pc s i = Done r"
  shows "total_left n t < total_left n s \<and> (\<forall>i\<ge>n. \<exists>r. rc_pc t i = Done r)"
proof -
  obtain i pc' where t: "rc_pc t = (rc_pc s)(i := pc')" and less: "steps_left pc' < steps_left (rc_pc s i)"
    using race_step_decreases [OF assms(1)] by blast
  have "i < n"
  proof (rule ccontr)
    assume "\<not> i < n"
    then have "n \<le> i" by simp
    then obtain r where "rc_pc s i = Done r" using assms(2) by (elim allE impE exE)
    with less show False by simp
  qed
  have "total_left n t < total_left n s"
    unfolding total_left_def by (rule sum_strict_mono_ex1) (use t less \<open>i < n\<close> in auto)
  with t \<open>i < n\<close> assms(2) show ?thesis by simp
qed

lemma race_steps_total:
  assumes "(race_step u arg ^^ m) s t" and "\<forall>i\<ge>n. \<exists>r. rc_pc s i = Done r"
  shows "m + total_left n t \<le> total_left n s \<and> (\<forall>i\<ge>n. \<exists>r. rc_pc t i = Done r)"
  using assms
proof (induction m arbitrary: t)
  case (Suc m)
  then obtain x where x: "(race_step u arg ^^ m) s x" and step: "race_step u arg x t"
    by (auto elim: relcomppE)
  from Suc.IH [OF x Suc.prems(2)] race_step_total [OF step, of n] show ?case by fastforce
qed simp

lemma total_left_le: "total_left n s \<le> 3 * n"
proof -
  have "steps_left pc \<le> 3" for pc by (cases pc) auto
  then have "(\<Sum>i<n. steps_left (rc_pc s i)) \<le> (\<Sum>i<n. 3)" by (intro sum_mono) auto
  then show ?thesis by (simp add: total_left_def)
qed

text \<open>
  C35: Every call is answered. \<open>n\<close> racing calls run at most \<open>3 * n\<close> statements altogether,
  in any interleaving, and when no statement is left to run, every call is done.
\<close>

theorem racing_puts_terminate:
  assumes "\<forall>i\<ge>n. \<exists>r. rc_pc s i = Done r" and "(race_step u arg ^^ m) s t"
  shows "m \<le> 3 * n \<and> ((\<forall>t'. \<not> race_step u arg t t') \<longrightarrow> (\<forall>i. \<exists>r. rc_pc t i = Done r))"
proof
  from race_steps_total [OF assms(2,1)] total_left_le [of n s] show "m \<le> 3 * n" by simp
  show "(\<forall>t'. \<not> race_step u arg t t') \<longrightarrow> (\<forall>i. \<exists>r. rc_pc t i = Done r)"
    by (metis race_step.failure)
qed

section \<open>A concrete race\<close>

definition race_arg :: "nat \<Rightarrow> bytes \<times> bytes" where
  "race_arg i = (replicate 16 (if i = 0 then CHR ''a'' else CHR ''b''), replicate 32 CHR ''v'')"

definition race_start :: race where
  "race_start = \<lparr>rc_db = sample_db, rc_pc = (\<lambda>_. Start)\<rparr>"

lemma race_start_reach: "race_reach 1 race_arg sample_db race_start"
  by (rule race_reach.init) (simp_all add: race_start_def)

theorem racing_puts_agree_witness:
  "\<exists>s. race_reach 1 race_arg sample_db s \<and> rc_pc s 0 = AtInsert \<and>
    (\<forall>i. rc_pc s i \<noteq> Done (Inl (Sentinel Pgx_ErrNoRows)))"
proof -
  let ?s = "race_start\<lparr>rc_db := sample_db, rc_pc := (rc_pc race_start)(0 := AtInsert)\<rparr>"
  have "race_step 1 race_arg race_start ?s"
    by (rule race_step.statement) (simp_all add: race_start_def sample_db_def vault_select_def)
  then have reach: "race_reach 1 race_arg sample_db ?s"
    by (rule race_reach.step [OF race_start_reach])
  from racing_puts_agree [OF this] have "\<forall>i. rc_pc ?s i \<noteq> Done (Inl (Sentinel Pgx_ErrNoRows))"
    by (elim conjE)
  with reach show ?thesis by (intro exI conjI) (assumption | simp)+
qed

theorem racing_puts_terminate_witness:
  "\<exists>t. (race_step 1 race_arg ^^ 1) \<lparr>rc_db = sample_db, rc_pc = (\<lambda>i. if i < 2 then Start else Done (Inr ()))\<rparr> t \<and> (1::nat) \<le> 3 * 2"
proof -
  let ?s = "\<lparr>rc_db = sample_db, rc_pc = (\<lambda>i::nat. if i < 2 then Start else Done (Inr ()))\<rparr>"
  let ?t = "?s\<lparr>rc_db := sample_db, rc_pc := (rc_pc ?s)(0 := AtInsert)\<rparr>"
  have "race_step 1 race_arg ?s ?t"
    by (rule race_step.statement) (simp_all add: sample_db_def vault_select_def)
  then have one: "(race_step 1 race_arg ^^ 1) ?s ?t" by auto
  have "\<forall>i\<ge>2. \<exists>r. rc_pc ?s i = Done r" by simp
  from racing_puts_terminate [OF this one] one show ?thesis by blast
qed

end
