(* ===== verification/Jwt_Helper.thy ===== *)
theory Jwt_Helper
  imports Instance_Lib
begin

text \<open>
  Access tokens (\<^verbatim>\<open>pkg/jwthelper/jwthelper.go\<close>) and the CLI's unverified reading of
  the user id (\<^verbatim>\<open>internal/client/pkg/jwtuser/jwtuser.go\<close>). The locale
  \<open>token_service\<close> is what the vault service needs of the two ends: a token that was issued for
  a user is accepted as that user's.
\<close>

section \<open>The helper\<close>

definition DefaultIssuer :: string where "DefaultIssuer = ''skeeper''"

record jwt_helper =
  jh_privateKey :: "rsa_key option"
  jh_publicKey :: rsa_key
  jh_atLifetime :: int
  jh_rtLifetime :: int
  jh_audience :: string

definition newClaims :: "lib \<Rightarrow> env \<Rightarrow> jwt_helper \<Rightarrow> int64 \<Rightarrow> gotime \<Rightarrow> token_claims" where
  "newClaims L ev h userID expiresAt = \<lparr>
     cl_Issuer = DefaultIssuer, cl_Subject = [],
     cl_Audience = (if jh_audience h \<noteq> [] then [jh_audience h] else []),
     cl_ExpiresAt = Some (jwt_NumericDate L expiresAt),
     cl_NotBefore = None,
     cl_IssuedAt = Some (jwt_NumericDate L (time_now ev NowIssued)),
     cl_ID = uuid_String L (fresh_uuid ev IdJwt),
     cl_UserID = userID\<rparr>"

definition generateRandomString :: "env \<Rightarrow> string" where
  "generateRandomString ev = hex_encode (rand_bytes ev DrawRefreshToken 32)"

definition NewTokenPair :: "lib \<Rightarrow> env \<Rightarrow> jwt_helper \<Rightarrow> int64 \<Rightarrow> go_error + token_pair" where
  "NewTokenPair L ev h userID =
    (case jh_privateKey h of
       None \<Rightarrow> Inl (ErrNew ''jwt: signing key not configured'')
     | Some privateKey \<Rightarrow>
         (let accessExpiresAt = time_add (time_now ev NowAccess) (jh_atLifetime h);
              aClaims = newClaims L ev h userID accessExpiresAt
          in case jwt_Sign_RS256 L privateKey aClaims of
               Inl m \<Rightarrow> Inl (LibErr m)
             | Inr accessToken \<Rightarrow>
                 (let refreshExpiresAt = time_add (time_now ev NowRefresh) (jh_rtLifetime h);
                      refreshToken = generateRandomString ev
                  in Inr \<lparr>
                    tp_AccessToken = \<lparr>tk_Token = accessToken, tk_ExpiresAt = accessExpiresAt\<rparr>,
                    tp_RefreshToken = \<lparr>tk_Token = refreshToken, tk_ExpiresAt = refreshExpiresAt\<rparr>\<rparr>)))"

text \<open>
  \<^verbatim>\<open>jwt.ParseWithClaims\<close> with the key function of the helper: the token decodes, its
  method is RS256, its date claims are valid now and its signature verifies; any failure is an
  error, which \<^verbatim>\<open>ValidateToken\<close> does not look into.
\<close>

definition ValidateToken :: "lib \<Rightarrow> env \<Rightarrow> jwt_helper \<Rightarrow> string \<Rightarrow> go_error + token_claims" where
  "ValidateToken L ev h encodedToken =
    (case jwt_Decode L encodedToken of
       None \<Rightarrow> Inl (ErrNew ''invalid token'')
     | Some (alg, claims) \<Rightarrow>
         if alg \<noteq> ''RS256'' then Inl (ErrNew ''invalid token'')
         else if \<not> jwt_ClaimsValid L (time_now ev NowValidate) claims then Inl (ErrNew ''invalid token'')
         else if \<not> jwt_Verify_RS256 L (jh_publicKey h) encodedToken then Inl (ErrNew ''invalid token'')
         else if cl_Issuer claims \<noteq> DefaultIssuer then Inl (ErrNew ''invalid token'')
         else if jh_audience h \<noteq> [] \<and> \<not> jwt_VerifyAudience L claims (jh_audience h) True
         then Inl (ErrNew ''invalid token'')
         else Inr claims)"

definition New_helper :: "lib \<Rightarrow> bytes \<Rightarrow> bytes \<Rightarrow> int \<Rightarrow> int \<Rightarrow> string \<Rightarrow> go_error + jwt_helper" where
  "New_helper L privByte pubByte atLifetime rtLifetime audience =
    (case rsa_ParsePublicPEM L pubByte of
       Inl m \<Rightarrow> Inl (Wrap (Some (LibErr m)) ''failed to parse rsa public key'')
     | Inr pubKey \<Rightarrow>
         (case (if privByte = [] then Inr None
                else (case rsa_ParsePrivatePEM L privByte of
                        Inl m \<Rightarrow> Inl (Wrap (Some (LibErr m)) ''failed to parse rsa private key'')
                      | Inr k \<Rightarrow> Inr (Some k))) of
            Inl e \<Rightarrow> Inl e
          | Inr privKey \<Rightarrow> Inr \<lparr>
              jh_privateKey = privKey, jh_publicKey = pubKey,
              jh_atLifetime = (if atLifetime \<le> 0 then minute * 15 else atLifetime),
              jh_rtLifetime = (if rtLifetime \<le> 0 then hour * 24 else rtLifetime),
              jh_audience = audience\<rparr>))"

record jwt_config =
  jc_PrivateKeyFile :: string
  jc_PublicKeyFile :: string
  jc_AccessTokenLifetime :: int
  jc_RefreshTokenLifetime :: int
  jc_Audience :: string

text \<open>\<open>read_file\<close> is \<^verbatim>\<open>os.ReadFile\<close>.\<close>

definition NewFromConfig :: "lib \<Rightarrow> (string \<Rightarrow> string + bytes) \<Rightarrow> jwt_config \<Rightarrow> go_error + jwt_helper" where
  "NewFromConfig L read_file cfg =
    (case read_file (jc_PublicKeyFile cfg) of
       Inl m \<Rightarrow> Inl (Wrap (Some (LibErr m)) ''failed to read public key file'')
     | Inr pubBytes \<Rightarrow>
         (case (if jc_PrivateKeyFile cfg \<noteq> []
                then (case read_file (jc_PrivateKeyFile cfg) of
                        Inl m \<Rightarrow> Inl (Wrap (Some (LibErr m)) ''failed to read private key file'')
                      | Inr b \<Rightarrow> Inr b)
                else Inr []) of
            Inl e \<Rightarrow> Inl e
          | Inr privBytes \<Rightarrow>
              New_helper L privBytes pubBytes (jc_AccessTokenLifetime cfg) (jc_RefreshTokenLifetime cfg)
                (jc_Audience cfg)))"

section \<open>The CLI's reading of the user id\<close>

definition UserIDFromAccessTokenUnverified :: "lib \<Rightarrow> string \<Rightarrow> go_error + int64" where
  "UserIDFromAccessTokenUnverified L tok =
    (case jwt_MapNumber L tok of
       Inl m \<Rightarrow> Inl (Wrap (Some (LibErr m)) ''parse jwt'')
     | Inr m \<Rightarrow>
         (case m ''UserID'' of
            Some v \<Rightarrow> Inr (word_of_int v)
          | None \<Rightarrow> (case m ''user_id'' of
              Some v \<Rightarrow> Inr (word_of_int v)
            | None \<Rightarrow> Inl (ErrNew ''jwt missing user id claim''))))"

section \<open>Issuing and accepting\<close>

text \<open>The seconds between which a token is accepted: both ends rounded down.\<close>

definition issued_sec :: "env \<Rightarrow> gotime" where
  "issued_sec ev = Unix_Ns (unix_ns (time_now ev NowIssued) div second * second)"

definition expiry_sec :: "env \<Rightarrow> jwt_helper \<Rightarrow> gotime" where
  "expiry_sec ev h = Unix_Ns ((unix_ns (time_now ev NowAccess) + jh_atLifetime h) div second * second)"

lemma NewTokenPair_InrD:
  assumes "NewTokenPair L ev h u = Inr pair"
  obtains k where "jh_privateKey h = Some k"
    and "jwt_Sign_RS256 L k (newClaims L ev h u (time_add (time_now ev NowAccess) (jh_atLifetime h)))
      = Inr (tk_Token (tp_AccessToken pair))"
    and "tk_ExpiresAt (tp_AccessToken pair) = time_add (time_now ev NowAccess) (jh_atLifetime h)"
    and "tp_RefreshToken pair = \<lparr>tk_Token = generateRandomString ev,
      tk_ExpiresAt = time_add (time_now ev NowRefresh) (jh_rtLifetime h)\<rparr>"
  using assms by (auto simp: NewTokenPair_def Let_def split: option.splits sum.splits)

lemma NewTokenPair_total:
  assumes "jh_privateKey h = Some k" and "jwt_pair_ok L k pub"
  shows "\<exists>pair. NewTokenPair L ev h u = Inr pair"
proof -
  obtain t where "jwt_Sign_RS256 L k (newClaims L ev h u (time_add (time_now ev NowAccess) (jh_atLifetime h))) = Inr t"
    using assms(2) unfolding jwt_pair_ok_def by (elim allE exE conjE)
  then show ?thesis by (simp add: NewTokenPair_def assms(1))
qed

lemma ValidateToken_issued:
  assumes "jwt_claims_ok L" and "jh_privateKey h = Some k" and "jwt_pair_ok L k (jh_publicKey h')"
    and "NewTokenPair L ev h u = Inr pair"
    and "jh_audience h' = [] \<or> jh_audience h' = jh_audience h"
  shows "ValidateToken L ev' h' (tk_Token (tp_AccessToken pair)) =
    (if issued_sec ev \<le> time_now ev' NowValidate \<and> time_now ev' NowValidate < expiry_sec ev h
     then Inr (newClaims L ev h u (time_add (time_now ev NowAccess) (jh_atLifetime h)))
     else Inl (ErrNew ''invalid token''))"
proof -
  let ?t = "tk_Token (tp_AccessToken pair)"
  let ?c = "newClaims L ev h u (time_add (time_now ev NowAccess) (jh_atLifetime h))"
  have sign: "jwt_Sign_RS256 L k ?c = Inr ?t"
    using NewTokenPair_InrD [OF assms(4)] assms(2) by auto
  with assms(3) have dec: "jwt_Decode L ?t = Some (''RS256'', ?c)" and ver: "jwt_Verify_RS256 L (jh_publicKey h') ?t"
    by (auto simp: jwt_pair_ok_def dest: spec [of _ ?c])
  have valid: "jwt_ClaimsValid L now ?c \<longleftrightarrow> issued_sec ev \<le> now \<and> now < expiry_sec ev h" for now
    using assms(1) by (auto simp: jwt_claims_ok_def newClaims_def issued_sec_def expiry_sec_def)
  have aud: "jh_audience h' = [] \<or> jwt_VerifyAudience L ?c (jh_audience h') True"
    using assms(1,5) by (auto simp: jwt_claims_ok_def newClaims_def)
  have iss: "cl_Issuer ?c = DefaultIssuer" by (simp add: newClaims_def)
  show ?thesis
    unfolding ValidateToken_def dec using aud by (auto simp: ver valid iss)
qed

locale token_service =
  fixes issue :: "'c \<Rightarrow> 'u \<Rightarrow> 'tok option"
    and accept :: "'d \<Rightarrow> 'tok \<Rightarrow> 'u option"
    and live :: "'c \<Rightarrow> 'd \<Rightarrow> bool"
  assumes accept_issued: "live c d \<Longrightarrow> issue c u = Some t \<Longrightarrow> accept d t = Some u"
begin

lemma issued_differ:
  "live c d \<Longrightarrow> live c' d \<Longrightarrow> issue c u = Some t \<Longrightarrow> issue c' v = Some t \<Longrightarrow> u = v"
  using accept_issued by (metis option.inject)

lemma accepted_as_issued: "live c d \<Longrightarrow> issue c u = Some t \<Longrightarrow> accept d t = Some v \<longleftrightarrow> v = u"
  by (auto dest: accept_issued)

end

definition right_value :: "'a + 'b \<Rightarrow> 'b option" where
  "right_value r = (case r of Inl _ \<Rightarrow> None | Inr x \<Rightarrow> Some x)"

text \<open>The two ends: Auther's helper at the time of issue, and Skeeper's at the time of the call.\<close>

type_synonym token_end = "lib \<times> env \<times> jwt_helper"

definition issue_access :: "token_end \<Rightarrow> int64 \<Rightarrow> string option" where
  "issue_access = (\<lambda>(L, ev, h) u. map_option (\<lambda>p. tk_Token (tp_AccessToken p)) (right_value (NewTokenPair L ev h u)))"

definition accept_access :: "token_end \<Rightarrow> string \<Rightarrow> int64 option" where
  "accept_access = (\<lambda>(L, ev, h) t. map_option cl_UserID (right_value (ValidateToken L ev h t)))"

definition token_live :: "token_end \<Rightarrow> token_end \<Rightarrow> bool" where
  "token_live = (\<lambda>(L, ev, h) (L', ev', h'). L' = L \<and> jwt_claims_ok L \<and>
     (\<exists>k. jh_privateKey h = Some k \<and> jwt_pair_ok L k (jh_publicKey h')) \<and>
     (jh_audience h' = [] \<or> jh_audience h' = jh_audience h) \<and>
     issued_sec ev \<le> time_now ev' NowValidate \<and> time_now ev' NowValidate < expiry_sec ev h)"

interpretation access_token: token_service issue_access accept_access token_live
proof unfold_locales
  fix c d :: token_end and u t
  obtain L ev h where c: "c = (L, ev, h)" by (cases c)
  obtain L' ev' h' where d: "d = (L', ev', h')" by (cases d)
  assume live: "token_live c d" and iss: "issue_access c u = Some t"
  from iss c obtain pair where pair: "NewTokenPair L ev h u = Inr pair" and t: "t = tk_Token (tp_AccessToken pair)"
    by (auto simp: issue_access_def right_value_def split: sum.splits)
  from live obtain k where L': "L' = L" and ok: "jwt_claims_ok L" "jh_privateKey h = Some k"
      "jwt_pair_ok L k (jh_publicKey h')" "jh_audience h' = [] \<or> jh_audience h' = jh_audience h"
    and time: "issued_sec ev \<le> time_now ev' NowValidate" "time_now ev' NowValidate < expiry_sec ev h"
    unfolding c d token_live_def prod.case by (elim conjE exE) (rule that)
  show "accept_access d t = Some u"
    unfolding d L' t
    by (simp add: accept_access_def ValidateToken_issued [OF ok(1-3) pair ok(4)] time right_value_def newClaims_def)
qed

lemma ValidateToken_InrD:
  assumes "ValidateToken L ev h t = Inr c"
  shows "jwt_Decode L t = Some (''RS256'', c)" and "jwt_Verify_RS256 L (jh_publicKey h) t"
    and "jwt_ClaimsValid L (time_now ev NowValidate) c" and "cl_Issuer c = DefaultIssuer"
    and "jh_audience h \<noteq> [] \<Longrightarrow> jwt_VerifyAudience L c (jh_audience h) True"
  using assms by (auto simp: ValidateToken_def split: option.splits if_splits)

lemma ValidateToken_InlD: "ValidateToken L ev h t = Inl e \<Longrightarrow> e = ErrNew ''invalid token''"
  by (auto simp: ValidateToken_def split: option.splits if_splits)

section \<open>What tokens promise\<close>

text \<open>
  An access token works exactly until it expires. A helper with the signing key always
  issues a pair; any helper with the matching public key and a compatible audience accepts the
  access token as that user's from the second it was issued in to the second its lifetime ends
  in (both rounded down), and rejects it outside.
\<close>

theorem token_accepted_until_expiry:
  assumes "jwt_claims_ok L" and "jh_privateKey h = Some k" and "jwt_pair_ok L k (jh_publicKey h')"
    and "jh_audience h' = [] \<or> jh_audience h' = jh_audience h"
  shows "\<exists>pair. NewTokenPair L ev h u = Inr pair \<and>
    map_option cl_UserID (right_value (ValidateToken L ev' h' (tk_Token (tp_AccessToken pair))))
      = (if issued_sec ev \<le> time_now ev' NowValidate \<and> time_now ev' NowValidate < expiry_sec ev h
         then Some u else None)"
proof -
  obtain pair where "NewTokenPair L ev h u = Inr pair"
    using NewTokenPair_total [OF assms(2,3)] by (rule exE)
  with ValidateToken_issued [OF assms(1-3) this assms(4)] show ?thesis
    by (simp add: right_value_def newClaims_def)
qed

text \<open>
  Everything an accepted token has passed: it is an RS256 token whose signature verifies
  under the helper's key, issued by this system, not expired and not from the future, and for
  the helper's audience when it has one. A rejected token always gives the same error.
\<close>

theorem validate_token_sound:
  assumes "jwt_claims_ok L"
  shows "case ValidateToken L ev h t of
      Inl e \<Rightarrow> e = ErrNew ''invalid token''
    | Inr c \<Rightarrow> jwt_Decode L t = Some (''RS256'', c) \<and> jwt_Verify_RS256 L (jh_publicKey h) t \<and>
        cl_Issuer c = ''skeeper'' \<and>
        (\<forall>x. cl_ExpiresAt c = Some x \<longrightarrow> time_now ev NowValidate < x) \<and>
        (\<forall>x. cl_IssuedAt c = Some x \<longrightarrow> x \<le> time_now ev NowValidate) \<and>
        (jh_audience h = [] \<or> jh_audience h \<in> set (cl_Audience c))"
proof (cases "ValidateToken L ev h t")
  case (Inl e)
  then show ?thesis using ValidateToken_InlD [OF Inl] by simp
next
  case (Inr c)
  note facts = ValidateToken_InrD [OF Inr]
  have "cl_ExpiresAt c = Some x \<Longrightarrow> time_now ev NowValidate < x"
    "cl_IssuedAt c = Some x \<Longrightarrow> x \<le> time_now ev NowValidate" for x
    using facts(3) assms by (simp_all add: jwt_claims_ok_def)
  moreover have "jh_audience h = [] \<or> jh_audience h \<in> set (cl_Audience c)"
    using facts(5) assms by (auto simp: jwt_claims_ok_def)
  ultimately show ?thesis
    using facts(1,2,4) Inr by (simp add: DefaultIssuer_def)
qed

lemma UserID_issued:
  assumes "jwt_map_ok L" and "NewTokenPair L ev h u = Inr pair" and "\<bar>sint u\<bar> < 2 ^ 53"
  shows "UserIDFromAccessTokenUnverified L (tk_Token (tp_AccessToken pair)) = Inr u"
proof -
  let ?c = "newClaims L ev h u (time_add (time_now ev NowAccess) (jh_atLifetime h))"
  obtain k where "jwt_Sign_RS256 L k ?c = Inr (tk_Token (tp_AccessToken pair))"
    using NewTokenPair_InrD [OF assms(2)] by metis
  with assms(1) obtain m where "jwt_MapNumber L (tk_Token (tp_AccessToken pair)) = Inr m"
    and "m ''UserID'' = Some (float64_of_int (sint (cl_UserID ?c)))"
    unfolding jwt_map_ok_def by (elim allE impE exE conjE)
  then show ?thesis
    by (simp add: UserIDFromAccessTokenUnverified_def newClaims_def float64_of_int_exact [OF assms(3)])
qed

text \<open>
  C40: The CLI reads its user id from its own token exactly, for every id a float64 holds
  exactly.
\<close>

theorem unverified_user_id_exact:
  assumes "jwt_map_ok L" and "NewTokenPair L ev h u = Inr pair" and "\<bar>sint u\<bar> < 2 ^ 53"
  shows "UserIDFromAccessTokenUnverified L (tk_Token (tp_AccessToken pair)) = Inr u"
  by (rule UserID_issued [OF assms])

text \<open>Beyond that range the id read is another user's.\<close>

lemma unverified_user_id_rounds:
  assumes "jwt_map_ok L" and "NewTokenPair L ev h (2 ^ 53 + 1) = Inr pair"
  shows "UserIDFromAccessTokenUnverified L (tk_Token (tp_AccessToken pair)) = Inr (2 ^ 53)"
proof -
  let ?c = "newClaims L ev h (2 ^ 53 + 1) (time_add (time_now ev NowAccess) (jh_atLifetime h))"
  obtain k where "jwt_Sign_RS256 L k ?c = Inr (tk_Token (tp_AccessToken pair))"
    using NewTokenPair_InrD [OF assms(2)] by metis
  with assms(1) obtain m where m: "jwt_MapNumber L (tk_Token (tp_AccessToken pair)) = Inr m"
    "m ''UserID'' = Some (float64_of_int (sint (cl_UserID ?c)))"
    unfolding jwt_map_ok_def by (elim allE impE exE conjE)
  have "float64_of_int (sint (cl_UserID ?c)) = 9007199254740992"
    by (simp add: newClaims_def float64_of_int_def Let_def bit_length.simps)
  with m show ?thesis by (simp add: UserIDFromAccessTokenUnverified_def)
qed

definition toy_helper :: jwt_helper where
  "toy_helper = \<lparr>jh_privateKey = Some ''k'', jh_publicKey = ''k'', jh_atLifetime = minute * 15,
     jh_rtLifetime = hour * 24, jh_audience = ''api''\<rparr>"

theorem token_accepted_until_expiry_witness:
  "\<exists>pair. NewTokenPair toy (calm (Unix_Ns 0)) toy_helper 42 = Inr pair \<and>
    map_option cl_UserID (right_value (ValidateToken toy (calm (Unix_Ns minute)) toy_helper
      (tk_Token (tp_AccessToken pair)))) = Some 42"
  using token_accepted_until_expiry [of toy toy_helper "''k''" toy_helper "calm (Unix_Ns 0)" 42 "calm (Unix_Ns minute)"]
  by (simp add: toy_ok toy_helper_def issued_sec_def expiry_sec_def calm_in_rpc gotime_order duration_defs)

theorem validate_token_sound_witness:
  "jwt_claims_ok toy \<and> (case ValidateToken toy (calm (Unix_Ns 0)) toy_helper ''junk'' of
      Inl e \<Rightarrow> e = ErrNew ''invalid token'' | Inr c \<Rightarrow> cl_Issuer c = ''skeeper'')"
  using validate_token_sound [where L = toy and t = "''junk''" and ev = "calm (Unix_Ns 0)" and h = toy_helper]
  by (simp add: toy_ok split: sum.splits)

theorem unverified_user_id_exact_witness:
  "\<exists>pair. NewTokenPair toy (calm (Unix_Ns 0)) toy_helper 42 = Inr pair \<and>
    UserIDFromAccessTokenUnverified toy (tk_Token (tp_AccessToken pair)) = Inr 42"
proof -
  obtain pair where pair: "NewTokenPair toy (calm (Unix_Ns 0)) toy_helper 42 = Inr pair"
    using NewTokenPair_total [of toy_helper "''k''" toy "''k''"] by (auto simp: toy_helper_def toy_ok)
  with unverified_user_id_exact [OF toy_jwt_map_ok pair] show ?thesis by simp
qed

end
