(* ===== verification/Auther_Store.thy ===== *)
theory Auther_Store
  imports Jwt_Helper Tables
begin

text \<open>
  The Postgres repository of the authentication service
  (\<^verbatim>\<open>internal/auther/repository/postgres\<close>): users with a unique e-mail and refresh
  tokens stored as hashes. A function that opens a transaction is one \<open>in_tx\<close> block; what it
  answers after its commit lies outside the block.
\<close>

section \<open>Tables\<close>

record user_row =
  us_ID :: int64
  us_Email :: string
  us_PasswordHash :: bytes

record token_row =
  rt_ID :: int64
  rt_UserID :: int64
  rt_Hash :: string
  rt_ExpiresAt :: gotime
  rt_UsedAt :: "gotime option"

text \<open>The two identity columns draw from a sequence each.\<close>

record auther_db =
  ad_Users :: "user_row list"
  ad_UserSeq :: nat
  ad_Tokens :: "token_row list"
  ad_TokenSeq :: nat

definition next_id :: "nat \<Rightarrow> go_error + int64" where
  "next_id n = (if Suc n < 2 ^ 63 then Inr (of_nat (Suc n))
     else Inl (LibErr ''nextval: reached maximum value of sequence''))"

section \<open>Users\<close>

text \<open>
  \<^verbatim>\<open>INSERT INTO users ... RETURNING id\<close>. The column holds 255 characters. The id is
  drawn before the unique index is checked, so a refused insert consumes one. The left result
  of the inner sum is the unique violation (code 23505).
\<close>

definition insert_user :: "db_user_credentials \<Rightarrow> auther_db \<Rightarrow> (go_error + (unit + int64)) \<times> auther_db" where
  "insert_user creds db =
    (if rune_count (dc_Email creds) > 255
     then (Inl (LibErr ''value too long for type character varying(255)''), db)
     else case next_id (ad_UserSeq db) of
        Inl e \<Rightarrow> (Inl e, db)
      | Inr i \<Rightarrow>
          if dc_Email creds \<in> us_Email ` set (ad_Users db)
          then (Inr (Inl ()), db\<lparr>ad_UserSeq := Suc (ad_UserSeq db)\<rparr>)
          else (Inr (Inr i), db\<lparr>ad_UserSeq := Suc (ad_UserSeq db),
            ad_Users := ad_Users db @ [\<lparr>us_ID = i, us_Email = dc_Email creds,
              us_PasswordHash = dc_PasswordHash creds\<rparr>]\<rparr>))"

definition InsertUser :: "env \<Rightarrow> db_user_credentials \<Rightarrow> (auther_db, go_error, user_info) cmd" where
  "InsertUser ev creds =
    bind_m (map_err (\<lambda>e. Wrap (Some e) ''failed to insert user'') (ack_call ev UserInsert (insert_user creds)))
      (\<lambda>r. case r of
         Inl _ \<Rightarrow> raise (Sentinel Pg_ErrUserExists)
       | Inr userID \<Rightarrow> ret \<lparr>ui_ID = userID, ui_Email = dc_Email creds, ui_PasswordHash = dc_PasswordHash creds\<rparr>)"

definition SelectUserByEmail :: "env \<Rightarrow> string \<Rightarrow> (auther_db, go_error, user_info) cmd" where
  "SelectUserByEmail ev email =
    bind_m (map_err (\<lambda>e. Wrap (Some e) ''failed to select user'') (try_call ev UserSelect)) (\<lambda>_.
    bind_m (gets (\<lambda>db. find_row us_Email (ad_Users db) email)) (\<lambda>row.
      case row of
        None \<Rightarrow> raise (Sentinel Pg_ErrUserNotExist)
      | Some r \<Rightarrow> ret \<lparr>ui_ID = us_ID r, ui_Email = us_Email r, ui_PasswordHash = us_PasswordHash r\<rparr>))"

section \<open>Refresh tokens\<close>

definition HashToken :: "lib \<Rightarrow> string \<Rightarrow> string" where
  "HashToken L tok = hex_encode (sha256_Sum256 L tok)"

text \<open>\<^verbatim>\<open>INSERT INTO refresh_tokens\<close>: the hash is unique and the user must exist.\<close>

definition insert_token :: "lib \<Rightarrow> int64 \<Rightarrow> string \<Rightarrow> gotime \<Rightarrow> (auther_db, go_error, unit) cmd" where
  "insert_token L userID h expires db =
    (case next_id (ad_TokenSeq db) of
       Inl e \<Rightarrow> (Inl e, db)
     | Inr i \<Rightarrow>
         if h \<in> rt_Hash ` set (ad_Tokens db)
         then (Inl (LibErr ''duplicate key value violates unique constraint''),
           db\<lparr>ad_TokenSeq := Suc (ad_TokenSeq db)\<rparr>)
         else if userID \<notin> us_ID ` set (ad_Users db)
         then (Inl (LibErr ''insert or update violates foreign key constraint''),
           db\<lparr>ad_TokenSeq := Suc (ad_TokenSeq db)\<rparr>)
         else (Inr (), db\<lparr>ad_TokenSeq := Suc (ad_TokenSeq db),
           ad_Tokens := ad_Tokens db @ [\<lparr>rt_ID = i, rt_UserID = userID, rt_Hash = h,
             rt_ExpiresAt = pg_timestamptz L expires, rt_UsedAt = None\<rparr>]\<rparr>))"

definition delete_tokens :: "(token_row \<Rightarrow> bool) \<Rightarrow> (auther_db, go_error, unit) cmd" where
  "delete_tokens p db = (Inr (), db\<lparr>ad_Tokens := filter (\<lambda>r. \<not> p r) (ad_Tokens db)\<rparr>)"

definition mark_used :: "gotime \<Rightarrow> int64 \<Rightarrow> (auther_db, go_error, unit) cmd" where
  "mark_used now i db = (Inr (), db\<lparr>ad_Tokens :=
     update_where (\<lambda>r. rt_ID r = i) (\<lambda>r. r\<lparr>rt_UsedAt := Some now\<rparr>) (ad_Tokens db)\<rparr>)"

definition tx_call :: "env \<Rightarrow> db_call \<Rightarrow> string \<Rightarrow> ('s, go_error, 'a) cmd \<Rightarrow> ('s, go_error, 'a) cmd" where
  "tx_call ev c msg m = map_err (\<lambda>e. Wrap (Some e) msg) (bind_m (try_call ev c) (\<lambda>_. m))"

text \<open>A rolled-back transaction restores the rows; the sequences keep what was drawn.\<close>

definition in_tx :: "(auther_db, go_error, 'a) cmd \<Rightarrow> (auther_db, go_error, 'a) cmd" where
  "in_tx c = (\<lambda>db. case c db of
      (Inl e, db') \<Rightarrow> (Inl e, db\<lparr>ad_UserSeq := ad_UserSeq db', ad_TokenSeq := ad_TokenSeq db'\<rparr>)
    | (Inr x, db') \<Rightarrow> (Inr x, db'))"

definition ReplaceUserRefreshTokens :: "lib \<Rightarrow> env \<Rightarrow> int64 \<Rightarrow> token_pair \<Rightarrow> (auther_db, go_error, unit) cmd" where
  "ReplaceUserRefreshTokens L ev userID pair =
    bind_m (map_err (\<lambda>e. Wrap (Some e) ''begin replace refresh tx'') (try_call ev ReplaceBegin)) (\<lambda>_.
    bind_m (in_tx
      (bind_m (tx_call ev ReplaceDelete ''delete old refresh tokens''
         (delete_tokens (\<lambda>r. rt_UserID r = userID))) (\<lambda>_.
       bind_m (tx_call ev ReplaceInsert ''insert refresh token''
         (insert_token L userID (HashToken L (tk_Token (tp_RefreshToken pair)))
           (tk_ExpiresAt (tp_RefreshToken pair)))) (\<lambda>_.
       try_call ev ReplaceCommit)))) (\<lambda>_.
    try_call ev (Ack ReplaceCommit)))"

text \<open>
  \<^verbatim>\<open>RotateRefreshToken\<close>. The body returns which commit it made and what the function
  answers after it: the revocation of an expired or reused token commits and is then answered
  with an error.
\<close>

definition rotate_body ::
  "lib \<Rightarrow> env \<Rightarrow> string \<Rightarrow> (int64 \<Rightarrow> go_error + token_pair) \<Rightarrow>
    (auther_db, go_error, db_call \<times> (go_error + token_pair)) cmd" where
  "rotate_body L ev hash mint =
    bind_m (map_err (\<lambda>e. Wrap (Some e) ''select refresh token'') (try_call ev RotateSelect)) (\<lambda>_.
    bind_m (gets (\<lambda>db. find_row rt_Hash (ad_Tokens db) hash)) (\<lambda>row.
      case row of
        None \<Rightarrow> raise (Sentinel Pg_ErrInvalidToken)
      | Some t \<Rightarrow>
          if rt_UsedAt t \<noteq> None \<or> \<not> time_now ev NowRotate < rt_ExpiresAt t
          then
            bind_m (tx_call ev RotateRevoke ''revoke refresh tokens after reuse''
              (delete_tokens (\<lambda>r. rt_UserID r = rt_UserID t))) (\<lambda>_.
            bind_m (try_call ev RotateRevokeCommit) (\<lambda>_.
            ret (RotateRevokeCommit, Inl (Sentinel Pg_ErrInvalidToken))))
          else
            bind_m (tx_call ev RotateMark ''mark refresh token used''
              (mark_used (time_now ev NowMark) (rt_ID t))) (\<lambda>_.
            bind_m (of_result (mint (rt_UserID t))) (\<lambda>pair.
            bind_m (tx_call ev RotateInsert ''insert rotated refresh token''
              (insert_token L (rt_UserID t) (HashToken L (tk_Token (tp_RefreshToken pair)))
                (tk_ExpiresAt (tp_RefreshToken pair)))) (\<lambda>_.
            bind_m (tx_call ev RotatePrune ''prune consumed refresh tokens''
              (delete_tokens (\<lambda>r. rt_UserID r = rt_UserID t \<and> rt_UsedAt r \<noteq> None))) (\<lambda>_.
            bind_m (try_call ev RotateCommit) (\<lambda>_.
            ret (RotateCommit, Inr pair))))))))"

definition RotateRefreshToken ::
  "lib \<Rightarrow> env \<Rightarrow> string \<Rightarrow> (int64 \<Rightarrow> go_error + token_pair) \<Rightarrow> (auther_db, go_error, token_pair) cmd" where
  "RotateRefreshToken L ev refreshPlain mint =
    bind_m (map_err (\<lambda>e. Wrap (Some e) ''begin rotate refresh tx'') (try_call ev RotateBegin)) (\<lambda>_.
    bind_m (in_tx (rotate_body L ev (HashToken L refreshPlain) mint)) (\<lambda>(commit, answer).
    bind_m (try_call ev (Ack commit)) (\<lambda>_.
    of_result answer)))"

definition InsertRefreshToken :: "lib \<Rightarrow> env \<Rightarrow> int64 \<Rightarrow> refresh_token_hashed \<Rightarrow> (auther_db, go_error, unit) cmd" where
  "InsertRefreshToken L ev userID refreshToken =
    map_err (\<lambda>e. Wrap (Some e) ''failed to insert new refresh token'')
      (ack_call ev TokenInsert (insert_token L userID (rth_Hash refreshToken) (tk_ExpiresAt refreshToken)))"

section \<open>The invariant of the tables\<close>

text \<open>
  Ids and e-mails are unique, ids lie within their sequence, token hashes are unique, every
  token belongs to a user, and no stored token is marked used.
\<close>

definition seq_ids :: "nat \<Rightarrow> int64 list \<Rightarrow> bool" where
  "seq_ids n ids \<longleftrightarrow> n < 2 ^ 63 \<and> distinct ids \<and> (\<forall>i\<in>set ids. unat i \<le> n)"

definition auther_ok :: "auther_db \<Rightarrow> bool" where
  "auther_ok db \<longleftrightarrow>
    seq_ids (ad_UserSeq db) (map us_ID (ad_Users db)) \<and> unique_keys us_Email (ad_Users db) \<and>
    seq_ids (ad_TokenSeq db) (map rt_ID (ad_Tokens db)) \<and> unique_keys rt_Hash (ad_Tokens db) \<and>
    (\<forall>t\<in>set (ad_Tokens db). rt_UserID t \<in> us_ID ` set (ad_Users db)) \<and>
    (\<forall>t\<in>set (ad_Tokens db). rt_UsedAt t = None)"

definition rows_of :: "auther_db \<Rightarrow> user_row list \<times> token_row list" where
  "rows_of db = (ad_Users db, ad_Tokens db)"

lemma next_id_InrD:
  assumes "next_id n = Inr i"
  shows "unat i = Suc n" and "Suc n < 2 ^ 63"
  using assms by (auto simp: next_id_def unat_of_nat simp del: of_nat_Suc split: if_splits)

lemma seq_ids_next:
  assumes "seq_ids n ids" and "next_id n = Inr i"
  shows "seq_ids (Suc n) (ids @ [i])" and "i \<notin> set ids"
proof -
  note i = next_id_InrD [OF assms(2)]
  show fresh: "i \<notin> set ids" using assms(1) i(1) by (force simp: seq_ids_def)
  show "seq_ids (Suc n) (ids @ [i])"
    using assms(1) i fresh by (auto simp: seq_ids_def)
qed

lemma seq_ids_mono: "seq_ids n ids \<Longrightarrow> n \<le> m \<Longrightarrow> m < 2 ^ 63 \<Longrightarrow> seq_ids m ids"
  by (auto simp: seq_ids_def)

lemma seq_ids_filter: "seq_ids n (map f xs) \<Longrightarrow> seq_ids n (map f (filter p xs))"
  by (auto simp: seq_ids_def distinct_map_filter)

lemma auther_ok_seqs:
  assumes "auther_ok db" and "ad_UserSeq db \<le> m" "m < 2 ^ 63" and "ad_TokenSeq db \<le> n" "n < 2 ^ 63"
  shows "auther_ok (db\<lparr>ad_UserSeq := m, ad_TokenSeq := n\<rparr>)"
  using assms by (auto simp: auther_ok_def intro: seq_ids_mono)

lemma auther_ok_filter: "auther_ok db \<Longrightarrow> auther_ok (db\<lparr>ad_Tokens := filter p (ad_Tokens db)\<rparr>)"
  by (auto simp: auther_ok_def seq_ids_filter unique_keys_filter)

lemma auther_ok_insert_token:
  assumes "auther_ok db" and "next_id (ad_TokenSeq db) = Inr i"
    and "h \<notin> rt_Hash ` set (ad_Tokens db)" and "u \<in> us_ID ` set (ad_Users db)"
  shows "auther_ok (db\<lparr>ad_TokenSeq := Suc (ad_TokenSeq db),
    ad_Tokens := ad_Tokens db @ [\<lparr>rt_ID = i, rt_UserID = u, rt_Hash = h, rt_ExpiresAt = x, rt_UsedAt = None\<rparr>]\<rparr>)"
proof -
  from assms(1) have "seq_ids (ad_TokenSeq db) (map rt_ID (ad_Tokens db))" by (simp add: auther_ok_def)
  from seq_ids_next [OF this assms(2)] assms(1,3,4) show ?thesis
    by (auto simp: auther_ok_def unique_keys_def)
qed

lemma insert_user_ok:
  assumes "insert_user creds db = (r, db')" and "auther_ok db"
  shows "auther_ok db' \<and> ad_Tokens db' = ad_Tokens db"
proof (cases "next_id (ad_UserSeq db)")
  case (Inl e)
  with assms show ?thesis by (auto simp: insert_user_def split: if_splits)
next
  case (Inr i)
  from assms(2) have "seq_ids (ad_UserSeq db) (map us_ID (ad_Users db))" by (simp add: auther_ok_def)
  note ids = seq_ids_next [OF this Inr]
  have "auther_ok (db\<lparr>ad_UserSeq := Suc (ad_UserSeq db)\<rparr>)"
    using assms(2) next_id_InrD(2) [OF Inr] by (auto simp: auther_ok_def intro: seq_ids_mono)
  with assms ids Inr show ?thesis
    by (auto simp: insert_user_def auther_ok_def unique_keys_def split: if_splits)
qed

lemma find_row_hash_unique:
  assumes "auther_ok db" and "find_row rt_Hash (ad_Tokens db) h = Some t" and "r \<in> set (ad_Tokens db)"
  shows "rt_ID r = rt_ID t \<longleftrightarrow> rt_Hash r = h"
proof
  have t: "t \<in> set (ad_Tokens db)" "rt_Hash t = h"
    using find_row_in_set [OF assms(2)] find_row_key [OF assms(2)] by simp_all
  from assms(1) have inj: "inj_on rt_ID (set (ad_Tokens db))" "inj_on rt_Hash (set (ad_Tokens db))"
    by (simp_all add: auther_ok_def seq_ids_def unique_keys_def distinct_map)
  show "rt_ID r = rt_ID t \<Longrightarrow> rt_Hash r = h"
    using inj_onD [OF inj(1) _ assms(3) t(1)] t(2) by simp
  show "rt_Hash r = h \<Longrightarrow> rt_ID r = rt_ID t"
    using inj_onD [OF inj(2) _ assms(3) t(1)] t(2) by simp
qed

text \<open>Marking a token used and pruning the used ones removes exactly that token.\<close>

lemma mark_and_prune:
  assumes "auther_ok db" and "find_row rt_Hash (ad_Tokens db) h = Some t" and "rt_UsedAt new = None"
  shows "filter (\<lambda>r. \<not> (rt_UserID r = rt_UserID t \<and> rt_UsedAt r \<noteq> None))
      (update_where (\<lambda>r. rt_ID r = rt_ID t) (\<lambda>r. r\<lparr>rt_UsedAt := Some now\<rparr>) (ad_Tokens db) @ [new])
    = filter (\<lambda>r. rt_Hash r \<noteq> h) (ad_Tokens db) @ [new]"
proof -
  have unused: "\<forall>r\<in>set (ad_Tokens db). rt_UsedAt r = None" using assms(1) by (simp add: auther_ok_def)
  have tu: "rt_ID r = rt_ID t \<Longrightarrow> r = t" if "r \<in> set (ad_Tokens db)" for r
    using that find_row_in_set [OF assms(2)] assms(1)
    by (auto simp: auther_ok_def seq_ids_def distinct_map dest: inj_onD)
  have "filter (\<lambda>r. \<not> (rt_UserID r = rt_UserID t \<and> rt_UsedAt r \<noteq> None))
      (map (\<lambda>r. if rt_ID r = rt_ID t then r\<lparr>rt_UsedAt := Some now\<rparr> else r) rs)
    = filter (\<lambda>r. rt_Hash r \<noteq> h) rs" if "set rs \<subseteq> set (ad_Tokens db)" for rs
    using that
  proof (induction rs)
    case (Cons r rs)
    then have r: "r \<in> set (ad_Tokens db)" by simp
    show ?case
      using Cons find_row_hash_unique [OF assms(1,2) r] tu [OF r] unused r by auto
  qed simp
  then show ?thesis by (simp add: update_where_def assms(3))
qed

section \<open>Effects of the transactions\<close>

lemma tx_call_InrD: "tx_call ev c msg m s = (Inr x, t) \<Longrightarrow> m s = (Inr x, t)"
  unfolding tx_call_def by (auto dest!: map_err_InrD elim!: bind_m_InrE simp: try_call_def ret_def raise_def split: option.splits)

lemma try_call_InrD: "try_call ev c s = (Inr x, t) \<Longrightarrow> t = s"
  by (rule try_call_state)

lemma insert_token_InrD:
  assumes "insert_token L u h x db = (Inr y, db')"
  obtains i where "next_id (ad_TokenSeq db) = Inr i" and "h \<notin> rt_Hash ` set (ad_Tokens db)"
    and "u \<in> us_ID ` set (ad_Users db)"
    and "db' = db\<lparr>ad_TokenSeq := Suc (ad_TokenSeq db), ad_Tokens := ad_Tokens db @
      [\<lparr>rt_ID = i, rt_UserID = u, rt_Hash = h, rt_ExpiresAt = pg_timestamptz L x, rt_UsedAt = None\<rparr>]\<rparr>"
  using assms by (auto simp: insert_token_def split: sum.splits if_splits)

text \<open>The row a rotation or a login stores.\<close>

definition new_token :: "lib \<Rightarrow> int64 \<Rightarrow> token_pair \<Rightarrow> int64 \<Rightarrow> token_row" where
  "new_token L u pair i = \<lparr>rt_ID = i, rt_UserID = u, rt_Hash = HashToken L (tk_Token (tp_RefreshToken pair)),
     rt_ExpiresAt = pg_timestamptz L (tk_ExpiresAt (tp_RefreshToken pair)), rt_UsedAt = None\<rparr>"

definition rotated :: "lib \<Rightarrow> string \<Rightarrow> token_row \<Rightarrow> token_pair \<Rightarrow> int64 \<Rightarrow> auther_db \<Rightarrow> auther_db" where
  "rotated L h t pair i db = db\<lparr>ad_TokenSeq := Suc (ad_TokenSeq db),
     ad_Tokens := filter (\<lambda>r. rt_Hash r \<noteq> h) (ad_Tokens db) @ [new_token L (rt_UserID t) pair i]\<rparr>"

definition revoked :: "int64 \<Rightarrow> auther_db \<Rightarrow> auther_db" where
  "revoked u db = db\<lparr>ad_Tokens := filter (\<lambda>r. rt_UserID r \<noteq> u) (ad_Tokens db)\<rparr>"

lemma rt_hash_update_where [simp]:
  "rt_Hash ` set (update_where p (\<lambda>r. r\<lparr>rt_UsedAt := x\<rparr>) rs) = rt_Hash ` set rs"
  by (induction rs) (simp_all add: update_where_def)

lemma rotate_live_effect:
  assumes ok: "auther_ok db" and row: "find_row rt_Hash (ad_Tokens db) h = Some t"
    and mark: "mark_used now (rt_ID t) db = (Inr m, db1)"
    and ins: "insert_token L (rt_UserID t) (HashToken L (tk_Token (tp_RefreshToken pair)))
      (tk_ExpiresAt (tp_RefreshToken pair)) db1 = (Inr y, db2)"
    and prune: "delete_tokens (\<lambda>r. rt_UserID r = rt_UserID t \<and> rt_UsedAt r \<noteq> None) db2 = (Inr z, db3)"
  shows "\<exists>i. next_id (ad_TokenSeq db) = Inr i \<and>
    HashToken L (tk_Token (tp_RefreshToken pair)) \<notin> rt_Hash ` set (ad_Tokens db) \<and>
    db3 = rotated L h t pair i db"
proof -
  have db1: "db1 = db\<lparr>ad_Tokens := update_where (\<lambda>r. rt_ID r = rt_ID t) (\<lambda>r. r\<lparr>rt_UsedAt := Some now\<rparr>) (ad_Tokens db)\<rparr>"
    using mark by (simp add: mark_used_def)
  obtain i where i: "next_id (ad_TokenSeq db1) = Inr i"
    and fresh: "HashToken L (tk_Token (tp_RefreshToken pair)) \<notin> rt_Hash ` set (ad_Tokens db1)"
    and db2: "db2 = db1\<lparr>ad_TokenSeq := Suc (ad_TokenSeq db1), ad_Tokens := ad_Tokens db1 @ [new_token L (rt_UserID t) pair i]\<rparr>"
    using ins by (elim insert_token_InrD) (simp add: new_token_def)
  have db3: "db3 = db2\<lparr>ad_Tokens := filter (\<lambda>r. \<not> (rt_UserID r = rt_UserID t \<and> rt_UsedAt r \<noteq> None)) (ad_Tokens db2)\<rparr>"
    using prune by (simp add: delete_tokens_def)
  have "rt_UsedAt (new_token L (rt_UserID t) pair i) = None" by (simp add: new_token_def)
  from mark_and_prune [OF ok row this, of now] have "db3 = rotated L h t pair i db"
    unfolding db3 db2 db1 rotated_def by simp
  with i fresh db1 show ?thesis by simp
qed

lemma rotate_body_InrD:
  assumes ok: "auther_ok db" and run: "rotate_body L ev h mint db = (Inr (c, ans), db')"
  obtains (expired) t where "find_row rt_Hash (ad_Tokens db) h = Some t"
      and "\<not> time_now ev NowRotate < rt_ExpiresAt t"
      and "ans = Inl (Sentinel Pg_ErrInvalidToken)" and "db' = revoked (rt_UserID t) db"
    | (live) t pair i where "find_row rt_Hash (ad_Tokens db) h = Some t"
      and "time_now ev NowRotate < rt_ExpiresAt t" and "mint (rt_UserID t) = Inr pair"
      and "ans = Inr pair" and "next_id (ad_TokenSeq db) = Inr i"
      and "HashToken L (tk_Token (tp_RefreshToken pair)) \<notin> rt_Hash ` set (ad_Tokens db)"
      and "db' = rotated L h t pair i db"
proof -
  from run obtain t where row: "find_row rt_Hash (ad_Tokens db) h = Some t"
    by (auto simp: rotate_body_def gets_def raise_def elim!: bind_m_InrE dest!: map_err_InrD try_call_InrD split: option.splits)
  have unused: "rt_UsedAt t = None"
    using ok find_row_in_set [OF row] by (simp add: auther_ok_def)
  show thesis
  proof (cases "time_now ev NowRotate < rt_ExpiresAt t")
    case False
    with run row have "ans = Inl (Sentinel Pg_ErrInvalidToken) \<and> db' = revoked (rt_UserID t) db"
      by (auto simp: rotate_body_def gets_def ret_def revoked_def delete_tokens_def
          elim!: bind_m_InrE dest!: map_err_InrD tx_call_InrD try_call_InrD)
    with row False show thesis by (intro expired) simp_all
  next
    case True
    from run [unfolded rotate_body_def] obtain m db1 pair y db2 z db3 where mark: "mark_used (time_now ev NowMark) (rt_ID t) db = (Inr m, db1)"
      and pair: "mint (rt_UserID t) = Inr pair"
      and ins: "insert_token L (rt_UserID t) (HashToken L (tk_Token (tp_RefreshToken pair)))
        (tk_ExpiresAt (tp_RefreshToken pair)) db1 = (Inr y, db2)"
      and prune: "delete_tokens (\<lambda>r. rt_UserID r = rt_UserID t \<and> rt_UsedAt r \<noteq> None) db2 = (Inr z, db3)"
      and fin: "ans = Inr pair" "db' = db3"
      using row unused True
      by (auto simp: gets_def ret_def of_result_def
          elim!: bind_m_InrE dest!: map_err_InrD tx_call_InrD try_call_InrD)
    from rotate_live_effect [OF ok row mark ins prune] obtain i where "next_id (ad_TokenSeq db) = Inr i"
      and "HashToken L (tk_Token (tp_RefreshToken pair)) \<notin> rt_Hash ` set (ad_Tokens db)"
      and "db3 = rotated L h t pair i db" by (elim exE conjE)
    with row True pair fin show thesis by (intro live) simp_all
  qed
qed

text \<open>The sequences only move forward, and stay within their range.\<close>

definition seqs_from :: "auther_db \<Rightarrow> auther_db \<Rightarrow> bool" where
  "seqs_from db0 db \<longleftrightarrow> ad_UserSeq db0 \<le> ad_UserSeq db \<and> ad_UserSeq db < 2 ^ 63 \<and>
    ad_TokenSeq db0 \<le> ad_TokenSeq db \<and> ad_TokenSeq db < 2 ^ 63"

lemma seqs_insert_token [cmd_frame]: "preserves (seqs_from db0) (insert_token L u h x)"
  by (auto simp: preserves_def insert_token_def seqs_from_def dest: next_id_InrD split: sum.split)

lemma seqs_delete [cmd_frame]: "preserves (seqs_from db0) (delete_tokens p)"
  and seqs_mark [cmd_frame]: "preserves (seqs_from db0) (mark_used now i)"
  by (simp_all add: preserves_def delete_tokens_def mark_used_def seqs_from_def)

lemma preserves_tx_call [cmd_frame]: "preserves I m \<Longrightarrow> preserves I (tx_call ev c msg m)"
  by (simp add: tx_call_def preserves_map_err preserves_bind)

lemma seqs_rotate_body: "preserves (seqs_from db0) (rotate_body L ev h mint)"
  unfolding rotate_body_def by (intro cmd_frame)

lemma in_tx_cases:
  assumes "in_tx c db = (r, db')"
  obtains (rolled_back) e mid where "r = Inl e" and "c db = (Inl e, mid)"
      and "db' = db\<lparr>ad_UserSeq := ad_UserSeq mid, ad_TokenSeq := ad_TokenSeq mid\<rparr>"
    | (committed) x where "r = Inr x" and "c db = (Inr x, db')"
  using assms by (auto simp: in_tx_def split: prod.splits sum.splits)

lemma seqs_from_refl: "auther_ok db \<Longrightarrow> seqs_from db db"
  by (simp add: seqs_from_def auther_ok_def seq_ids_def)

lemma auther_ok_rolled_back:
  assumes "auther_ok db" and "preserves (seqs_from db) c" and "c db = (r, mid)"
  shows "auther_ok (db\<lparr>ad_UserSeq := ad_UserSeq mid, ad_TokenSeq := ad_TokenSeq mid\<rparr>)"
proof -
  have "seqs_from db mid" by (rule preservesD [OF assms(2,3) seqs_from_refl [OF assms(1)]])
  then show ?thesis by (intro auther_ok_seqs [OF assms(1)]) (simp_all add: seqs_from_def)
qed

lemma auther_ok_rotated:
  assumes "auther_ok db" and "find_row rt_Hash (ad_Tokens db) h = Some t"
    and "next_id (ad_TokenSeq db) = Inr i"
    and "HashToken L (tk_Token (tp_RefreshToken pair)) \<notin> rt_Hash ` set (ad_Tokens db)"
  shows "auther_ok (rotated L h t pair i db)"
proof -
  let ?db = "db\<lparr>ad_Tokens := filter (\<lambda>r. rt_Hash r \<noteq> h) (ad_Tokens db)\<rparr>"
  have "rt_UserID t \<in> us_ID ` set (ad_Users db)"
    using assms(1) find_row_in_set [OF assms(2)] by (simp add: auther_ok_def)
  then have "auther_ok (?db\<lparr>ad_TokenSeq := Suc (ad_TokenSeq ?db), ad_Tokens := ad_Tokens ?db @ [new_token L (rt_UserID t) pair i]\<rparr>)"
    unfolding new_token_def
    by (intro auther_ok_insert_token auther_ok_filter [OF assms(1)]) (use assms(3,4) in auto)
  then show ?thesis by (simp add: rotated_def)
qed

text \<open>Everything a call of \<open>RotateRefreshToken\<close> can do.\<close>

lemma RotateRefreshToken_cases:
  assumes ok: "auther_ok db" and run: "RotateRefreshToken L ev tok mint db = (r, db')"
  obtains (unchanged) e where "r = Inl e" and "rows_of db' = rows_of db" and "auther_ok db'"
    | (expired) t e where "find_row rt_Hash (ad_Tokens db) (HashToken L tok) = Some t"
      and "\<not> time_now ev NowRotate < rt_ExpiresAt t" and "r = Inl e" and "db' = revoked (rt_UserID t) db"
    | (live) t pair i where "find_row rt_Hash (ad_Tokens db) (HashToken L tok) = Some t"
      and "time_now ev NowRotate < rt_ExpiresAt t" and "mint (rt_UserID t) = Inr pair"
      and "next_id (ad_TokenSeq db) = Inr i"
      and "HashToken L (tk_Token (tp_RefreshToken pair)) \<notin> rt_Hash ` set (ad_Tokens db)"
      and "db' = rotated L (HashToken L tok) t pair i db"
      and "r = Inr pair \<or> (\<exists>m. r = Inl (LibErr m))"
  using run [unfolded RotateRefreshToken_def]
proof (cases rule: bind_m_cases)
  case (err e)
  then have "db' = db"
    by (auto simp: map_err_def try_call_def ret_def raise_def split: option.splits)
  with err ok show thesis by (intro unchanged) simp_all
next
  case (ok x db1)
  then have db1: "db1 = db" by (auto dest!: map_err_InrD try_call_InrD)
  from ok(2) show thesis
  proof (cases rule: bind_m_cases)
    case (err e)
    from err(1) [unfolded db1] show thesis
    proof (cases rule: in_tx_cases)
      case (rolled_back e' mid)
      have "auther_ok db'"
        unfolding rolled_back(3) by (rule auther_ok_rolled_back [OF assms(1) seqs_rotate_body rolled_back(2)])
      with err(2) rolled_back(3) show thesis by (intro unchanged) (simp_all add: rows_of_def)
    qed simp
  next
    case (ok p db2)
    obtain c ans where p: "p = (c, ans)" by (cases p)
    from ok(1) have body: "rotate_body L ev (HashToken L tok) mint db = (Inr (c, ans), db2)"
      unfolding db1 p by (auto elim!: in_tx_cases)
    from ok(2) have fin: "db' = db2" "r = ans \<or> (\<exists>m. r = Inl (LibErr m))"
      by (auto simp: p bind_m_def try_call_def of_result_def ret_def raise_def split: option.splits)
    from assms(1) body show thesis
    proof (cases rule: rotate_body_InrD)
      case (expired t)
      with fin show thesis by (auto intro: that(2))
    next
      case (live t pair i)
      with fin show thesis by (intro that(3) [of t pair i]) simp_all
    qed
  qed
qed

lemma tx_call_ok [simp]: "no_faults ev \<Longrightarrow> tx_call ev c msg m = map_err (\<lambda>e. Wrap (Some e) msg) m"
  by (simp add: tx_call_def)

text \<open>With no failing call, a live token rotates.\<close>

lemma rotate_body_live:
  assumes "no_faults ev" and ok: "auther_ok db" and row: "find_row rt_Hash (ad_Tokens db) h = Some t"
    and live: "time_now ev NowRotate < rt_ExpiresAt t" and mint: "mint (rt_UserID t) = Inr pair"
    and i: "next_id (ad_TokenSeq db) = Inr i"
    and fresh: "HashToken L (tk_Token (tp_RefreshToken pair)) \<notin> rt_Hash ` set (ad_Tokens db)"
  shows "rotate_body L ev h mint db = (Inr (RotateCommit, Inr pair), rotated L h t pair i db)"
proof -
  have unused: "rt_UsedAt t = None" and user: "rt_UserID t \<in> us_ID ` set (ad_Users db)"
    using ok find_row_in_set [OF row] by (simp_all add: auther_ok_def)
  let ?mk = "update_where (\<lambda>r. rt_ID r = rt_ID t) (\<lambda>r. r\<lparr>rt_UsedAt := Some (time_now ev NowMark)\<rparr>) (ad_Tokens db)"
  have ins: "insert_token L (rt_UserID t) (HashToken L (tk_Token (tp_RefreshToken pair)))
      (tk_ExpiresAt (tp_RefreshToken pair)) (db\<lparr>ad_Tokens := ?mk\<rparr>)
    = (Inr (), db\<lparr>ad_TokenSeq := Suc (ad_TokenSeq db), ad_Tokens := ?mk @ [new_token L (rt_UserID t) pair i]\<rparr>)"
    using i fresh user by (simp add: insert_token_def new_token_def)
  have "rt_UsedAt (new_token L (rt_UserID t) pair i) = None" by (simp add: new_token_def)
  from mark_and_prune [OF ok row this, of "time_now ev NowMark"] show ?thesis
    using unused live mint
    by (simp add: rotate_body_def assms(1) row gets_def bind_m_def map_err_def mark_used_def of_result_def ins
        delete_tokens_def ret_def rotated_def)
qed

lemma rotate_body_expired:
  assumes "no_faults ev" and "find_row rt_Hash (ad_Tokens db) h = Some t"
    and "\<not> time_now ev NowRotate < rt_ExpiresAt t"
  shows "rotate_body L ev h mint db = (Inr (RotateRevokeCommit, Inl (Sentinel Pg_ErrInvalidToken)), revoked (rt_UserID t) db)"
  using assms by (simp add: rotate_body_def gets_def bind_m_def map_err_def delete_tokens_def ret_def revoked_def)

lemma RotateRefreshToken_unknown:
  assumes "no_faults ev" and "find_row rt_Hash (ad_Tokens db) (HashToken L tok) = None"
  shows "RotateRefreshToken L ev tok mint db = (Inl (Sentinel Pg_ErrInvalidToken), db)"
  using assms
  by (simp add: RotateRefreshToken_def rotate_body_def in_tx_def gets_def bind_m_def map_err_def ret_def raise_def)

lemma RotateRefreshToken_body:
  assumes "no_faults ev" and "rotate_body L ev (HashToken L tok) mint db = (Inr (c, ans), db')"
  shows "RotateRefreshToken L ev tok mint db = (ans, db')"
  using assms by (simp add: RotateRefreshToken_def in_tx_def bind_m_def map_err_def ret_def of_result_def)

text \<open>Everything a call of \<open>ReplaceUserRefreshTokens\<close> can do.\<close>

definition replaced :: "lib \<Rightarrow> int64 \<Rightarrow> token_pair \<Rightarrow> int64 \<Rightarrow> auther_db \<Rightarrow> auther_db" where
  "replaced L u pair i db = db\<lparr>ad_TokenSeq := Suc (ad_TokenSeq db),
     ad_Tokens := filter (\<lambda>r. rt_UserID r \<noteq> u) (ad_Tokens db) @ [new_token L u pair i]\<rparr>"

lemma auther_ok_replaced:
  assumes "auther_ok db" and "next_id (ad_TokenSeq db) = Inr i" and "u \<in> us_ID ` set (ad_Users db)"
    and "HashToken L (tk_Token (tp_RefreshToken pair)) \<notin> rt_Hash ` set (filter (\<lambda>r. rt_UserID r \<noteq> u) (ad_Tokens db))"
  shows "auther_ok (replaced L u pair i db)"
proof -
  let ?db = "db\<lparr>ad_Tokens := filter (\<lambda>r. rt_UserID r \<noteq> u) (ad_Tokens db)\<rparr>"
  have "auther_ok (?db\<lparr>ad_TokenSeq := Suc (ad_TokenSeq ?db), ad_Tokens := ad_Tokens ?db @ [new_token L u pair i]\<rparr>)"
    unfolding new_token_def
    by (intro auther_ok_insert_token auther_ok_filter [OF assms(1)]) (use assms(2-4) in simp_all)
  then show ?thesis by (simp add: replaced_def)
qed

lemma replace_body_InrD:
  assumes "bind_m (tx_call ev ReplaceDelete d (delete_tokens (\<lambda>r. rt_UserID r = u))) (\<lambda>_.
      bind_m (tx_call ev ReplaceInsert m (insert_token L u (HashToken L (tk_Token (tp_RefreshToken pair))) (tk_ExpiresAt (tp_RefreshToken pair)))) (\<lambda>_.
      try_call ev ReplaceCommit)) db = (Inr y, db')"
    and "auther_ok db"
  shows "\<exists>i. next_id (ad_TokenSeq db) = Inr i \<and> u \<in> us_ID ` set (ad_Users db) \<and> db' = replaced L u pair i db \<and> auther_ok db'"
proof -
  from assms(1) obtain a mid b where del: "delete_tokens (\<lambda>r. rt_UserID r = u) db = (Inr a, mid)"
    and ins: "insert_token L u (HashToken L (tk_Token (tp_RefreshToken pair)))
      (tk_ExpiresAt (tp_RefreshToken pair)) mid = (Inr b, db')"
    by (auto elim!: bind_m_InrE dest!: tx_call_InrD try_call_InrD)
  have mid: "mid = db\<lparr>ad_Tokens := filter (\<lambda>r. rt_UserID r \<noteq> u) (ad_Tokens db)\<rparr>"
    using del by (simp add: delete_tokens_def)
  from ins obtain i where i: "next_id (ad_TokenSeq db) = Inr i" "u \<in> us_ID ` set (ad_Users db)"
    and fresh: "HashToken L (tk_Token (tp_RefreshToken pair)) \<notin> rt_Hash ` set (filter (\<lambda>r. rt_UserID r \<noteq> u) (ad_Tokens db))"
    and db': "db' = replaced L u pair i db"
    by (elim insert_token_InrD) (simp add: mid replaced_def new_token_def)
  with auther_ok_replaced [OF assms(2) i fresh] show ?thesis by blast
qed

lemma ReplaceUserRefreshTokens_cases:
  assumes ok: "auther_ok db" and run: "ReplaceUserRefreshTokens L ev u pair db = (r, db')"
  obtains (unchanged) e where "r = Inl e" and "rows_of db' = rows_of db" and "auther_ok db'"
    | (replaced) i where "next_id (ad_TokenSeq db) = Inr i" and "u \<in> us_ID ` set (ad_Users db)"
      and "db' = replaced L u pair i db" and "auther_ok db'" and "r = Inr () \<or> (\<exists>m. r = Inl (LibErr m))"
  using run [unfolded ReplaceUserRefreshTokens_def]
proof (cases rule: bind_m_cases)
  case (err e)
  then have "db' = db"
    by (auto simp: map_err_def try_call_def ret_def raise_def split: option.splits)
  with err ok show thesis by (intro unchanged) simp_all
next
  case (ok x db1)
  then have db1: "db1 = db" by (auto dest!: map_err_InrD try_call_InrD)
  let ?body = "bind_m (tx_call ev ReplaceDelete ''delete old refresh tokens'' (delete_tokens (\<lambda>r. rt_UserID r = u))) (\<lambda>_.
       bind_m (tx_call ev ReplaceInsert ''insert refresh token''
         (insert_token L u (HashToken L (tk_Token (tp_RefreshToken pair))) (tk_ExpiresAt (tp_RefreshToken pair)))) (\<lambda>_.
       try_call ev ReplaceCommit))"
  have grow: "preserves (seqs_from db) ?body" by (intro cmd_frame)
  from ok(2) show thesis
  proof (cases rule: bind_m_cases)
    case (err e)
    from err(1) [unfolded db1] show thesis
    proof (cases rule: in_tx_cases)
      case (rolled_back e' mid)
      have "auther_ok db'"
        unfolding rolled_back(3) by (rule auther_ok_rolled_back [OF assms(1) grow rolled_back(2)])
      with err(2) rolled_back(3) show thesis by (intro unchanged) (simp_all add: rows_of_def)
    qed simp
  next
    case (ok y db2)
    from ok(1) have "?body db = (Inr y, db2)" unfolding db1 by (auto elim!: in_tx_cases)
    from replace_body_InrD [OF this assms(1)] obtain i where i: "next_id (ad_TokenSeq db) = Inr i"
      "u \<in> us_ID ` set (ad_Users db)" and db2: "db2 = replaced L u pair i db" "auther_ok db2" by blast
    from ok(2) have "db' = db2" "r = Inr () \<or> (\<exists>m. r = Inl (LibErr m))"
      by (auto simp: try_call_def ret_def raise_def split: option.splits)
    with db2 i show thesis by (intro that(2) [of i]) simp_all
  qed
qed

lemma preserves_InsertUser: "preserves auther_ok (InsertUser ev creds)"
proof -
  have "preserves auther_ok (insert_user creds)"
    unfolding preserves_def by (metis insert_user_ok surjective_pairing)
  then show ?thesis
    unfolding InsertUser_def
    by (intro preserves_bind preserves_map_err preserves_ack_call) (simp_all split: sum.split)
qed

lemma preserves_SelectUserByEmail: "preserves I (SelectUserByEmail ev email)"
  unfolding SelectUserByEmail_def by (intro cmd_frame)

lemma preserves_Rotate: "preserves auther_ok (RotateRefreshToken L ev tok mint)"
  unfolding preserves_def
proof (intro allI impI)
  fix db assume ok: "auther_ok db"
  obtain r db' where run: "RotateRefreshToken L ev tok mint db = (r, db')"
    by (cases "RotateRefreshToken L ev tok mint db")
  from ok run have "auther_ok db'"
    by (cases rule: RotateRefreshToken_cases) (simp_all add: auther_ok_rotated ok auther_ok_filter revoked_def)
  then show "auther_ok (snd (RotateRefreshToken L ev tok mint db))" by (simp add: run)
qed

lemma preserves_Replace: "preserves auther_ok (ReplaceUserRefreshTokens L ev u pair)"
  unfolding preserves_def
proof (intro allI impI)
  fix db assume ok: "auther_ok db"
  obtain r db' where run: "ReplaceUserRefreshTokens L ev u pair db = (r, db')"
    by (cases "ReplaceUserRefreshTokens L ev u pair db")
  from ok run have "auther_ok db'" by (cases rule: ReplaceUserRefreshTokens_cases)
  then show "auther_ok (snd (ReplaceUserRefreshTokens L ev u pair db))" by (simp add: run)
qed

section \<open>What refresh tokens promise\<close>

text \<open>
  Rotation, on every branch. An unknown token is refused; an expired one is refused and all
  of its user's tokens are deleted; for a live one the minted pair is returned and its refresh
  token takes the place of the presented one, every other token staying as it is; a failing
  mint changes nothing.
\<close>

theorem rotate_answers:
  assumes "no_faults ev" and "auther_ok db" and "Suc (ad_TokenSeq db) < 2 ^ 63"
    and "\<forall>u pair. mint u = Inr pair \<longrightarrow>
      HashToken L (tk_Token (tp_RefreshToken pair)) \<notin> rt_Hash ` set (ad_Tokens db)"
  shows "\<exists>r db'. RotateRefreshToken L ev tok mint db = (r, db') \<and> ad_Users db' = ad_Users db \<and>
    (case find_row rt_Hash (ad_Tokens db) (HashToken L tok) of
       None \<Rightarrow> r = Inl (Sentinel Pg_ErrInvalidToken) \<and> ad_Tokens db' = ad_Tokens db
     | Some t \<Rightarrow>
         if \<not> time_now ev NowRotate < rt_ExpiresAt t
         then r = Inl (Sentinel Pg_ErrInvalidToken) \<and>
           ad_Tokens db' = filter (\<lambda>s. rt_UserID s \<noteq> rt_UserID t) (ad_Tokens db)
         else case mint (rt_UserID t) of
            Inl e \<Rightarrow> r = Inl e \<and> ad_Tokens db' = ad_Tokens db
          | Inr pair \<Rightarrow> r = Inr pair \<and>
              ad_Tokens db' = filter (\<lambda>s. rt_Hash s \<noteq> HashToken L tok) (ad_Tokens db) @
                [new_token L (rt_UserID t) pair (of_nat (Suc (ad_TokenSeq db)))])"
proof (cases "find_row rt_Hash (ad_Tokens db) (HashToken L tok)")
  case None
  then show ?thesis by (simp add: RotateRefreshToken_unknown [OF assms(1) None])
next
  case (Some t)
  show ?thesis
  proof (cases "time_now ev NowRotate < rt_ExpiresAt t")
    case False
    with RotateRefreshToken_body [OF assms(1) rotate_body_expired [OF assms(1) Some False]] Some
    show ?thesis by (simp add: revoked_def)
  next
    case live: True
    show ?thesis
    proof (cases "mint (rt_UserID t)")
      case (Inl e)
      have "rt_UsedAt t = None"
        using assms(2) find_row_in_set [OF Some] by (simp add: auther_ok_def)
      with Some live Inl assms(1) show ?thesis
        by (simp add: RotateRefreshToken_def rotate_body_def in_tx_def gets_def bind_m_def map_err_def
            mark_used_def of_result_def ret_def)
    next
      case (Inr pair)
      have i: "next_id (ad_TokenSeq db) = Inr (of_nat (Suc (ad_TokenSeq db)))"
        using assms(3) by (simp add: next_id_def)
      have "HashToken L (tk_Token (tp_RefreshToken pair)) \<notin> rt_Hash ` set (ad_Tokens db)"
        using assms(4) Inr by simp
      note body = rotate_body_live [where mint = mint, OF assms(1,2) Some live Inr i this]
      from RotateRefreshToken_body [OF assms(1) body] Some live Inr show ?thesis
        by (simp add: rotated_def)
    qed
  qed
qed

text \<open>
  A refresh token works once. After a rotation was answered with a new pair, presenting the
  old token again is refused and changes nothing: the new token and the user's other tokens
  stay valid.
\<close>

theorem spent_token_is_refused:
  assumes "auther_ok db" and "RotateRefreshToken L ev tok mint db = (Inr pair, db1)" and "no_faults ev2"
  shows "RotateRefreshToken L ev2 tok mint2 db1 = (Inl (Sentinel Pg_ErrInvalidToken), db1) \<and>
    (\<exists>t\<in>set (ad_Tokens db1). rt_Hash t = HashToken L (tk_Token (tp_RefreshToken pair)))"
  using assms(1,2)
proof (cases rule: RotateRefreshToken_cases)
  case (live t p i)
  from live(7) have p: "p = pair" by simp
  have "HashToken L tok \<in> rt_Hash ` set (ad_Tokens db)"
    using find_row_in_set [OF live(1)] find_row_key [OF live(1)] by force
  with live(5) p have ne: "HashToken L (tk_Token (tp_RefreshToken pair)) \<noteq> HashToken L tok" by metis
  have "find_row rt_Hash (ad_Tokens db1) (HashToken L tok) = None"
    using ne by (auto simp: live(6) p rotated_def new_token_def find_row_None_iff)
  from RotateRefreshToken_unknown [OF assms(3) this] show ?thesis
    by (simp add: live(6) p rotated_def new_token_def)
qed simp_all

text \<open>
  C4: A rotation never takes anything but the presented token's user apart, whatever fails.
  Tokens of other users are kept, users are kept, and an answer with a pair means the new token
  is stored.
\<close>

theorem rotation_is_atomic:
  assumes "auther_ok db" and "RotateRefreshToken L ev tok mint db = (r, db')"
  shows "auther_ok db' \<and> ad_Users db' = ad_Users db \<and>
    (ad_Tokens db' = ad_Tokens db \<and> (\<exists>e. r = Inl e) \<or>
     (\<exists>t. find_row rt_Hash (ad_Tokens db) (HashToken L tok) = Some t \<and>
       (\<forall>s\<in>set (ad_Tokens db). rt_UserID s \<noteq> rt_UserID t \<longrightarrow> s \<in> set (ad_Tokens db')) \<and>
       (\<forall>s\<in>set (ad_Tokens db'). s \<in> set (ad_Tokens db) \<or> rt_UserID s = rt_UserID t) \<and>
       (\<forall>pair. r = Inr pair \<longrightarrow> mint (rt_UserID t) = Inr pair \<and>
         (\<exists>i. new_token L (rt_UserID t) pair i \<in> set (ad_Tokens db')))))"
  using assms
proof (cases rule: RotateRefreshToken_cases)
  case (unchanged e)
  then show ?thesis by (simp add: rows_of_def)
next
  case (expired t e)
  have "auther_ok (revoked (rt_UserID t) db)"
    unfolding revoked_def by (rule auther_ok_filter [OF assms(1)])
  with expired show ?thesis by (auto simp: revoked_def)
next
  case (live t pair i)
  have t: "rt_Hash t = HashToken L tok" "t \<in> set (ad_Tokens db)"
    using find_row_key [OF live(1)] find_row_in_set [OF live(1)] by simp_all
  have same: "s = t" if "s \<in> set (ad_Tokens db)" "rt_Hash s = HashToken L tok" for s
  proof -
    have "inj_on rt_Hash (set (ad_Tokens db))"
      using assms(1) by (simp add: auther_ok_def unique_keys_def distinct_map)
    from inj_onD [OF this _ that(1) t(2)] that(2) t(1) show ?thesis by simp
  qed
  have "auther_ok db'" unfolding live(6) by (rule auther_ok_rotated [OF assms(1) live(1,4,5)])
  moreover have "\<forall>s\<in>set (ad_Tokens db). rt_UserID s \<noteq> rt_UserID t \<longrightarrow> s \<in> set (ad_Tokens db')"
    using same by (auto simp: live(6) rotated_def)
  moreover have "\<forall>s\<in>set (ad_Tokens db'). s \<in> set (ad_Tokens db) \<or> rt_UserID s = rt_UserID t"
    by (auto simp: live(6) rotated_def new_token_def)
  moreover have "\<forall>p. r = Inr p \<longrightarrow> mint (rt_UserID t) = Inr p \<and>
      (\<exists>i. new_token L (rt_UserID t) p i \<in> set (ad_Tokens db'))"
    using live(3,7) by (auto simp: live(6) rotated_def)
  ultimately show ?thesis using live(1) by (auto simp: live(6) rotated_def)
qed

section \<open>A concrete rotation\<close>

definition sample_pair :: token_pair where
  "sample_pair = \<lparr>tp_AccessToken = \<lparr>tk_Token = ''a'', tk_ExpiresAt = Unix_Ns minute\<rparr>,
     tp_RefreshToken = \<lparr>tk_Token = ''new'', tk_ExpiresAt = Unix_Ns hour\<rparr>\<rparr>"

definition sample_auther :: auther_db where
  "sample_auther = \<lparr>ad_Users = [\<lparr>us_ID = 1, us_Email = ''a@b'', us_PasswordHash = ''longpassword''\<rparr>], ad_UserSeq = 1,
     ad_Tokens = [\<lparr>rt_ID = 1, rt_UserID = 1, rt_Hash = HashToken toy ''old'', rt_ExpiresAt = Unix_Ns hour, rt_UsedAt = None\<rparr>],
     ad_TokenSeq = 1\<rparr>"

lemma sample_auther_ok: "auther_ok sample_auther"
  by (simp add: auther_ok_def sample_auther_def seq_ids_def)

lemma sample_hash_fresh: "HashToken toy ''new'' \<notin> rt_Hash ` set (ad_Tokens sample_auther)"
  by (simp add: sample_auther_def HashToken_def hex_encode_inj toy_def)

lemma sample_row: "find_row rt_Hash (ad_Tokens sample_auther) (HashToken toy ''old'') = Some
    \<lparr>rt_ID = 1, rt_UserID = 1, rt_Hash = HashToken toy ''old'', rt_ExpiresAt = Unix_Ns hour, rt_UsedAt = None\<rparr>"
  by (simp add: sample_auther_def)

lemma sample_mint: "\<forall>u pair. (\<lambda>u. Inr sample_pair) u = Inr pair \<longrightarrow>
    HashToken toy (tk_Token (tp_RefreshToken pair)) \<notin> rt_Hash ` set (ad_Tokens sample_auther)"
  using sample_hash_fresh by (simp add: sample_pair_def)

lemma sample_rotation:
  "\<exists>db'. RotateRefreshToken toy (calm (Unix_Ns 0)) ''old'' (\<lambda>u. Inr sample_pair) sample_auther = (Inr sample_pair, db')"
proof -
  have "next_id (ad_TokenSeq sample_auther) = Inr 2" by (simp add: next_id_def sample_auther_def)
  from RotateRefreshToken_body [OF calm_no_faults rotate_body_live [OF calm_no_faults sample_auther_ok sample_row, where i = 2 and pair = sample_pair, OF _ _ this]]
  show ?thesis using sample_mint by (simp add: calm_in_rpc gotime_order duration_defs)
qed

theorem rotate_answers_witness:
  "\<exists>r db'. RotateRefreshToken toy (calm (Unix_Ns 0)) ''old'' (\<lambda>u. Inr sample_pair) sample_auther = (r, db') \<and>
    r = Inr sample_pair \<and> ad_Tokens db' = [new_token toy 1 sample_pair 2]"
proof -
  have "Suc (ad_TokenSeq sample_auther) < 2 ^ 63" by (simp add: sample_auther_def)
  from rotate_answers [OF calm_no_faults sample_auther_ok this sample_mint, of "Unix_Ns 0" "''old''"]
  show ?thesis
    unfolding sample_row
    by (elim exE conjE) (simp add: calm_in_rpc gotime_order duration_defs, simp add: sample_auther_def)
qed

theorem spent_token_is_refused_witness:
  "\<exists>db1. RotateRefreshToken toy (calm (Unix_Ns 0)) ''old'' (\<lambda>u. Inr sample_pair) sample_auther = (Inr sample_pair, db1) \<and>
    RotateRefreshToken toy (calm (Unix_Ns 5)) ''old'' (\<lambda>u. Inr sample_pair) db1 = (Inl (Sentinel Pg_ErrInvalidToken), db1)"
proof -
  obtain db1 where run: "RotateRefreshToken toy (calm (Unix_Ns 0)) ''old'' (\<lambda>u. Inr sample_pair) sample_auther = (Inr sample_pair, db1)"
    using sample_rotation by (rule exE)
  from spent_token_is_refused [OF sample_auther_ok run calm_no_faults] run show ?thesis by blast
qed

theorem rotation_is_atomic_witness:
  "\<exists>db'. RotateRefreshToken toy (calm (Unix_Ns 0)) ''old'' (\<lambda>u. Inr sample_pair) sample_auther = (Inr sample_pair, db') \<and>
    auther_ok db' \<and> ad_Users db' = ad_Users sample_auther"
proof -
  obtain db' where run: "RotateRefreshToken toy (calm (Unix_Ns 0)) ''old'' (\<lambda>u. Inr sample_pair) sample_auther = (Inr sample_pair, db')"
    using sample_rotation by (rule exE)
  from rotation_is_atomic [OF sample_auther_ok run] run show ?thesis by blast
qed

end
