(* ===== verification/Rotate_Race.thy ===== *)
theory Rotate_Race
  imports Auther_Store
begin

text \<open>
  Refresh-token transactions of one or many users at the same time, as Postgres runs them at its
  default isolation level (read committed). What a transaction writes is seen by others when it
  commits. \<^verbatim>\<open>SELECT ... FOR UPDATE\<close> locks the row it finds and \<^verbatim>\<open>DELETE\<close>
  locks the rows it deletes, each waiting for a row that another transaction has locked; a
  \<^verbatim>\<open>DELETE\<close> deletes the rows that it saw when it began and that are still there when it
  gets their locks.
\<close>

section \<open>Transactions\<close>

text \<open>\<^verbatim>\<open>RotateRefreshToken\<close> of a hash, and \<^verbatim>\<open>ReplaceUserRefreshTokens\<close> of a login.\<close>

datatype tx = Rotate string "int64 \<Rightarrow> go_error + token_pair" | Login int64 token_pair

text \<open>
  Where a transaction is: it has selected a live token; it has selected one that is to be
  revoked; it is deleting rows, those it has yet to lock and those it has locked; it has ended.
\<close>

datatype tx_pc =
    Begin
  | Holds token_row
  | Revokes token_row
  | Deletes "int64 list" "int64 list"
  | Rotated token_row token_pair
  | Replaced
  | Failed go_error

fun ended :: "tx_pc \<Rightarrow> bool" where
  "ended (Rotated t p) = True" | "ended Replaced = True" | "ended (Failed e) = True" | "ended pc = False"

text \<open>The statements of a rotation after its \<^verbatim>\<open>SELECT\<close>, for a live token.\<close>

definition rotate_live :: "lib \<Rightarrow> env \<Rightarrow> (int64 \<Rightarrow> go_error + token_pair) \<Rightarrow> token_row \<Rightarrow> (auther_db, go_error, token_pair) cmd" where
  "rotate_live L ev mint t =
    bind_m (mark_used (time_now ev NowMark) (rt_ID t)) (\<lambda>_.
    bind_m (of_result (mint (rt_UserID t))) (\<lambda>pair.
    bind_m (insert_token L (rt_UserID t) (HashToken L (tk_Token (tp_RefreshToken pair))) (tk_ExpiresAt (tp_RefreshToken pair))) (\<lambda>_.
    bind_m (delete_tokens (\<lambda>r. rt_UserID r = rt_UserID t \<and> rt_UsedAt r \<noteq> None)) (\<lambda>_.
    ret pair))))"

definition spent :: "env \<Rightarrow> token_row \<Rightarrow> bool" where
  "spent ev t \<longleftrightarrow> rt_UsedAt t \<noteq> None \<or> \<not> time_now ev NowRotate < rt_ExpiresAt t"

text \<open>The statements of a login: the rows it deletes, and the token it inserts.\<close>

definition replace_rows :: "lib \<Rightarrow> int64 \<Rightarrow> token_pair \<Rightarrow> int64 list \<Rightarrow> (auther_db, go_error, unit) cmd" where
  "replace_rows L u pair got =
    bind_m (delete_tokens (\<lambda>r. rt_ID r \<in> set got)) (\<lambda>_.
    insert_token L u (HashToken L (tk_Token (tp_RefreshToken pair))) (tk_ExpiresAt (tp_RefreshToken pair)))"

text \<open>Run without interruption, these are the repository's operations.\<close>

lemma rotate_uninterrupted:
  assumes "no_faults ev" and "find_row rt_Hash (ad_Tokens db) (HashToken L tok) = Some t" and "\<not> spent ev t"
    and "rotate_live L ev mint t db = (Inr pair, db')"
  shows "RotateRefreshToken L ev tok mint db = (Inr pair, db')"
proof (rule RotateRefreshToken_body [OF assms(1)])
  show "rotate_body L ev (HashToken L tok) mint db = (Inr (RotateCommit, Inr pair), db')"
    using assms by (auto simp: rotate_body_def rotate_live_def spent_def cmd_defs split: prod.splits sum.splits)
qed

lemma replace_uninterrupted:
  assumes "no_faults ev" and "replace_rows L u pair (map rt_ID (filter (\<lambda>r. rt_UserID r = u) (ad_Tokens db))) db = (Inr (), db')"
    and "auther_ok db"
  shows "ReplaceUserRefreshTokens L ev u pair db = (Inr (), db')"
proof -
  let ?p = "\<lambda>r. rt_ID r \<in> set (map rt_ID (filter (\<lambda>r. rt_UserID r = u) (ad_Tokens db)))"
  have "filter (\<lambda>r. \<not> ?p r) (ad_Tokens db) = filter (\<lambda>r. rt_UserID r \<noteq> u) (ad_Tokens db)"
    using assms(3) by (intro filter_cong refl) (auto simp: auther_ok_def seq_ids_def distinct_map dest: inj_onD)
  then have "delete_tokens ?p db = delete_tokens (\<lambda>r. rt_UserID r = u) db"
    by (simp add: delete_tokens_def)
  with assms(1,2) show ?thesis
    by (auto simp: ReplaceUserRefreshTokens_def replace_rows_def in_tx_def bind_m_def map_err_def ret_def split: prod.splits sum.splits)
qed

section \<open>Interleaving\<close>

text \<open>The committed rows, who has locked which row, and where each transaction is.\<close>

record txs =
  tx_db :: auther_db
  tx_lock :: "int64 \<Rightarrow> nat option"
  tx_at :: "nat \<Rightarrow> tx_pc"

definition free :: "txs \<Rightarrow> nat \<Rightarrow> int64 \<Rightarrow> bool" where
  "free s i x \<longleftrightarrow> tx_lock s x = None \<or> tx_lock s x = Some i"

definition unlock :: "nat \<Rightarrow> (int64 \<Rightarrow> nat option) \<Rightarrow> int64 \<Rightarrow> nat option" where
  "unlock i lock = (\<lambda>x. if lock x = Some i then None else lock x)"

definition user_ids :: "int64 \<Rightarrow> auther_db \<Rightarrow> int64 list" where
  "user_ids u db = map rt_ID (filter (\<lambda>r. rt_UserID r = u) (ad_Tokens db))"

text \<open>
  One statement of transaction \<open>i\<close>; a transaction that has made its last statement commits with
  it. Any transaction may fail (a lost connection, a deadlock that Postgres breaks): its locks go,
  its rows were never visible, the numbers it drew from the sequence stay drawn.
\<close>

inductive tx_step :: "lib \<Rightarrow> (nat \<Rightarrow> env) \<Rightarrow> (nat \<Rightarrow> tx) \<Rightarrow> txs \<Rightarrow> txs \<Rightarrow> bool"
  for L :: lib and ev :: "nat \<Rightarrow> env" and tx :: "nat \<Rightarrow> tx" where
  select_none: "tx_at s i = Begin \<Longrightarrow> tx i = Rotate h mint \<Longrightarrow> find_row rt_Hash (ad_Tokens (tx_db s)) h = None \<Longrightarrow>
    tx_step L ev tx s (s\<lparr>tx_lock := unlock i (tx_lock s), tx_at := (tx_at s)(i := Failed (Sentinel Pg_ErrInvalidToken))\<rparr>)"
| select_some: "tx_at s i = Begin \<Longrightarrow> tx i = Rotate h mint \<Longrightarrow> find_row rt_Hash (ad_Tokens (tx_db s)) h = Some t \<Longrightarrow>
    free s i (rt_ID t) \<Longrightarrow>
    tx_step L ev tx s (s\<lparr>tx_lock := (tx_lock s)(rt_ID t \<mapsto> i),
      tx_at := (tx_at s)(i := if spent (ev i) t then Revokes t else Holds t)\<rparr>)"
| rotate: "tx_at s i = Holds t \<Longrightarrow> tx i = Rotate h mint \<Longrightarrow> rotate_live L (ev i) mint t (tx_db s) = (Inr pair, db') \<Longrightarrow>
    tx_step L ev tx s (s\<lparr>tx_db := db', tx_lock := unlock i (tx_lock s), tx_at := (tx_at s)(i := Rotated t pair)\<rparr>)"
| revoke: "tx_at s i = Revokes t \<Longrightarrow>
    tx_step L ev tx s (s\<lparr>tx_at := (tx_at s)(i := Deletes (user_ids (rt_UserID t) (tx_db s)) [])\<rparr>)"
| login: "tx_at s i = Begin \<Longrightarrow> tx i = Login u pair \<Longrightarrow>
    tx_step L ev tx s (s\<lparr>tx_at := (tx_at s)(i := Deletes (user_ids u (tx_db s)) [])\<rparr>)"
| lock_row: "tx_at s i = Deletes (x # xs) got \<Longrightarrow> x \<in> rt_ID ` set (ad_Tokens (tx_db s)) \<Longrightarrow> free s i x \<Longrightarrow>
    tx_step L ev tx s (s\<lparr>tx_lock := (tx_lock s)(x \<mapsto> i), tx_at := (tx_at s)(i := Deletes xs (x # got))\<rparr>)"
| skip_row: "tx_at s i = Deletes (x # xs) got \<Longrightarrow> x \<notin> rt_ID ` set (ad_Tokens (tx_db s)) \<Longrightarrow>
    tx_step L ev tx s (s\<lparr>tx_at := (tx_at s)(i := Deletes xs got)\<rparr>)"
| revoked: "tx_at s i = Deletes [] got \<Longrightarrow> tx i = Rotate h mint \<Longrightarrow>
    delete_tokens (\<lambda>r. rt_ID r \<in> set got) (tx_db s) = (Inr (), db') \<Longrightarrow>
    tx_step L ev tx s (s\<lparr>tx_db := db', tx_lock := unlock i (tx_lock s),
      tx_at := (tx_at s)(i := Failed (Sentinel Pg_ErrInvalidToken))\<rparr>)"
| replaced: "tx_at s i = Deletes [] got \<Longrightarrow> tx i = Login u pair \<Longrightarrow> replace_rows L u pair got (tx_db s) = (Inr (), db') \<Longrightarrow>
    tx_step L ev tx s (s\<lparr>tx_db := db', tx_lock := unlock i (tx_lock s), tx_at := (tx_at s)(i := Replaced)\<rparr>)"
| fails: "\<not> ended (tx_at s i) \<Longrightarrow> ad_TokenSeq (tx_db s) \<le> n \<Longrightarrow> n < 2 ^ 63 \<Longrightarrow>
    tx_step L ev tx s (s\<lparr>tx_db := (tx_db s)\<lparr>ad_TokenSeq := n\<rparr>, tx_lock := unlock i (tx_lock s),
      tx_at := (tx_at s)(i := Failed (LibErr m))\<rparr>)"

definition begun :: "auther_db \<Rightarrow> txs" where
  "begun db = \<lparr>tx_db = db, tx_lock = Map.empty, tx_at = (\<lambda>_. Begin)\<rparr>"

abbreviation tx_reach :: "lib \<Rightarrow> (nat \<Rightarrow> env) \<Rightarrow> (nat \<Rightarrow> tx) \<Rightarrow> auther_db \<Rightarrow> txs \<Rightarrow> bool" where
  "tx_reach L ev tx db0 s \<equiv> (tx_step L ev tx)\<^sup>*\<^sup>* (begun db0) s"

section \<open>The invariant\<close>

text \<open>What the place of a transaction says about the rows and locks.\<close>

fun at_ok :: "nat \<Rightarrow> auther_db \<Rightarrow> (int64 \<Rightarrow> nat option) \<Rightarrow> tx_pc \<Rightarrow> bool" where
  "at_ok i db lock (Holds t) = (t \<in> set (ad_Tokens db) \<and> lock (rt_ID t) = Some i)"
| "at_ok i db lock (Revokes t) = (t \<in> set (ad_Tokens db) \<and> lock (rt_ID t) = Some i)"
| "at_ok i db lock (Deletes xs got) = (\<forall>x\<in>set got. lock x = Some i)"
| "at_ok i db lock (Rotated t pair) = (rt_ID t \<notin> rt_ID ` set (ad_Tokens db) \<and> unat (rt_ID t) \<le> ad_TokenSeq db)"
| "at_ok i db lock pc = True"

definition exchanged_once :: "(nat \<Rightarrow> tx_pc) \<Rightarrow> bool" where
  "exchanged_once at \<longleftrightarrow> (\<forall>i j t t' p p'. at i = Rotated t p \<longrightarrow> at j = Rotated t' p' \<longrightarrow> rt_ID t = rt_ID t' \<longrightarrow> i = j)"

definition txs_ok :: "txs \<Rightarrow> bool" where
  "txs_ok s \<longleftrightarrow> auther_ok (tx_db s) \<and> (\<forall>i. at_ok i (tx_db s) (tx_lock s) (tx_at s i)) \<and> exchanged_once (tx_at s)"

text \<open>
  What a step of transaction \<open>i\<close> may do to the rows: remove those it has locked, and add ones
  with new ids.
\<close>

definition changes :: "nat \<Rightarrow> (int64 \<Rightarrow> nat option) \<Rightarrow> auther_db \<Rightarrow> auther_db \<Rightarrow> bool" where
  "changes i lock db db' \<longleftrightarrow> auther_ok db' \<and> ad_TokenSeq db \<le> ad_TokenSeq db' \<and>
    (\<forall>r\<in>set (ad_Tokens db'). r \<in> set (ad_Tokens db) \<or> ad_TokenSeq db < unat (rt_ID r)) \<and>
    (\<forall>r\<in>set (ad_Tokens db). r \<in> set (ad_Tokens db') \<or> lock (rt_ID r) = Some i)"

lemma changes_refl: "auther_ok db \<Longrightarrow> changes i lock db db"
  by (simp add: changes_def)

lemma at_ok_other:
  assumes "at_ok j db lock pc" and "changes i lock db db'" and "j \<noteq> i" and "\<And>x. lock x = Some j \<Longrightarrow> lock' x = Some j"
  shows "at_ok j db' lock' pc"
  using assms by (cases pc) (fastforce simp: changes_def)+

lemma exchanged_once_update:
  assumes "\<And>t j t' p p'. pc' = Rotated t p \<Longrightarrow> at j = Rotated t' p' \<Longrightarrow> rt_ID t \<noteq> rt_ID t'" and "exchanged_once at"
  shows "exchanged_once (at(i := pc'))"
  unfolding exchanged_once_def
proof (intro allI impI)
  fix a b t t' p p'
  assume at: "(at(i := pc')) a = Rotated t p" "(at(i := pc')) b = Rotated t' p'" and same: "rt_ID t = rt_ID t'"
  show "a = b"
  proof (cases "a = i")
    case a: True
    show ?thesis
    proof (rule ccontr)
      assume "a \<noteq> b"
      with a at have "pc' = Rotated t p" "at b = Rotated t' p'" by auto
      from assms(1) [OF this] same show False by contradiction
    qed
  next
    case a: False
    then have aa: "at a = Rotated t p" using at(1) by simp
    show ?thesis
    proof (cases "b = i")
      case True
      then have "pc' = Rotated t' p'" using at(2) by simp
      from assms(1) [OF this aa] same show ?thesis by simp
    next
      case False
      then have "at b = Rotated t' p'" using at(2) by simp
      with assms(2) aa same show ?thesis unfolding exchanged_once_def by blast
    qed
  qed
qed

lemma txs_ok_step:
  assumes "txs_ok s" and "changes i (tx_lock s) (tx_db s) db'" and "\<And>j x. j \<noteq> i \<Longrightarrow> tx_lock s x = Some j \<Longrightarrow> lock' x = Some j"
    and "at_ok i db' lock' pc'" and "\<And>t p. pc' = Rotated t p \<Longrightarrow> t \<in> set (ad_Tokens (tx_db s))"
    and "\<not> ended (tx_at s i)"
  shows "txs_ok (s\<lparr>tx_db := db', tx_lock := lock', tx_at := (tx_at s)(i := pc')\<rparr>)"
proof -
  have others: "at_ok j db' lock' (tx_at s j)" if "j \<noteq> i" for j
    by (rule at_ok_other [OF _ assms(2) that assms(3) [OF that]]) (use assms(1) in \<open>simp_all add: txs_ok_def\<close>)
  have "rt_ID t \<noteq> rt_ID t'" if "pc' = Rotated t p" and "tx_at s j = Rotated t' p'" for j t t' p p'
  proof -
    have "at_ok j (tx_db s) (tx_lock s) (tx_at s j)" using assms(1) by (simp add: txs_ok_def)
    with that(2) have "rt_ID t' \<notin> rt_ID ` set (ad_Tokens (tx_db s))" by simp
    with imageI [OF assms(5) [OF that(1)], of rt_ID] show ?thesis by metis
  qed
  moreover have "exchanged_once (tx_at s)" using assms(1) by (simp add: txs_ok_def)
  ultimately have "exchanged_once ((tx_at s)(i := pc'))" by (intro exchanged_once_update)
  with others assms(2,4) show ?thesis by (simp add: txs_ok_def changes_def)
qed

lemma txs_ok_step_rows:
  assumes "txs_ok s" and "\<And>j x. j \<noteq> i \<Longrightarrow> tx_lock s x = Some j \<Longrightarrow> lock' x = Some j"
    and "at_ok i (tx_db s) lock' pc'" and "\<And>t p. pc' \<noteq> Rotated t p" and "\<not> ended (tx_at s i)"
  shows "txs_ok (s\<lparr>tx_lock := lock', tx_at := (tx_at s)(i := pc')\<rparr>)"
proof -
  have "changes i (tx_lock s) (tx_db s) (tx_db s)"
    using assms(1) by (simp add: txs_ok_def changes_refl)
  from txs_ok_step [OF assms(1) this assms(2,3) _ assms(5)] assms(4) show ?thesis by (cases s) simp
qed

lemma txs_ok_step_at:
  assumes "txs_ok s" and "at_ok i (tx_db s) (tx_lock s) pc'" and "\<And>t p. pc' \<noteq> Rotated t p" and "\<not> ended (tx_at s i)"
  shows "txs_ok (s\<lparr>tx_at := (tx_at s)(i := pc')\<rparr>)"
  using txs_ok_step_rows [OF assms(1) _ assms(2-4)] by (cases s) simp

section \<open>Every statement keeps it\<close>

lemma locked_rows:
  assumes "auther_ok db" and "t \<in> set (ad_Tokens db)"
  shows "find_row rt_Hash (ad_Tokens db) (rt_Hash t) = Some t"
    and "r \<in> set (ad_Tokens db) \<Longrightarrow> rt_Hash r = rt_Hash t \<longleftrightarrow> r = t"
proof -
  have inj: "inj_on rt_Hash (set (ad_Tokens db))" "unique_keys rt_Hash (ad_Tokens db)"
    using assms(1) by (simp_all add: auther_ok_def unique_keys_def distinct_map)
  show "find_row rt_Hash (ad_Tokens db) (rt_Hash t) = Some t"
    using find_row_Some_iff [OF inj(2)] assms(2) by simp
  show "r \<in> set (ad_Tokens db) \<Longrightarrow> rt_Hash r = rt_Hash t \<longleftrightarrow> r = t"
    using inj_onD [OF inj(1)] assms(2) by auto
qed

lemma rotate_live_InrD:
  assumes "rotate_live L ev mint t db = (Inr pair, db')" and "auther_ok db" and "t \<in> set (ad_Tokens db)"
  obtains i where "mint (rt_UserID t) = Inr pair" and "next_id (ad_TokenSeq db) = Inr i"
    and "HashToken L (tk_Token (tp_RefreshToken pair)) \<notin> rt_Hash ` set (ad_Tokens db)"
    and "db' = rotated L (rt_Hash t) t pair i db"
proof -
  from assms(1) obtain m db1 y db2 z where pair: "mint (rt_UserID t) = Inr pair"
    and steps: "mark_used (time_now ev NowMark) (rt_ID t) db = (Inr m, db1)"
      "insert_token L (rt_UserID t) (HashToken L (tk_Token (tp_RefreshToken pair))) (tk_ExpiresAt (tp_RefreshToken pair)) db1 = (Inr y, db2)"
      "delete_tokens (\<lambda>r. rt_UserID r = rt_UserID t \<and> rt_UsedAt r \<noteq> None) db2 = (Inr z, db')"
    by (auto simp: rotate_live_def of_result_def ret_def elim!: bind_m_InrE)
  from rotate_live_effect [OF assms(2) locked_rows(1) [OF assms(2,3)] steps] pair show thesis
    by (elim exE conjE) (rule that)
qed

lemma rotate_changes:
  assumes "rotate_live L ev mint t db = (Inr pair, db')" and "auther_ok db" and "t \<in> set (ad_Tokens db)" and "lock (rt_ID t) = Some i"
  shows "changes i lock db db'" and "rt_ID t \<notin> rt_ID ` set (ad_Tokens db')" and "unat (rt_ID t) \<le> ad_TokenSeq db'"
proof -
  from rotate_live_InrD [OF assms(1-3)] obtain n where n: "next_id (ad_TokenSeq db) = Inr n"
    and fresh: "HashToken L (tk_Token (tp_RefreshToken pair)) \<notin> rt_Hash ` set (ad_Tokens db)"
    and db': "db' = rotated L (rt_Hash t) t pair n db" by metis
  note row = locked_rows(1) [OF assms(2,3)]
  have seq: "unat (rt_ID r) \<le> ad_TokenSeq db" if "r \<in> set (ad_Tokens db)" for r
    using that assms(2) by (auto simp: auther_ok_def seq_ids_def)
  have id: "unat (rt_ID (new_token L (rt_UserID t) pair n)) = Suc (ad_TokenSeq db)"
    by (simp add: new_token_def next_id_InrD(1) [OF n])
  have "auther_ok db'" unfolding db' by (rule auther_ok_rotated [OF assms(2) row n fresh])
  then show "changes i lock db db'"
    using id assms(4) locked_rows(2) [OF assms(2,3)] by (auto simp: changes_def db' rotated_def)
  show "unat (rt_ID t) \<le> ad_TokenSeq db'" using seq [OF assms(3)] by (simp add: db' rotated_def)
  show "rt_ID t \<notin> rt_ID ` set (ad_Tokens db')"
    using id seq [OF assms(3)] find_row_hash_unique [OF assms(2) row]
    by (auto simp: db' rotated_def) (metis Suc_n_not_le_n)
qed

lemma delete_changes:
  assumes "auther_ok db" and "\<And>r. r \<in> set (ad_Tokens db) \<Longrightarrow> p r \<Longrightarrow> lock (rt_ID r) = Some i"
  shows "changes i lock db (db\<lparr>ad_Tokens := filter (\<lambda>r. \<not> p r) (ad_Tokens db)\<rparr>)"
  using assms by (auto simp: changes_def auther_ok_filter)

lemma insert_changes:
  assumes "changes i lock db mid" and "ad_TokenSeq mid = ad_TokenSeq db" and "insert_token L u h x mid = (Inr y, db')"
  shows "changes i lock db db'"
proof -
  from assms(3) obtain n where n: "next_id (ad_TokenSeq mid) = Inr n" "h \<notin> rt_Hash ` set (ad_Tokens mid)"
    "u \<in> us_ID ` set (ad_Users mid)"
    and db': "db' = mid\<lparr>ad_TokenSeq := Suc (ad_TokenSeq mid), ad_Tokens := ad_Tokens mid @
      [\<lparr>rt_ID = n, rt_UserID = u, rt_Hash = h, rt_ExpiresAt = pg_timestamptz L x, rt_UsedAt = None\<rparr>]\<rparr>"
    by (rule insert_token_InrD)
  have "auther_ok mid" using assms(1) by (simp add: changes_def)
  from auther_ok_insert_token [OF this n] have "auther_ok db'" unfolding db' .
  with assms(1,2) next_id_InrD(1) [OF n(1)] show ?thesis by (auto simp: changes_def db')
qed

lemma replace_changes:
  assumes "replace_rows L u pair got db = (Inr (), db')" and "auther_ok db" and "\<forall>x\<in>set got. lock x = Some i"
  shows "changes i lock db db'"
proof -
  let ?mid = "db\<lparr>ad_Tokens := filter (\<lambda>r. \<not> rt_ID r \<in> set got) (ad_Tokens db)\<rparr>"
  have "insert_token L u (HashToken L (tk_Token (tp_RefreshToken pair))) (tk_ExpiresAt (tp_RefreshToken pair)) ?mid = (Inr (), db')"
    using assms(1) by (auto simp: replace_rows_def delete_tokens_def bind_m_def)
  moreover have "changes i lock db ?mid" by (rule delete_changes [OF assms(2)]) (simp add: assms(3))
  ultimately show ?thesis
    by - (rule insert_changes [of i lock db ?mid], assumption, simp, assumption)
qed

lemma seq_changes:
  assumes "auther_ok db" and "ad_TokenSeq db \<le> n" and "n < 2 ^ 63"
  shows "changes i lock db (db\<lparr>ad_TokenSeq := n\<rparr>)"
proof -
  have "ad_UserSeq db < 2 ^ 63" using assms(1) by (simp add: auther_ok_def seq_ids_def)
  from auther_ok_seqs [OF assms(1) order_refl this assms(2,3)] show ?thesis
    using assms(2) by (simp add: changes_def)
qed

lemma keeps_locks:
  "j \<noteq> i \<Longrightarrow> lock x = Some j \<Longrightarrow> unlock i lock x = Some j"
  by (simp add: unlock_def)

lemma takes_lock:
  "j \<noteq> i \<Longrightarrow> lock x = Some j \<Longrightarrow> lock y = None \<or> lock y = Some i \<Longrightarrow> (lock(y \<mapsto> i)) x = Some j"
  by auto

lemma txs_ok_parts:
  assumes "txs_ok s"
  shows "auther_ok (tx_db s)" and "at_ok i (tx_db s) (tx_lock s) (tx_at s i)"
  using assms by (simp_all add: txs_ok_def)

lemma tx_step_ok:
  assumes "tx_step L ev tx s s'" and "txs_ok s"
  shows "txs_ok s'"
  using assms(1)
proof cases
  note ok = txs_ok_parts [OF assms(2)]
  note step = txs_ok_step [OF assms(2)] and rows = txs_ok_step_rows [OF assms(2)] and stay = txs_ok_step_at [OF assms(2)]
  {
    case (select_none i h mint)
    then show ?thesis unfolding select_none(1)
      by (intro rows) (simp_all add: keeps_locks)
  next
    case (select_some i h mint t)
    then show ?thesis unfolding select_some(1)
      by (intro rows) (auto simp: free_def find_row_in_set split: if_splits)
  next
    case (rotate i t h mint pair db')
    have "t \<in> set (ad_Tokens (tx_db s)) \<and> tx_lock s (rt_ID t) = Some i" using ok(2) [of i] rotate(2) by simp
    then have t: "t \<in> set (ad_Tokens (tx_db s))" "tx_lock s (rt_ID t) = Some i" by simp_all
    note eff = rotate_changes [where lock = "tx_lock s" and i = i, OF rotate(4) ok(1) t]
    show ?thesis unfolding rotate(1)
      by (rule step [OF eff(1)]) (use t eff(2,3) rotate(2) in \<open>auto simp: keeps_locks\<close>)
  next
    case (revoke i t)
    then show ?thesis unfolding revoke(1)
      by (intro stay) simp_all
  next
    case (login i u pair)
    then show ?thesis unfolding login(1)
      by (intro stay) simp_all
  next
    case (lock_row i x xs got)
    then show ?thesis unfolding lock_row(1)
      using ok(2) [of i] by (intro rows) (auto simp: free_def)
  next
    case (skip_row i x xs got)
    then show ?thesis unfolding skip_row(1)
      using ok(2) [of i] by (intro stay) simp_all
  next
    case (revoked i got h mint db')
    have "changes i (tx_lock s) (tx_db s) db'"
      using delete_changes [OF ok(1), of "\<lambda>r. rt_ID r \<in> set got" "tx_lock s" i] ok(2) [of i] revoked(2,4)
      by (simp add: delete_tokens_def)
    then show ?thesis unfolding revoked(1) by (rule step) (use revoked(2) in \<open>simp_all add: keeps_locks\<close>)
  next
    case (replaced i got u pair db')
    have "changes i (tx_lock s) (tx_db s) db'"
      by (rule replace_changes [OF replaced(4) ok(1)]) (use ok(2) [of i] replaced(2) in simp)
    then show ?thesis unfolding replaced(1) by (rule step) (use replaced(2) in \<open>simp_all add: keeps_locks\<close>)
  next
    case (fails i n m)
    show ?thesis unfolding fails(1)
      by (rule step [OF seq_changes [OF ok(1) fails(3,4)]]) (use fails(2) in \<open>simp_all add: keeps_locks\<close>)
  }
qed

lemma txs_reach_ok:
  assumes "tx_reach L ev tx db0 s" and "auther_ok db0"
  shows "txs_ok s"
  using assms(1)
proof (induction rule: rtranclp_induct)
  case base
  then show ?case using assms(2) by (simp add: txs_ok_def begun_def exchanged_once_def)
next
  case (step s s')
  then show ?case using tx_step_ok by blast
qed

section \<open>Whom a pair is for\<close>

text \<open>A transaction holds the row of the hash it was given, and answers what was minted for its user.\<close>

fun for_tx :: "env \<Rightarrow> tx \<Rightarrow> tx_pc \<Rightarrow> bool" where
  "for_tx ev (Rotate h mint) (Holds t) = (rt_Hash t = h \<and> \<not> spent ev t)"
| "for_tx ev (Rotate h mint) (Rotated t pair) = (rt_Hash t = h \<and> \<not> spent ev t \<and> mint (rt_UserID t) = Inr pair)"
| "for_tx ev (Login u p) (Rotated t pair) = False"
| "for_tx ev x pc = True"

lemma rotate_live_mint:
  "rotate_live L ev mint t db = (Inr pair, db') \<Longrightarrow> mint (rt_UserID t) = Inr pair"
  by (auto simp: rotate_live_def of_result_def ret_def elim!: bind_m_InrE)

lemma tx_step_for:
  assumes "tx_step L ev tx s s'" and "\<forall>i. for_tx (ev i) (tx i) (tx_at s i)"
  shows "\<forall>i. for_tx (ev i) (tx i) (tx_at s' i)"
  using assms(1)
proof cases
  case (rotate i t h mint pair db')
  with assms(2) [rule_format, of i] rotate_live_mint [OF rotate(4)] assms(2) show ?thesis by simp
next
  case (select_some i h mint t)
  with assms(2) find_row_key [OF select_some(4)] show ?thesis by simp
qed (use assms(2) in simp_all)

lemma txs_reach_for:
  assumes "tx_reach L ev tx db0 s"
  shows "for_tx (ev i) (tx i) (tx_at s i)"
proof -
  have "\<forall>i. for_tx (ev i) (tx i) (tx_at s i)"
    using assms
  proof (induction rule: rtranclp_induct)
    case base
    have "for_tx e x Begin" for e x by (cases x) simp_all
    then show ?case by (simp add: begun_def)
  next
    case (step s s')
    from step(2,3) show ?case by (rule tx_step_for)
  qed
  then show ?thesis ..
qed

text \<open>
  C15: However the transactions of any number of clients interleave and fail, no refresh token is
  exchanged twice. A rotation that was answered with a pair had presented a stored token that
  was neither used nor expired, the pair was minted for that token's user, the token is gone, and
  no other rotation was answered for it; the tables stay well-formed.
\<close>

theorem token_exchanged_once:
  assumes "auther_ok db0" and "tx_reach L ev tx db0 s"
    and "tx_at s i = Rotated t pair" and "tx i = Rotate h mint"
  shows "auther_ok (tx_db s) \<and> rt_Hash t = h \<and> \<not> spent (ev i) t \<and> mint (rt_UserID t) = Inr pair \<and>
    rt_ID t \<notin> rt_ID ` set (ad_Tokens (tx_db s)) \<and>
    (\<forall>j t' pair'. tx_at s j = Rotated t' pair' \<and> rt_ID t' = rt_ID t \<longrightarrow> j = i)"
proof -
  have ok: "txs_ok s" by (rule txs_reach_ok [OF assms(2,1)])
  have once: "exchanged_once (tx_at s)" using ok by (simp add: txs_ok_def)
  have "\<forall>j t' pair'. tx_at s j = Rotated t' pair' \<and> rt_ID t' = rt_ID t \<longrightarrow> j = i"
    using once assms(3) unfolding exchanged_once_def by blast
  moreover have "for_tx (ev i) (Rotate h mint) (Rotated t pair)"
    using txs_reach_for [OF assms(2), of i] assms(3,4) by simp
  moreover have "at_ok i (tx_db s) (tx_lock s) (Rotated t pair)"
    using txs_ok_parts(2) [OF ok, of i] assms(3) by simp
  ultimately show ?thesis using txs_ok_parts(1) [OF ok] by simp
qed

section \<open>A login beside a rotation\<close>

lemma delete_runs:
  assumes "tx_at s i = Deletes xs got" and "\<And>x. free s i x"
  shows "\<exists>lock got'. set got' \<subseteq> set got \<union> set xs \<and>
    (tx_step L ev tx)\<^sup>*\<^sup>* s (s\<lparr>tx_lock := lock, tx_at := (tx_at s)(i := Deletes [] got')\<rparr>)"
  using assms
proof (induction xs arbitrary: s got)
  case Nil
  then have "s\<lparr>tx_lock := tx_lock s, tx_at := (tx_at s)(i := Deletes [] got)\<rparr> = s"
    by (cases s) auto
  then have "(tx_step L ev tx)\<^sup>*\<^sup>* s (s\<lparr>tx_lock := tx_lock s, tx_at := (tx_at s)(i := Deletes [] got)\<rparr>)"
    by (simp only: rtranclp.rtrancl_refl)
  then show ?case by - (rule exI [of _ "tx_lock s"], rule exI [of _ got], rule conjI, simp, assumption)
next
  case (Cons x xs)
  show ?case
  proof (cases "x \<in> rt_ID ` set (ad_Tokens (tx_db s))")
    case True
    let ?s = "s\<lparr>tx_lock := (tx_lock s)(x \<mapsto> i), tx_at := (tx_at s)(i := Deletes xs (x # got))\<rparr>"
    have one: "tx_step L ev tx s ?s" by (rule lock_row [OF Cons.prems(1) True Cons.prems(2)])
    have free: "\<And>y. free ?s i y" using Cons.prems(2) by (simp add: free_def)
    have "tx_at ?s i = Deletes xs (x # got)" by simp
    from Cons.IH [OF this free] obtain lock got' where got: "set got' \<subseteq> set (x # got) \<union> set xs"
      and more: "(tx_step L ev tx)\<^sup>*\<^sup>* ?s (?s\<lparr>tx_lock := lock, tx_at := (tx_at ?s)(i := Deletes [] got')\<rparr>)"
      by (elim exE conjE)
    from converse_rtranclp_into_rtranclp [of "tx_step L ev tx", OF one more] got show ?thesis
      by (intro exI [of _ lock] exI [of _ got']) (simp del: fun_upd_apply)
  next
    case False
    let ?s = "s\<lparr>tx_at := (tx_at s)(i := Deletes xs got)\<rparr>"
    have one: "tx_step L ev tx s ?s" by (rule skip_row [OF Cons.prems(1) False])
    have free: "\<And>y. free ?s i y" using Cons.prems(2) by (simp add: free_def)
    have "tx_at ?s i = Deletes xs got" by simp
    from Cons.IH [OF this free] obtain lock got' where got: "set got' \<subseteq> set got \<union> set xs"
      and more: "(tx_step L ev tx)\<^sup>*\<^sup>* ?s (?s\<lparr>tx_lock := lock, tx_at := (tx_at ?s)(i := Deletes [] got')\<rparr>)"
      by (elim exE conjE)
    from converse_rtranclp_into_rtranclp [of "tx_step L ev tx", OF one more] got show ?thesis
      by (intro exI [of _ lock] exI [of _ got']) (auto simp del: fun_upd_apply)
  qed
qed

lemma user_ids_old:
  assumes "auther_ok db" and "next_id (ad_TokenSeq db) = Inr n"
  shows "n \<notin> set (user_ids u db)"
proof -
  have "unat x \<le> ad_TokenSeq db" if "x \<in> set (user_ids u db)" for x
    using that assms(1) by (auto simp: user_ids_def auther_ok_def seq_ids_def)
  then show ?thesis using next_id_InrD(1) [OF assms(2)] by fastforce
qed

lemma replace_rows_after:
  assumes "insert_token L u (HashToken L (tk_Token (tp_RefreshToken pair))) (tk_ExpiresAt (tp_RefreshToken pair)) db = (Inr y, db')"
  obtains db2 n where "replace_rows L u pair got db = (Inr (), db2)"
    and "ad_Tokens db2 = filter (\<lambda>r. rt_ID r \<notin> set got) (ad_Tokens db) @ [new_token L u pair n]"
proof -
  let ?mid = "db\<lparr>ad_Tokens := filter (\<lambda>r. rt_ID r \<notin> set got) (ad_Tokens db)\<rparr>"
  from assms obtain n where n: "next_id (ad_TokenSeq db) = Inr n"
    "HashToken L (tk_Token (tp_RefreshToken pair)) \<notin> rt_Hash ` set (ad_Tokens db)" "u \<in> us_ID ` set (ad_Users db)"
    by (rule insert_token_InrD)
  then have "HashToken L (tk_Token (tp_RefreshToken pair)) \<notin> rt_Hash ` set (ad_Tokens ?mid)" by auto
  with n have "insert_token L u (HashToken L (tk_Token (tp_RefreshToken pair))) (tk_ExpiresAt (tp_RefreshToken pair)) ?mid
    = (Inr (), ?mid\<lparr>ad_TokenSeq := Suc (ad_TokenSeq ?mid), ad_Tokens := ad_Tokens ?mid @ [new_token L u pair n]\<rparr>)"
    by (simp only: insert_token_def new_token_def) simp
  then have "replace_rows L u pair got db
    = (Inr (), ?mid\<lparr>ad_TokenSeq := Suc (ad_TokenSeq ?mid), ad_Tokens := ad_Tokens ?mid @ [new_token L u pair n]\<rparr>)"
    by (simp add: replace_rows_def delete_tokens_def bind_m_def)
  then show thesis by (rule that) simp
qed

lemma login_beside_rotation:
  assumes ok: "auther_ok db" and row: "find_row rt_Hash (ad_Tokens db) h = Some t" and live: "\<not> spent (ev 0) t"
    and rot: "rotate_live L (ev 0) mint t db = (Inr pair, db1)"
    and ins: "insert_token L (rt_UserID t) (HashToken L (tk_Token (tp_RefreshToken pair2))) (tk_ExpiresAt (tp_RefreshToken pair2)) db1 = (Inr y, db2)"
    and tx: "tx 0 = Rotate h mint" "tx 1 = Login (rt_UserID t) pair2"
  obtains s n m where "tx_reach L ev tx db s" and "tx_at s 0 = Rotated t pair" and "tx_at s 1 = Replaced"
    and "new_token L (rt_UserID t) pair n \<in> set (ad_Tokens (tx_db s))"
    and "new_token L (rt_UserID t) pair2 m \<in> set (ad_Tokens (tx_db s))"
proof -
  let ?u = "rt_UserID t" and ?step = "tx_step L ev tx"
  note t = find_row_in_set [OF row] find_row_key [OF row]
  from rotate_live_InrD [OF rot ok t(1)] obtain n where n: "next_id (ad_TokenSeq db) = Inr n"
    and db1: "db1 = rotated L (rt_Hash t) t pair n db" by metis
  let ?s1 = "(begun db)\<lparr>tx_lock := [rt_ID t \<mapsto> 0], tx_at := (\<lambda>_. Begin)(0 := Holds t)\<rparr>"
  let ?s2 = "?s1\<lparr>tx_at := (\<lambda>_. Begin)(0 := Holds t, 1 := Deletes (user_ids ?u db) [])\<rparr>"
  let ?s3 = "\<lparr>tx_db = db1, tx_lock = Map.empty, tx_at = (\<lambda>_. Begin)(0 := Rotated t pair, 1 := Deletes (user_ids ?u db) [])\<rparr>"
  have "?step (begun db) ?s1"
    using select_some [of "begun db" 0 tx h mint t L ev] tx(1) row live by (simp add: begun_def free_def)
  moreover have "?step ?s1 ?s2"
    using login [of ?s1 1 tx ?u pair2 L ev] tx(2) by (simp add: begun_def fun_upd_twist)
  moreover have "?step ?s2 ?s3"
  proof -
    have "unlock 0 [rt_ID t \<mapsto> 0] = Map.empty" by (auto simp: unlock_def)
    moreover have "(\<lambda>_. Begin)(0 :: nat := Rotated t pair, 1 := Deletes (user_ids ?u db) [])
      = ((\<lambda>_. Begin)(0 := Holds t, 1 := Deletes (user_ids ?u db) []))(0 := Rotated t pair)"
      by (simp add: fun_eq_iff)
    ultimately show ?thesis
      using rotate [of ?s2 0 t tx h mint L ev pair db1] tx(1) rot by (simp add: begun_def)
  qed
  ultimately have s3: "?step\<^sup>*\<^sup>* (begun db) ?s3"
    by (meson converse_rtranclp_into_rtranclp r_into_rtranclp)
  have "tx_at ?s3 1 = Deletes (user_ids ?u db) []" "\<And>x. free ?s3 1 x" by (simp_all add: free_def)
  from delete_runs [OF this, of L ev tx] obtain lock got where got: "set got \<subseteq> set (user_ids ?u db)"
    and s4: "?step\<^sup>*\<^sup>* ?s3 (?s3\<lparr>tx_lock := lock, tx_at := (tx_at ?s3)(1 := Deletes [] got)\<rparr>)" by auto
  from ins obtain db3 m where rep: "replace_rows L ?u pair2 got db1 = (Inr (), db3)"
    and rows: "ad_Tokens db3 = filter (\<lambda>r. rt_ID r \<notin> set got) (ad_Tokens db1) @ [new_token L ?u pair2 m]"
    by (rule replace_rows_after)
  let ?s5 = "\<lparr>tx_db = db3, tx_lock = unlock 1 lock, tx_at = (\<lambda>_. Begin)(0 := Rotated t pair, 1 := Replaced)\<rparr>"
  have "?step (?s3\<lparr>tx_lock := lock, tx_at := (tx_at ?s3)(1 := Deletes [] got)\<rparr>) ?s5"
    using replaced [of "?s3\<lparr>tx_lock := lock, tx_at := (tx_at ?s3)(1 := Deletes [] got)\<rparr>" 1 got tx ?u pair2 L db3 ev] rep tx(2)
    by simp
  with s3 s4 have "tx_reach L ev tx db ?s5" by (meson rtranclp.rtrancl_into_rtrancl rtranclp_trans)
  moreover have "new_token L ?u pair n \<in> set (ad_Tokens db3)"
  proof -
    have "n \<notin> set got" using got user_ids_old [OF ok n, of ?u] by auto
    then show ?thesis by (simp add: rows db1 rotated_def new_token_def)
  qed
  ultimately show thesis by (intro that [of ?s5 n m]) (simp_all add: rows)
qed


section \<open>A concrete race\<close>

definition sample_token :: token_row where
  "sample_token = \<lparr>rt_ID = 1, rt_UserID = 1, rt_Hash = HashToken toy ''old'', rt_ExpiresAt = Unix_Ns hour, rt_UsedAt = None\<rparr>"

definition other_pair :: token_pair where
  "other_pair = \<lparr>tp_AccessToken = \<lparr>tk_Token = ''b'', tk_ExpiresAt = Unix_Ns minute\<rparr>,
     tp_RefreshToken = \<lparr>tk_Token = ''other'', tk_ExpiresAt = Unix_Ns hour\<rparr>\<rparr>"

definition sample_txs :: "nat \<Rightarrow> tx" where
  "sample_txs i = (if i = 0 then Rotate (HashToken toy ''old'') (\<lambda>_. Inr sample_pair) else Login 1 other_pair)"

definition after_rotation :: auther_db where
  "after_rotation = rotated toy (HashToken toy ''old'') sample_token sample_pair 2 sample_auther"

lemma sample_token_row: "find_row rt_Hash (ad_Tokens sample_auther) (HashToken toy ''old'') = Some sample_token"
  using sample_row by (simp add: sample_token_def)

lemma sample_token_live: "\<not> spent (calm (Unix_Ns 0)) sample_token"
  by (simp add: spent_def sample_token_def calm_in_rpc gotime_order duration_defs)

lemma hashes_differ: "HashToken toy ''new'' \<noteq> HashToken toy ''old''" "HashToken toy ''other'' \<noteq> HashToken toy ''old''"
  "HashToken toy ''other'' \<noteq> HashToken toy ''new''"
  by (simp_all add: HashToken_def hex_encode_inj toy_def)

lemma sample_live_rotation:
  "rotate_live toy (calm (Unix_Ns 0)) (\<lambda>_. Inr sample_pair) sample_token sample_auther = (Inr sample_pair, after_rotation)"
  using hashes_differ
  by (simp add: rotate_live_def cmd_defs mark_used_def insert_token_def delete_tokens_def of_result_def sample_token_def sample_auther_def
      update_where_def next_id_def sample_pair_def after_rotation_def rotated_def new_token_def)

lemma sample_insert:
  "\<exists>db2. insert_token toy (rt_UserID sample_token) (HashToken toy (tk_Token (tp_RefreshToken other_pair))) (tk_ExpiresAt (tp_RefreshToken other_pair))
    after_rotation = (Inr (), db2)"
  using hashes_differ
  by (simp add: insert_token_def after_rotation_def rotated_def new_token_def sample_token_def sample_auther_def other_pair_def sample_pair_def next_id_def)

lemma sample_txs_at: "sample_txs 0 = Rotate (HashToken toy ''old'') (\<lambda>_. Inr sample_pair)" "sample_txs 1 = Login (rt_UserID sample_token) other_pair"
  by (simp_all add: sample_txs_def sample_token_def)


theorem token_exchanged_once_witness:
  "\<exists>s :: txs. tx_at s 0 = Rotated sample_token sample_pair \<and> auther_ok (tx_db s) \<and> 1 \<notin> rt_ID ` set (ad_Tokens (tx_db s))"
proof -
  obtain db2 where "insert_token toy (rt_UserID sample_token) (HashToken toy (tk_Token (tp_RefreshToken other_pair))) (tk_ExpiresAt (tp_RefreshToken other_pair))
    after_rotation = (Inr (), db2)" using sample_insert by (rule exE)
  then obtain s where "tx_reach toy (\<lambda>_. calm (Unix_Ns 0)) sample_txs sample_auther s" and at: "tx_at s 0 = Rotated sample_token sample_pair"
    by (rule login_beside_rotation [where ev = "\<lambda>_. calm (Unix_Ns 0)", OF sample_auther_ok sample_token_row sample_token_live sample_live_rotation _ sample_txs_at])
  from token_exchanged_once [OF sample_auther_ok this sample_txs_at(1)] at show ?thesis
    by (auto simp: sample_token_def)
qed

end
