(* ===== verification/Skeeper_Service.thy ===== *)
theory Skeeper_Service
  imports Skeeper_Store Jwt_Helper
begin

text \<open>
  The vault service above its repository: the request context
  (\<^verbatim>\<open>internal/pkg/contextlib\<close>), the authentication interceptor
  (\<^verbatim>\<open>internal/skeeper/pkg/interceptors\<close>), the use cases
  (\<^verbatim>\<open>internal/skeeper/usecase\<close>) and the gRPC handlers
  (\<^verbatim>\<open>internal/skeeper/delivery\<close>). A handler is a computation on the database whose
  error is the status the client sees.
\<close>

section \<open>The request context\<close>

record request_info =
  ri_RequestID :: string
  ri_Host :: string
  ri_RemoteIP :: string
  ri_Method :: string
  ri_Path :: string
  ri_UserAgent :: string

text \<open>
  What a handler's context carries: the values of the two context keys, and what gRPC put
  there, the incoming metadata (\<^verbatim>\<open>md.Get\<close> of a lower-case key) and the peer's address.
\<close>

record ctx =
  cx_UserID :: "int64 option"
  cx_RequestInfo :: "request_info option"
  cx_Metadata :: "(string \<Rightarrow> string list) option"
  cx_Peer :: "string option"

definition SetUserID :: "ctx \<Rightarrow> int64 \<Rightarrow> ctx" where
  "SetUserID cx userID = cx\<lparr>cx_UserID := Some userID\<rparr>"

definition GetUserID :: "ctx \<Rightarrow> int64 option" where
  "GetUserID cx = cx_UserID cx"

definition SetRequestInfo :: "ctx \<Rightarrow> request_info \<Rightarrow> ctx" where
  "SetRequestInfo cx requestInfo = cx\<lparr>cx_RequestInfo := Some requestInfo\<rparr>"

definition GetRequestInfo :: "ctx \<Rightarrow> request_info option" where
  "GetRequestInfo cx = cx_RequestInfo cx"

section \<open>Authentication\<close>

definition authorize :: "lib \<Rightarrow> env \<Rightarrow> jwt_helper \<Rightarrow> ctx \<Rightarrow> go_error + ctx" where
  "authorize L ev jwt cx =
    (case cx_Metadata cx of
       None \<Rightarrow> Inl (StatusErr Unauthenticated ''metadata is not provided'')
     | Some md \<Rightarrow>
         (case md ''authorization'' of
            [] \<Rightarrow> Inl (StatusErr Unauthenticated ''authorization token is not provided'')
          | v # _ \<Rightarrow>
              (let parts = split_on (CHR '' '') v
               in if length parts \<noteq> 2 \<or> strings_ToLower L (parts ! 0) \<noteq> ''bearer''
                  then Inl (StatusErr Unauthenticated ''invalid authorization format'')
                  else (case ValidateToken L ev jwt (parts ! 1) of
                          Inl _ \<Rightarrow> Inl (StatusErr Unauthenticated ''invalid token'')
                        | Inr claims \<Rightarrow> Inr (SetUserID cx (cl_UserID claims))))))"

definition AuthInterceptor ::
  "lib \<Rightarrow> env \<Rightarrow> jwt_helper \<Rightarrow> (ctx \<Rightarrow> ('s, go_error, 'a) cmd) \<Rightarrow> ctx \<Rightarrow> ('s, go_error, 'a) cmd" where
  "AuthInterceptor L ev jwt handler cx =
    (case authorize L ev jwt cx of Inl e \<Rightarrow> raise e | Inr newCtx \<Rightarrow> handler newCtx)"

section \<open>Use cases\<close>

definition vaultKDFSaltSize :: nat where "vaultKDFSaltSize = 16"

definition Uc_Sync :: "lib \<Rightarrow> env \<Rightarrow> ctx \<Rightarrow> sync_request \<Rightarrow> (skeeper_db, go_error, sync_response) cmd" where
  "Uc_Sync L ev cx req =
    (case GetUserID cx of
       None \<Rightarrow> raise (Sentinel Sk_ErrUnauthenticated)
     | Some userID \<Rightarrow>
         bind_m (if rq_Updates req \<noteq> []
                 then map_err (\<lambda>e. Wrap (Some e) ''failed to upsert entries'')
                   (UpsertEntries L ev userID (rq_Updates req))
                 else ret []) (\<lambda>applied.
           (let currentSyncAt = time_now ev NowSync
            in bind_m (map_err (\<lambda>e. Wrap (Some e) ''failed to get updates'')
                   (GetUpdatedAfter L ev userID (rq_LastSyncAt req))) (\<lambda>serverUpdates.
                 ret \<lparr>rs_CurrentSyncAt = currentSyncAt, rs_Updates = serverUpdates,
                      rs_AppliedUpdateUUIDs = applied\<rparr>))))"

definition Uc_GetVaultCrypto :: "env \<Rightarrow> ctx \<Rightarrow> (skeeper_db, go_error, bytes \<times> bytes) cmd" where
  "Uc_GetVaultCrypto ev cx =
    (case GetUserID cx of
       None \<Rightarrow> raise (Sentinel Sk_ErrUnauthenticated)
     | Some userID \<Rightarrow> Repo_GetVaultCrypto ev userID)"

definition Uc_PutVaultCrypto :: "env \<Rightarrow> ctx \<Rightarrow> bytes \<Rightarrow> bytes \<Rightarrow> (skeeper_db, go_error, unit) cmd" where
  "Uc_PutVaultCrypto ev cx kdfSalt masterVerifier =
    (if length kdfSalt \<noteq> vaultKDFSaltSize
     then raise (NewValidationError ''kdf_salt'' ''must be exactly 16 bytes'')
     else if length masterVerifier \<noteq> 32
     then raise (NewValidationError ''master_verifier''
       ''must be exactly 32 bytes (SHA-256 of derived master key)'')
     else (case GetUserID cx of
             None \<Rightarrow> raise (Sentinel Sk_ErrUnauthenticated)
           | Some userID \<Rightarrow> Repo_PutVaultCrypto ev userID kdfSalt masterVerifier))"

section \<open>Handlers\<close>

definition sync_request_status :: "go_error \<Rightarrow> go_error" where
  "sync_request_status e = (case as_validation e of
      Some v \<Rightarrow> StatusErr InvalidArgument (validation_text v)
    | None \<Rightarrow> StatusErr Internal ''failed to sync'')"

definition sync_status :: "go_error \<Rightarrow> go_error" where
  "sync_status e =
    (if errors_is e Sk_ErrUnauthenticated then StatusErr Unauthenticated ''unauthenticated''
     else StatusErr Internal ''failed to sync'')"

definition Rpc_Sync :: "lib \<Rightarrow> env \<Rightarrow> ctx \<Rightarrow> api_sync_request \<Rightarrow> (skeeper_db, go_error, api_sync_response) cmd" where
  "Rpc_Sync L ev cx req =
    bind_m (map_err sync_request_status (of_result (NewSyncRequestFromProto L req))) (\<lambda>syncReq.
    bind_m (map_err sync_status (Uc_Sync L ev cx syncReq)) (\<lambda>res.
    ret (SyncResponse_ToProto L res)))"

definition get_vault_status :: "go_error \<Rightarrow> go_error" where
  "get_vault_status e =
    (if errors_is e Sk_ErrUnauthenticated then StatusErr Unauthenticated ''unauthenticated''
     else if errors_is e Vault_ErrNotFound then StatusErr NotFound ''vault crypto not found''
     else StatusErr Internal ''failed to get vault crypto'')"

text \<open>The message field of the response is always set.\<close>

definition Rpc_GetVaultCrypto :: "env \<Rightarrow> ctx \<Rightarrow> (skeeper_db, go_error, api_vault_crypto option) cmd" where
  "Rpc_GetVaultCrypto ev cx =
    bind_m (map_err get_vault_status (Uc_GetVaultCrypto ev cx)) (\<lambda>(salt, verifier).
    ret (Some \<lparr>pv_KdfSalt = salt, pv_MasterVerifier = verifier\<rparr>))"

definition put_vault_status :: "go_error \<Rightarrow> go_error" where
  "put_vault_status e =
    (if errors_is e Sk_ErrUnauthenticated then StatusErr Unauthenticated ''unauthenticated''
     else case as_validation e of
        Some v \<Rightarrow> StatusErr InvalidArgument (validation_text v)
      | None \<Rightarrow>
          if errors_is e Vault_ErrConflict
          then StatusErr AlreadyExists ''vault already initialized with different credentials''
          else StatusErr Internal ''failed to put vault crypto'')"

definition Rpc_PutVaultCrypto :: "env \<Rightarrow> ctx \<Rightarrow> api_vault_crypto option \<Rightarrow> (skeeper_db, go_error, unit) cmd" where
  "Rpc_PutVaultCrypto ev cx vault =
    (case vault of
       None \<Rightarrow> raise (StatusErr InvalidArgument ''missing vault'')
     | Some v \<Rightarrow> map_err put_vault_status (Uc_PutVaultCrypto ev cx (pv_KdfSalt v) (pv_MasterVerifier v)))"

section \<open>Who a request can touch\<close>

lemma authorize_InlD: "authorize L ev jwt cx = Inl e \<Longrightarrow> \<exists>m. e = StatusErr Unauthenticated m"
  by (auto simp: authorize_def Let_def split: option.splits list.splits sum.splits if_splits)

lemma authorize_InrD:
  assumes "authorize L ev jwt cx = Inr cx'"
  shows "\<exists>u tok. cx' = cx\<lparr>cx_UserID := Some u\<rparr> \<and> accept_access (L, ev, jwt) tok = Some u"
proof -
  have "\<exists>tok c. ValidateToken L ev jwt tok = Inr c \<and> cx' = SetUserID cx (cl_UserID c)"
    using assms
    by (auto simp: authorize_def Let_def split: option.splits list.splits sum.splits if_splits)
  then obtain tok c where "ValidateToken L ev jwt tok = Inr c" and "cx' = SetUserID cx (cl_UserID c)"
    by (elim exE conjE)
  then show ?thesis
    by (intro exI [of _ "cl_UserID c"] exI [of _ tok])
      (simp add: SetUserID_def accept_access_def right_value_def)
qed

lemma look_fold_gate_other:
  assumes "unique_keys entry_key rows" and "k \<notin> entry_key ` set ps"
  shows "look_entry (fold entry_gate ps rows) k = look_entry rows k"
  using assms
proof (induction ps arbitrary: rows)
  case (Cons p ps)
  have "look_entry (entry_gate p rows) k = look_entry rows k"
    using Cons.prems by (auto simp: entry_store.look_gate [OF Cons.prems(1)])
  with Cons.IH [OF entry_store.wf_gate [OF Cons.prems(1)]] Cons.prems(2) show ?case by simp
qed simp

text \<open>The part of the database that belongs to other users.\<close>

definition others :: "int64 \<Rightarrow> skeeper_db \<Rightarrow> ((int64 \<times> uuid) \<Rightarrow> entryDB option) \<times> (int64 \<Rightarrow> (bytes \<times> bytes) option)" where
  "others u db = (\<lambda>k. if fst k = u then None else look_entry (db_entries db) k,
     \<lambda>v. if v = u then None else db_vault db v)"

lemma others_UpsertEntries:
  assumes "entries_ok db" and "UpsertEntries L ev u es db = (r, db')"
  shows "others u db' = others u db"
proof -
  have "look_entry (fold entry_gate (map (entry_row L u) es) (db_entries db)) k = look_entry (db_entries db) k"
    if "fst k \<noteq> u" for k
    by (rule look_fold_gate_other) (use assms(1) that in \<open>auto simp: entries_ok_def\<close>)
  then show ?thesis
    using UpsertEntries_state [OF assms(2)] by (auto simp: others_def)
qed

definition owner_only :: "int64 \<Rightarrow> skeeper_db \<Rightarrow> skeeper_db \<Rightarrow> bool" where
  "owner_only u db0 db \<longleftrightarrow> entries_ok db \<and> others u db = others u db0"

lemma owner_only_UpsertEntries: "preserves (owner_only u db0) (UpsertEntries L ev u es)"
  unfolding preserves_def
proof (intro allI impI)
  fix db assume inv: "owner_only u db0 db"
  obtain r db' where eq: "UpsertEntries L ev u es db = (r, db')" by (cases "UpsertEntries L ev u es db")
  have "entries_ok db'"
    by (rule preservesD [OF preserves_UpsertEntries eq]) (use inv in \<open>simp add: owner_only_def\<close>)
  with inv others_UpsertEntries [OF _ eq] show "owner_only u db0 (snd (UpsertEntries L ev u es db))"
    by (simp add: owner_only_def eq)
qed

lemma owner_only_GetUpdatedAfter: "preserves I (GetUpdatedAfter L ev u t)"
  by (simp add: GetUpdatedAfter_def preserves_bind)

lemma owner_only_PutVaultCrypto: "preserves (owner_only u db0) (Repo_PutVaultCrypto ev u s v)"
  unfolding preserves_def
proof (intro allI impI)
  fix db assume inv: "owner_only u db0 db"
  obtain r db' where eq: "Repo_PutVaultCrypto ev u s v db = (r, db')" by (cases "Repo_PutVaultCrypto ev u s v db")
  have "others u (snd (vault_insert u s v db)) = others u db"
    by (auto simp: others_def vault_insert_def split: option.split)
  moreover have "entries_ok (snd (vault_insert u s v db)) = entries_ok db"
    by (simp add: entries_ok_def vault_insert_entries)
  ultimately show "owner_only u db0 (snd (Repo_PutVaultCrypto ev u s v db))"
    using Repo_PutVaultCrypto_state [OF eq] inv eq by (auto simp: owner_only_def)
qed

lemma preserves_Repo_GetVaultCrypto: "preserves I (Repo_GetVaultCrypto ev u)"
  by (auto simp: Repo_GetVaultCrypto_def intro!: preserves_bind preserves_case_option)

text \<open>The requests the service answers, behind its interceptor.\<close>

datatype skeeper_call = CallSync api_sync_request | CallGetVault | CallPutVault "api_vault_crypto option"

datatype skeeper_reply = ReplySync api_sync_response | ReplyVault "api_vault_crypto option" | ReplyPut

definition handle_call :: "lib \<Rightarrow> env \<Rightarrow> skeeper_call \<Rightarrow> ctx \<Rightarrow> (skeeper_db, go_error, skeeper_reply) cmd" where
  "handle_call L ev call cx = (case call of
      CallSync req \<Rightarrow> bind_m (Rpc_Sync L ev cx req) (\<lambda>r. ret (ReplySync r))
    | CallGetVault \<Rightarrow> bind_m (Rpc_GetVaultCrypto ev cx) (\<lambda>r. ret (ReplyVault r))
    | CallPutVault v \<Rightarrow> bind_m (Rpc_PutVaultCrypto ev cx v) (\<lambda>_. ret ReplyPut))"

definition serve :: "lib \<Rightarrow> env \<Rightarrow> jwt_helper \<Rightarrow> skeeper_call \<Rightarrow> ctx \<Rightarrow> (skeeper_db, go_error, skeeper_reply) cmd" where
  "serve L ev jwt call = AuthInterceptor L ev jwt (handle_call L ev call)"

lemma preserves_handle_call:
  assumes "cx_UserID cx = Some u"
  shows "preserves (owner_only u db0) (handle_call L ev call cx)"
proof -
  have "preserves (owner_only u db0) (Uc_Sync L ev cx req)" for req
    by (auto simp: Uc_Sync_def GetUserID_def assms Let_def
        intro!: preserves_bind preserves_map_err owner_only_UpsertEntries owner_only_GetUpdatedAfter)
  moreover have "preserves (owner_only u db0) (Uc_PutVaultCrypto ev cx s v)" for s v
    by (simp add: Uc_PutVaultCrypto_def GetUserID_def assms owner_only_PutVaultCrypto)
  moreover have "preserves (owner_only u db0) (Uc_GetVaultCrypto ev cx)"
    by (simp add: Uc_GetVaultCrypto_def GetUserID_def assms preserves_Repo_GetVaultCrypto)
  ultimately show ?thesis
    by (auto simp: handle_call_def Rpc_Sync_def Rpc_GetVaultCrypto_def Rpc_PutVaultCrypto_def
        intro!: preserves_bind preserves_map_err preserves_case_option
        split: skeeper_call.split)
qed


section \<open>What the handlers answer\<close>

text \<open>The rows of a user after a cursor, as messages.\<close>

definition pulled :: "lib \<Rightarrow> int64 \<Rightarrow> gotime \<Rightarrow> skeeper_db \<Rightarrow> server_entry list" where
  "pulled L u t db = map toDomain (sort_key er_UpdatedAt
     (filter (\<lambda>r. er_UserID r = u \<and> pg_timestamptz L t < er_UpdatedAt r) (db_entries db)))"

text \<open>The entries of a push that a table accepts.\<close>

definition accepted :: "int64 \<Rightarrow> skeeper_db \<Rightarrow> server_entry list \<Rightarrow> uuid list" where
  "accepted u db es = map se_UUID (filter (\<lambda>e. case look_entry (db_entries db) (u, se_UUID e) of
      None \<Rightarrow> True | Some old \<Rightarrow> slt (er_Version old) (se_Version e)) es)"

definition push_result :: "lib \<Rightarrow> int64 \<Rightarrow> server_entry list \<Rightarrow> skeeper_db \<Rightarrow> skeeper_db" where
  "push_result L u es db = db\<lparr>db_entries := fold entry_gate (map (entry_row L u) es) (db_entries db)\<rparr>"

lemma push_result_Nil [simp]: "push_result L u [] db = db"
  by (simp add: push_result_def)

lemma Uc_Sync_answer:
  assumes "no_faults ev" and "cx_UserID cx = Some u" and "distinct (map se_UUID (rq_Updates req))"
    and "\<forall>e\<in>set (rq_Updates req). storable e"
  shows "Uc_Sync L ev cx req db =
    (Inr \<lparr>rs_CurrentSyncAt = time_now ev NowSync,
       rs_Updates = pulled L u (rq_LastSyncAt req) (push_result L u (rq_Updates req) db),
       rs_AppliedUpdateUUIDs = accepted u db (rq_Updates req)\<rparr>,
     push_result L u (rq_Updates req) db)"
  using assms(1,2)
  by (simp add: Uc_Sync_def GetUserID_def UpsertEntries_distinct [OF assms(1,3,4)] GetUpdatedAfter_def
      pulled_def accepted_def push_result_def Let_def cmd_defs)

text \<open>An entry of a client that the service stores.\<close>

definition syncable :: "client_entry \<Rightarrow> bool" where
  "syncable e \<longleftrightarrow> type_fits (ce_Type e) \<and> ce_EncryptedDek e \<noteq> [] \<and> ce_Payload e \<noteq> []"

lemma storable_to_server [simp]: "storable (to_server e) = syncable e"
  by (simp add: storable_def syncable_def to_server_def)

lemma Rpc_Sync_answer:
  assumes "no_faults ev" and "cx_UserID cx = Some u" and "uuid_ok L" and "distinct (map ce_UUID es)" and "\<forall>e\<in>set es. syncable e"
  shows "Rpc_Sync L ev cx \<lparr>ps_Updates = map (clientEntryToProto L) es, ps_LastSyncAt = Some (timestamp_new t)\<rparr> db
    = (Inr (SyncResponse_ToProto L \<lparr>rs_CurrentSyncAt = time_now ev NowSync,
         rs_Updates = pulled L u t (push_result L u (map to_server es) db),
         rs_AppliedUpdateUUIDs = accepted u db (map to_server es)\<rparr>),
       push_result L u (map to_server es) db)"
proof -
  have same: "map (se_UUID \<circ> to_server) es = map ce_UUID es" by (simp add: to_server_def)
  have "distinct (map se_UUID (map to_server es))" by (simp only: map_map same assms(4))
  then show ?thesis using assms(5)
    by (simp add: Rpc_Sync_def NewSyncRequestFromProto_client [OF assms(3)] cmd_defs
        Uc_Sync_answer [OF assms(1,2)])
qed

lemma Rpc_Sync_refused:
  assumes "cx_UserID cx = Some u" and "uuid_ok L" and "\<exists>e\<in>set es. \<not> syncable e"
  shows "Rpc_Sync L ev cx \<lparr>ps_Updates = map (clientEntryToProto L) es, ps_LastSyncAt = Some (timestamp_new t)\<rparr> db
    = (Inl (StatusErr Internal ''failed to sync''), db)"
proof -
  from assms(3) obtain e where e: "e \<in> set es" "\<not> syncable e" by blast
  then obtain m where "UpsertEntries L ev u (map to_server es) db = (Inl (LibErr m), db)"
    using UpsertEntries_refused [of "to_server e" "map to_server es" L ev u db] by auto
  moreover have "es \<noteq> []" using e(1) by auto
  ultimately show ?thesis
    by (simp add: Rpc_Sync_def NewSyncRequestFromProto_client [OF assms(2)] Uc_Sync_def GetUserID_def assms(1)
        sync_status_def Wrap_def cmd_defs)
qed

text \<open>
  C33: A sync request is answered completely. The server merges the pushed entries by last write
  wins, and the response lists the uuids that were stored and every row of the user newer than
  the cursor in the merged table, the ones just pushed included. A request with an entry the
  table's columns refuse is answered as an internal error and stores nothing.
\<close>

theorem sync_answers:
  assumes "no_faults ev" and "cx_UserID cx = Some u" and "uuid_ok L" and "entries_ok db"
    and "distinct (map ce_UUID es)"
  shows "if \<forall>e\<in>set es. syncable e
  then \<exists>resp db'. Rpc_Sync L ev cx
      \<lparr>ps_Updates = map (clientEntryToProto L) es, ps_LastSyncAt = Some (timestamp_new t)\<rparr> db = (Inr resp, db') \<and>
    (\<forall>k. look_entry (db_entries db') k
      = lww (look_entry (db_entries db) k) (look_entry (map (entry_row L u \<circ> to_server) es) k)) \<and>
    pr_AppliedUpdateUuids resp = map (uuid_String L \<circ> ce_UUID)
      (filter (\<lambda>e. case look_entry (db_entries db) (u, ce_UUID e) of
        None \<Rightarrow> True | Some old \<Rightarrow> slt (er_Version old) (ce_Version e)) es) \<and>
    mset (pr_Updates resp) = image_mset (Entry_ToProto L \<circ> toDomain)
      (filter_mset (\<lambda>r. er_UserID r = u \<and> pg_timestamptz L t < er_UpdatedAt r) (mset (db_entries db')))
  else Rpc_Sync L ev cx \<lparr>ps_Updates = map (clientEntryToProto L) es, ps_LastSyncAt = Some (timestamp_new t)\<rparr> db =
      (Inl (StatusErr Internal ''failed to sync''), db)"
proof -
  have same: "map (se_UUID \<circ> to_server) es = map ce_UUID es"
    "se_UUID (to_server e) = ce_UUID e" "se_Version (to_server e) = ce_Version e" for e
    by (simp_all add: to_server_def)
  have "distinct (map entry_key (map (entry_row L u) (map to_server es)))"
    by (rule distinct_entry_rows [THEN iffD2]) (simp only: map_map same(1) assms(5))
  from look_fold_gate_distinct [OF entries_okD(1) [OF assms(4)] this]
  have look: "look_entry (db_entries (push_result L u (map to_server es) db)) k
    = lww (look_entry (db_entries db) k) (look_entry (map (entry_row L u \<circ> to_server) es) k)" for k
    by (simp add: push_result_def o_assoc)
  have app: "accepted u db (map to_server es) = map ce_UUID
      (filter (\<lambda>e. case look_entry (db_entries db) (u, ce_UUID e) of
        None \<Rightarrow> True | Some old \<Rightarrow> slt (er_Version old) (ce_Version e)) es)"
    by (simp add: accepted_def filter_map o_def same cong: option.case_cong)
  show ?thesis
  proof (cases "\<forall>e\<in>set es. syncable e")
    case True
    show ?thesis
      unfolding Rpc_Sync_answer [OF assms(1,2,3,5) True] if_P [OF True]
      by (intro exI conjI, rule refl)
        (simp_all add: look SyncResponse_ToProto_def app pulled_def image_mset.compositionality)
  next
    case False
    then have "\<exists>e\<in>set es. \<not> syncable e" by blast
    with False show ?thesis by (simp only: if_False Rpc_Sync_refused [OF assms(2,3)])
  qed
qed

lemma Rpc_PutVaultCrypto_answer:
  assumes "no_faults ev" and "cx_UserID cx = Some u"
  shows "Rpc_PutVaultCrypto ev cx vault db =
    (case vault of
       None \<Rightarrow> (Inl (StatusErr InvalidArgument ''missing vault''), db)
     | Some v \<Rightarrow>
        if length (pv_KdfSalt v) \<noteq> 16
        then (Inl (StatusErr InvalidArgument ''kdf_salt is not valid: must be exactly 16 bytes''), db)
        else if length (pv_MasterVerifier v) \<noteq> 32
        then (Inl (StatusErr InvalidArgument
          ''master_verifier is not valid: must be exactly 32 bytes (SHA-256 of derived master key)''), db)
        else case db_vault db u of
           None \<Rightarrow> (Inr (), db\<lparr>db_vault := (db_vault db)(u \<mapsto> (pv_KdfSalt v, pv_MasterVerifier v))\<rparr>)
         | Some sv \<Rightarrow>
            (if sv = (pv_KdfSalt v, pv_MasterVerifier v) then Inr ()
             else Inl (StatusErr AlreadyExists ''vault already initialized with different credentials''), db))"
proof (cases vault)
  case None
  then show ?thesis by (simp add: Rpc_PutVaultCrypto_def cmd_defs)
next
  case (Some v)
  show ?thesis
  proof (cases "length (pv_KdfSalt v) \<noteq> 16 \<or> length (pv_MasterVerifier v) \<noteq> 32")
    case True
    then show ?thesis
      by (auto simp: Some Rpc_PutVaultCrypto_def Uc_PutVaultCrypto_def vaultKDFSaltSize_def
          put_vault_status_def NewValidationError_def validation_text_def cmd_defs)
  next
    case False
    then show ?thesis
      by (simp add: Some assms Rpc_PutVaultCrypto_def Uc_PutVaultCrypto_def GetUserID_def vaultKDFSaltSize_def
          Repo_PutVaultCrypto_def vaultKDFSaltBytes_def vaultVerifierSize_def vault_select_def vault_insert_def
          vault_compare_eq put_vault_status_def cmd_defs split: option.split)
  qed
qed

text \<open>
  Setting vault parameters through the service, on every branch: a missing message and
  wrong sizes are invalid arguments, the first parameters are stored, the same parameters are
  accepted again, and different ones are answered with AlreadyExists and change nothing.
\<close>

theorem put_vault_answers:
  assumes "no_faults ev" and "cx_UserID cx = Some u"
  shows "Rpc_PutVaultCrypto ev cx vault db =
    (case vault of
       None \<Rightarrow> (Inl (StatusErr InvalidArgument ''missing vault''), db)
     | Some v \<Rightarrow>
        if length (pv_KdfSalt v) \<noteq> 16
        then (Inl (StatusErr InvalidArgument ''kdf_salt is not valid: must be exactly 16 bytes''), db)
        else if length (pv_MasterVerifier v) \<noteq> 32
        then (Inl (StatusErr InvalidArgument
          ''master_verifier is not valid: must be exactly 32 bytes (SHA-256 of derived master key)''), db)
        else case db_vault db u of
           None \<Rightarrow> (Inr (), db\<lparr>db_vault := (db_vault db)(u \<mapsto> (pv_KdfSalt v, pv_MasterVerifier v))\<rparr>)
         | Some sv \<Rightarrow>
            (if sv = (pv_KdfSalt v, pv_MasterVerifier v) then Inr ()
             else Inl (StatusErr AlreadyExists ''vault already initialized with different credentials''), db))"
  by (rule Rpc_PutVaultCrypto_answer [OF assms])

lemma authorize_bearer:
  assumes "accept_access (L, ev', jwt) tok = Some u"
    and "CHR '' '' \<notin> set tok" and "strings_ToLower L ''Bearer'' = ''bearer''"
    and "cx_Metadata cx = Some md" and "md ''authorization'' = (''Bearer '' @ tok) # rest"
  shows "authorize L ev' jwt cx = Inr (SetUserID cx u)"
proof -
  from assms(1) obtain c
    where val: "ValidateToken L ev' jwt tok = Inr c" and u: "cl_UserID c = u"
    by (auto simp: accept_access_def right_value_def split: sum.splits)
  have "split_on (CHR '' '') (''Bearer'' @ CHR '' '' # tok) = [''Bearer'', tok]"
    by (subst split_on_append) (simp_all add: split_on_no_sep assms(2))
  then have "split_on (CHR '' '') (''Bearer '' @ tok) = [''Bearer'', tok]" by simp
  then show ?thesis
    unfolding authorize_def assms(4,5) option.case list.case Let_def
    by (simp add: assms(3) val u)
qed

text \<open>
  C25: The interceptor admits the bearer of an issued token. A live access token sent as
  \<^verbatim>\<open>Bearer <token>\<close> lets the request through as the user it was issued for, and as
  no other.
\<close>

theorem bearer_token_admits:
  assumes "token_live (L, ev, h) (L, ev', jwt)" and "issue_access (L, ev, h) u = Some tok"
    and "CHR '' '' \<notin> set tok" and "strings_ToLower L ''Bearer'' = ''bearer''"
    and "cx_Metadata cx = Some md" and "md ''authorization'' = (''Bearer '' @ tok) # rest"
  shows "authorize L ev' jwt cx = Inr (SetUserID cx u)"
  by (rule authorize_bearer [OF access_token.accept_issued [OF assms(1,2)] assms(3-6)])

section \<open>Concrete runs\<close>

definition toy_db :: skeeper_db where
  "toy_db = \<lparr>db_entries = [entry_row toy 1 (sample_entry 5 2), entry_row toy 2 (sample_entry 5 9)],
     db_vault = Map.empty(2 \<mapsto> (replicate 16 CHR ''s'', replicate 32 CHR ''v''))\<rparr>"

definition toy_ctx :: "int64 option \<Rightarrow> ctx" where
  "toy_ctx u = \<lparr>cx_UserID = u, cx_RequestInfo = None, cx_Metadata = None, cx_Peer = None\<rparr>"

definition client_sample :: "uuid \<Rightarrow> int64 \<Rightarrow> client_entry" where
  "client_sample i v = to_client (sample_entry i v)"

lemma client_sample_syncable: "syncable (client_sample i v)"
  by (simp add: syncable_def type_fits_def client_sample_def sample_entry_def to_client_def rune_count.simps rune_len_def byte_in_def)

lemma toy_db_ok: "entries_ok toy_db"
  by (simp add: entries_ok_def toy_db_def sample_storable)

theorem sync_answers_witness:
  "\<exists>resp db'. Rpc_Sync toy (calm (Unix_Ns 0)) (toy_ctx (Some 1))
      \<lparr>ps_Updates = map (clientEntryToProto toy) [client_sample 5 3, client_sample 6 1],
       ps_LastSyncAt = Some (timestamp_new (Unix_Ns 0))\<rparr> toy_db = (Inr resp, db') \<and>
    pr_AppliedUpdateUuids resp = [uuid_String toy 5, uuid_String toy 6]"
proof -
  let ?es = "[client_sample 5 3, client_sample 6 1]"
  have user: "cx_UserID (toy_ctx (Some 1)) = Some 1" by (simp add: toy_ctx_def)
  have dist: "distinct (map ce_UUID ?es)" by (simp add: client_sample_def sample_entry_def to_client_def)
  have ok: "\<forall>e\<in>set ?es. syncable e" by (simp add: client_sample_syncable)
  have vals: "map (uuid_String toy \<circ> ce_UUID)
      (filter (\<lambda>e. case look_entry (db_entries toy_db) (1, ce_UUID e) of
        None \<Rightarrow> True | Some old \<Rightarrow> slt (er_Version old) (ce_Version e)) ?es)
    = [uuid_String toy 5, uuid_String toy 6]"
    by (simp add: client_sample_def sample_entry_def to_client_def toy_db_def entry_key_def entry_row_def slt_def)
  obtain resp db' where run: "Rpc_Sync toy (calm (Unix_Ns 0)) (toy_ctx (Some 1))
      \<lparr>ps_Updates = map (clientEntryToProto toy) ?es, ps_LastSyncAt = Some (timestamp_new (Unix_Ns 0))\<rparr> toy_db
      = (Inr resp, db')"
    and app: "pr_AppliedUpdateUuids resp = map (uuid_String toy \<circ> ce_UUID)
      (filter (\<lambda>e. case look_entry (db_entries toy_db) (1, ce_UUID e) of
        None \<Rightarrow> True | Some old \<Rightarrow> slt (er_Version old) (ce_Version e)) ?es)"
    using sync_answers [OF calm_no_faults [of "Unix_Ns 0"] user toy_uuid_ok toy_db_ok dist, of "Unix_Ns 0"] ok
    by (simp only: if_P [OF ok]) (elim exE conjE)
  show ?thesis by (intro exI conjI, rule run) (simp only: app vals)
qed

theorem put_vault_answers_witness:
  "Rpc_PutVaultCrypto (calm zero_time) (toy_ctx (Some 2))
      (Some \<lparr>pv_KdfSalt = replicate 16 CHR ''x'', pv_MasterVerifier = replicate 32 CHR ''v''\<rparr>) toy_db
    = (Inl (StatusErr AlreadyExists ''vault already initialized with different credentials''), toy_db)"
  using put_vault_answers [OF calm_no_faults [of zero_time], where u = 2 and cx = "toy_ctx (Some 2)"
      and db = toy_db and vault = "Some \<lparr>pv_KdfSalt = replicate 16 CHR ''x'', pv_MasterVerifier = replicate 32 CHR ''v''\<rparr>"]
  by (simp add: toy_ctx_def toy_db_def numeral_eq_Suc)


definition toy_token :: string where
  "toy_token = toy_sign ''k'' (newClaims toy (calm (Unix_Ns 0)) toy_helper 42 (Unix_Ns (minute * 15)))"

lemma issue_toy_token: "issue_access (toy, calm (Unix_Ns 0), toy_helper) 42 = Some toy_token"
  by (simp add: issue_access_def right_value_def NewTokenPair_def toy_helper_def toy_sel calm_in_rpc
      toy_token_def time_add_def Let_def)

lemma toy_token_live: "token_live (toy, calm (Unix_Ns 0), toy_helper) (toy, calm (Unix_Ns minute), toy_helper)"
  by (simp add: token_live_def toy_helper_def toy_ok issued_sec_def expiry_sec_def calm_in_rpc gotime_order duration_defs)

theorem bearer_token_admits_witness:
  "\<exists>md. authorize toy (calm (Unix_Ns minute)) toy_helper ((toy_ctx None)\<lparr>cx_Metadata := Some md\<rparr>)
    = Inr (SetUserID ((toy_ctx None)\<lparr>cx_Metadata := Some md\<rparr>) 42)"
proof -
  let ?md = "(\<lambda>_. [])(''authorization'' := [''Bearer '' @ toy_token])"
  have "CHR '' '' \<notin> set toy_token"
    by (simp add: toy_token_def toy_sign_def enc_strs_def enc_str_def claims_strs_def newClaims_def
        toy_helper_def toy_sel DefaultIssuer_def calm_in_rpc opt_time_text_def time_text_def duration_defs
        toy_uuid_text_def nat_bytes.simps char_of_def)
  moreover have "strings_ToLower toy ''Bearer'' = ''bearer''"
    by (simp add: toy_sel toy_lower_def byte_in_def char_of_def bit_Suc_0_iff)
  ultimately show ?thesis
    by (intro exI [of _ ?md] bearer_token_admits [OF toy_token_live issue_toy_token, where md = ?md and rest = "[]"])
      simp_all
qed

end
