(* ===== verification/Service_Log.thy ===== *)
theory Service_Log
  imports Skeeper_Service Go_Strings
begin

text \<open>
  The log of a service (\<^verbatim>\<open>internal/pkg/log\<close>). A computation of a service that logs
  works on its store and on the records written so far; logging neither fails nor touches the
  store. The JSON text of a record is the library's; a record is its level, message and attributes.
\<close>

section \<open>Records\<close>

text \<open>The services log at no level below the handler's default, so every record is written.\<close>

datatype log_level = LevelInfo | LevelWarn | LevelError

text \<open>What attributes hold here: text, an error or nil, a duration, the stack of a panic.\<close>

datatype log_value = LogText string | LogErr "go_error option" | LogDuration int | LogStack

record log_record =
  lr_Level :: log_level
  lr_Message :: string
  lr_Attrs :: "(string \<times> log_value) list"

definition AddAttrs :: "(string \<times> log_value) list \<Rightarrow> log_record \<Rightarrow> log_record" where
  "AddAttrs as r = r\<lparr>lr_Attrs := lr_Attrs r @ as\<rparr>"

text \<open>
  What \<^verbatim>\<open>ContextHandler.Handle\<close> passes to the JSON handler; \<open>None\<close> is a nil context.
\<close>

definition ContextHandler_Handle :: "ctx option \<Rightarrow> log_record \<Rightarrow> log_record" where
  "ContextHandler_Handle c r =
    (case c of
       None \<Rightarrow> r
     | Some cx \<Rightarrow>
         (case GetRequestInfo cx of
            None \<Rightarrow> r
          | Some reqInfo \<Rightarrow>
              (let userIDStr = (case GetUserID cx of None \<Rightarrow> [] | Some userID \<Rightarrow> fmt_d (sint userID))
               in AddAttrs
                   [(''request_id'', LogText (ri_RequestID reqInfo)),
                    (''remote_ip'', LogText (ri_RemoteIP reqInfo)),
                    (''method'', LogText (ri_Method reqInfo)),
                    (''path'', LogText (ri_Path reqInfo)),
                    (''user_agent'', LogText (ri_UserAgent reqInfo)),
                    (''user_id'', LogText userIDStr)] r)))"

section \<open>Computations that log\<close>

type_synonym 's logged = "'s \<times> log_record list"

text \<open>\<^verbatim>\<open>slog.Logger\<close> makes a record of its arguments and hands it to the handler.\<close>

definition emit :: "ctx option \<Rightarrow> log_level \<Rightarrow> string \<Rightarrow> (string \<times> log_value) list \<Rightarrow> ('s logged, 'e, unit) cmd" where
  "emit c level msg as = (\<lambda>(s, lg).
    (Inr (), (s, lg @ [ContextHandler_Handle c \<lparr>lr_Level = level, lr_Message = msg, lr_Attrs = as\<rparr>])))"

text \<open>A computation on the store alone.\<close>

definition on_store :: "('s, 'e, 'a) cmd \<Rightarrow> ('s logged, 'e, 'a) cmd" where
  "on_store = zoom fst (\<lambda>s (_, lg). (s, lg))"

lemma emit_apply [simp]:
  "emit c level msg as (s, lg) =
    (Inr (), (s, lg @ [ContextHandler_Handle c \<lparr>lr_Level = level, lr_Message = msg, lr_Attrs = as\<rparr>]))"
  by (simp add: emit_def)

lemma on_store_apply [simp]: "on_store c (s, lg) = (fst (c s), (snd (c s), lg))"
  by (simp add: on_store_def zoom_def case_prod_beta)

text \<open>A record is attributed to a request when its handler's context carries the request.\<close>

lemma Handle_plain [simp]: "cx_RequestInfo cx = None \<Longrightarrow> ContextHandler_Handle (Some cx) r = r"
  by (simp add: ContextHandler_Handle_def GetRequestInfo_def)

lemma Handle_level [simp]:
  "lr_Level (ContextHandler_Handle c r) = lr_Level r" "lr_Message (ContextHandler_Handle c r) = lr_Message r"
  by (simp_all add: ContextHandler_Handle_def AddAttrs_def Let_def split: option.split)

section \<open>A call whose unexpected errors are logged\<close>

text \<open>
  How the handlers of both services end a failed call: the error becomes a status, and it is
  logged where no case before has answered it, which is where the status is \<^verbatim>\<open>Internal\<close>.
\<close>

definition internal :: "go_error \<Rightarrow> bool" where
  "internal e = (case e of StatusErr c _ \<Rightarrow> c = Internal | _ \<Rightarrow> False)"

definition or_status ::
  "ctx \<Rightarrow> (go_error \<Rightarrow> go_error) \<Rightarrow> string \<Rightarrow> ('s, go_error, 'a) cmd \<Rightarrow> ('s logged, go_error, 'a) cmd" where
  "or_status cx status msg c =
    bind_m (attempt (on_store c)) (\<lambda>r.
      case r of
        Inr x \<Rightarrow> ret x
      | Inl e \<Rightarrow>
          bind_m (if internal (status e) then emit (Some cx) LevelError msg [(''err'', LogErr (Some e))] else ret ()) (\<lambda>_.
          raise (status e)))"

definition err_record :: "ctx \<Rightarrow> string \<Rightarrow> go_error \<Rightarrow> log_record" where
  "err_record cx msg e = ContextHandler_Handle (Some cx) \<lparr>lr_Level = LevelError, lr_Message = msg, lr_Attrs = [(''err'', LogErr (Some e))]\<rparr>"

lemma or_status_apply:
  "or_status cx status msg c (s, lg) =
    (case c s of
       (Inr x, t) \<Rightarrow> (Inr x, (t, lg))
     | (Inl e, t) \<Rightarrow> (Inl (status e), (t, if internal (status e) then lg @ [err_record cx msg e] else lg)))"
  by (simp add: or_status_def bind_m_def attempt_def ret_def raise_def err_record_def case_prod_beta split: sum.split)

text \<open>
  A logging handler answers as the plain one and leaves the store as it does; it adds one record
  of the error when, and only when, the answer is \<^verbatim>\<open>Internal\<close>.
\<close>

definition logs_errors :: "ctx \<Rightarrow> ('s, go_error, 'a) cmd \<Rightarrow> ('s logged, go_error, 'a) cmd \<Rightarrow> bool" where
  "logs_errors cx plain logging \<longleftrightarrow>
    (\<forall>s lg. \<exists>ls. logging (s, lg) = (fst (plain s), (snd (plain s), lg @ ls)) \<and>
      (if \<exists>e. fst (plain s) = Inl e \<and> internal e then \<exists>msg e. ls = [err_record cx msg e] else ls = []))"

lemma logs_errorsI:
  assumes "\<And>s lg. \<exists>ls. logging (s, lg) = (fst (plain s), (snd (plain s), lg @ ls)) \<and>
      (if \<exists>e. fst (plain s) = Inl e \<and> internal e then \<exists>msg e. ls = [err_record cx msg e] else ls = [])"
  shows "logs_errors cx plain logging"
  using assms by (simp add: logs_errors_def)

lemma logs_errors_fst: "logs_errors cx plain logging \<Longrightarrow> fst (logging (s, lg)) = fst (plain s)"
  unfolding logs_errors_def by (drule spec [of _ s], drule spec [of _ lg]) auto

lemma logs_errors_or_status: "logs_errors cx (map_err status c) (or_status cx status msg c)"
  by (rule logs_errorsI) (auto simp: or_status_apply map_err_def split: prod.split sum.split)

lemma logs_errors_raise: "\<not> internal e \<Longrightarrow> logs_errors cx (raise e) (raise e)"
  by (rule logs_errorsI) (simp add: raise_def)

lemma logs_errors_ret: "logs_errors cx (ret x) (ret x)"
  by (rule logs_errorsI) (simp add: ret_def)

lemma logs_errors_bind:
  assumes "logs_errors cx c c'" and "\<And>x. logs_errors cx (f x) (f' x)"
  shows "logs_errors cx (bind_m c f) (bind_m c' f')"
proof (rule logs_errorsI)
  fix s lg
  obtain r t where run: "c s = (r, t)" by (cases "c s")
  from assms(1) obtain ls where c': "c' (s, lg) = (r, (t, lg @ ls))"
      and ls: "if \<exists>e. r = Inl e \<and> internal e then \<exists>msg e. ls = [err_record cx msg e] else ls = []"
    unfolding logs_errors_def by (metis run fst_conv snd_conv)
  show "\<exists>ls. bind_m c' f' (s, lg) = (fst (bind_m c f s), (snd (bind_m c f s), lg @ ls)) \<and>
      (if \<exists>e. fst (bind_m c f s) = Inl e \<and> internal e then \<exists>msg e. ls = [err_record cx msg e] else ls = [])"
  proof (cases r)
    case (Inl e)
    then show ?thesis using ls by (auto simp: bind_m_def run c')
  next
    case (Inr x)
    then have "ls = []" using ls by simp
    with Inr assms(2) [of x] show ?thesis by (simp add: bind_m_def run c' logs_errors_def)
  qed
qed

lemmas logs_errors_intros = logs_errors_bind logs_errors_or_status logs_errors_ret logs_errors_raise

end
