(* ===== verification/Interceptors.thy ===== *)
theory Interceptors
  imports Service_Log
begin

text \<open>
  What every request of a server passes before its handler
  (\<^verbatim>\<open>internal/pkg/interceptors\<close>, \<^verbatim>\<open>internal/pkg/server\<close>), and what
  it leaves in the log. A handler may panic; the recovery interceptor is what keeps a panic from
  ending the server.
\<close>

section \<open>Handlers that may panic\<close>

datatype 'a outcome = Returned 'a | Panicked string

type_synonym ('s, 'a) handler = "ctx \<Rightarrow> ('s logged, go_error, 'a outcome) cmd"
type_synonym ('s, 'a) interceptor = "('s, 'a) handler \<Rightarrow> ('s, 'a) handler"

text \<open>What the handler did before it panicked stays done, its records included.\<close>

definition NewUnaryRecoveryInterceptor :: "string \<Rightarrow> ('s, 'a) interceptor" where
  "NewUnaryRecoveryInterceptor fullMethod handler cx =
    bind_m (handler cx) (\<lambda>resp.
      case resp of
        Panicked r \<Rightarrow>
          bind_m (emit (Some cx) LevelError ''grpc unary panic recovered''
              [(''method'', LogText fullMethod), (''recover'', LogText r), (''stack'', LogStack)]) (\<lambda>_.
          raise (StatusErr Internal ''internal error''))
      | Returned r \<Rightarrow> ret (Returned r))"

section \<open>Request information\<close>

text \<open>The first value of the first of the keys that has one. \<^verbatim>\<open>md.Get\<close> on no metadata finds nothing.\<close>

fun getMetadataValue :: "(string \<Rightarrow> string list) option \<Rightarrow> string list \<Rightarrow> string" where
  "getMetadataValue md [] = []"
| "getMetadataValue md (key # keys) =
    (case (case md of None \<Rightarrow> [] | Some get \<Rightarrow> get key) of
       v # _ \<Rightarrow> v
     | [] \<Rightarrow> getMetadataValue md keys)"

definition fillRequestInfo :: "lib \<Rightarrow> env \<Rightarrow> ctx \<Rightarrow> string \<Rightarrow> ctx" where
  "fillRequestInfo L ev cx fullMethod =
    (let md = cx_Metadata cx;
         i = getMetadataValue md [''x-request-id'', ''request-id'']
     in SetRequestInfo cx \<lparr>
       ri_RequestID = (if i \<noteq> [] then i else uuid_String L (fresh_uuid ev IdRequest)),
       ri_Host = getMetadataValue md ['':authority'', ''host''],
       ri_RemoteIP = (case cx_Peer cx of None \<Rightarrow> [] | Some addr \<Rightarrow> addr),
       ri_Method = fullMethod, ri_Path = fullMethod,
       ri_UserAgent = getMetadataValue md [''user-agent'']\<rparr>)"

text \<open>The error of a result, for the attribute \<^verbatim>\<open>err\<close>.\<close>

definition result_err :: "go_error + 'a \<Rightarrow> go_error option" where
  "result_err res = (case res of Inl e \<Rightarrow> Some e | Inr _ \<Rightarrow> None)"

text \<open>A panic passes this interceptor by: what follows the handler's call is not deferred.\<close>

definition NewRequestInfoInterceptor :: "lib \<Rightarrow> env \<Rightarrow> string \<Rightarrow> ('s, 'a) interceptor" where
  "NewRequestInfoInterceptor L ev fullMethod handler cx =
    (let newCtx = fillRequestInfo L ev cx fullMethod; t0 = time_now ev NowStart
     in bind_m (emit (Some newCtx) LevelInfo ''request started'' []) (\<lambda>_.
        bind_m (attempt (handler newCtx)) (\<lambda>res.
          case res of
            Inr (Panicked r) \<Rightarrow> ret (Panicked r)
          | _ \<Rightarrow>
              bind_m (emit (Some newCtx) LevelInfo ''request finished''
                  [(''duration'', LogDuration (time_sub (time_now ev NowFinish) t0)),
                   (''err'', LogErr (result_err res))]) (\<lambda>_.
              of_result res))))"

section \<open>Streams\<close>

text \<open>A server stream is its context here; wrapping it replaces the context.\<close>

record server_stream = ss_Context :: ctx

definition NewWrappedStream :: "ctx \<Rightarrow> server_stream \<Rightarrow> server_stream" where
  "NewWrappedStream cx ss = ss\<lparr>ss_Context := cx\<rparr>"

type_synonym ('s, 'a) stream_handler = "server_stream \<Rightarrow> ('s logged, go_error, 'a outcome) cmd"

definition NewStreamRecoveryInterceptor :: "string \<Rightarrow> ('s, 'a) stream_handler \<Rightarrow> ('s, 'a) stream_handler" where
  "NewStreamRecoveryInterceptor fullMethod handler ss =
    bind_m (handler ss) (\<lambda>resp.
      case resp of
        Panicked r \<Rightarrow>
          bind_m (emit (Some (ss_Context ss)) LevelError ''grpc stream panic recovered''
              [(''method'', LogText fullMethod), (''recover'', LogText r), (''stack'', LogStack)]) (\<lambda>_.
          raise (StatusErr Internal ''internal error''))
      | Returned r \<Rightarrow> ret (Returned r))"

definition NewStreamRequestInfoInterceptor ::
  "lib \<Rightarrow> env \<Rightarrow> string \<Rightarrow> ('s, 'a) stream_handler \<Rightarrow> ('s, 'a) stream_handler" where
  "NewStreamRequestInfoInterceptor L ev fullMethod handler ss =
    (let newCtx = fillRequestInfo L ev (ss_Context ss) fullMethod; t0 = time_now ev NowStart
     in bind_m (emit (Some newCtx) LevelInfo ''stream request started'' []) (\<lambda>_.
        bind_m (attempt (handler (NewWrappedStream newCtx ss))) (\<lambda>res.
          case res of
            Inr (Panicked r) \<Rightarrow> ret (Panicked r)
          | _ \<Rightarrow>
              bind_m (emit (Some newCtx) LevelInfo ''stream request finished''
                  [(''duration'', LogDuration (time_sub (time_now ev NowFinish) t0)),
                   (''err'', LogErr (result_err res))]) (\<lambda>_.
              of_result res))))"

definition NewStreamAuthInterceptor ::
  "lib \<Rightarrow> env \<Rightarrow> jwt_helper \<Rightarrow> ('s, 'a) stream_handler \<Rightarrow> ('s, 'a) stream_handler" where
  "NewStreamAuthInterceptor L ev jwt handler ss =
    (case authorize L ev jwt (ss_Context ss) of
       Inl e \<Rightarrow> raise e
     | Inr newCtx \<Rightarrow> handler (NewWrappedStream newCtx ss))"

section \<open>The server\<close>

record server_tls =
  st_Enabled :: bool
  st_CertFile :: string
  st_KeyFile :: string

record server_config =
  sc_ListenAddr :: string
  sc_GracefulTimeout :: int
  sc_TLS :: server_tls
  sc_ReflectionEnabled :: bool

text \<open>
  A server that was built: whether it speaks TLS, its unary interceptors from the outermost in,
  whether it registered reflection and the health service, and what building it logged.
\<close>

record ('s, 'a) grpc_server =
  gs_creds :: bool
  gs_unary :: "('s, 'a) interceptor list"
  gs_reflection :: bool
  gs_health :: bool
  gs_log :: "log_record list"

definition server_New ::
  "(string \<Rightarrow> string \<Rightarrow> go_error + unit) \<Rightarrow> lib \<Rightarrow> env \<Rightarrow> string \<Rightarrow> server_config \<Rightarrow> ('s, 'a) interceptor list \<Rightarrow>
    go_error + ('s, 'a) grpc_server" where
  "server_New newServerTLSFromFile L ev fullMethod cfg opt =
    (let srv = \<lambda>creds. \<lparr>gs_creds = creds,
           gs_unary = [NewUnaryRecoveryInterceptor fullMethod, NewRequestInfoInterceptor L ev fullMethod] @ opt,
           gs_reflection = sc_ReflectionEnabled cfg, gs_health = True,
           gs_log = (if st_Enabled (sc_TLS cfg) then []
             else [\<lparr>lr_Level = LevelWarn,
                 lr_Message = ''gRPC TLS is disabled: traffic is not encrypted or authenticated at the transport layer'',
                 lr_Attrs = []\<rparr>])\<rparr>
     in if st_Enabled (sc_TLS cfg)
        then if st_CertFile (sc_TLS cfg) = [] \<or> st_KeyFile (sc_TLS cfg) = []
             then Inl (ErrNew ''tls enabled but cert_file or key_file is empty'')
             else (case newServerTLSFromFile (st_CertFile (sc_TLS cfg)) (st_KeyFile (sc_TLS cfg)) of
                     Inl e \<Rightarrow> Inl (Wrap (Some e) ''load grpc tls credentials'')
                   | Inr _ \<Rightarrow> Inr (srv True))
        else Inr (srv False))"

text \<open>gRPC runs the chained interceptors from the first to the last, then the handler.\<close>

definition run_chain :: "('s, 'a) interceptor list \<Rightarrow> ('s, 'a) handler \<Rightarrow> ('s, 'a) handler" where
  "run_chain chain handler = foldr (\<lambda>i h. i h) chain handler"

definition skeeper_server ::
  "(string \<Rightarrow> string \<Rightarrow> go_error + unit) \<Rightarrow> lib \<Rightarrow> env \<Rightarrow> string \<Rightarrow> server_config \<Rightarrow> jwt_helper \<Rightarrow>
    go_error + ('s, 'a) grpc_server" where
  "skeeper_server newServerTLSFromFile L ev fullMethod cfg jwt =
    server_New newServerTLSFromFile L ev fullMethod cfg [AuthInterceptor L ev jwt]"

section \<open>What the chain does to a request\<close>

definition panics_free :: "('s, 'a) handler \<Rightarrow> bool" where
  "panics_free h \<longleftrightarrow> (\<forall>cx s m. fst (h cx s) \<noteq> Inr (Panicked m))"

lemma recovery_panics_free: "panics_free (NewUnaryRecoveryInterceptor m h)"
  by (auto simp: panics_free_def NewUnaryRecoveryInterceptor_def bind_m_def emit_def ret_def raise_def
      split: prod.split sum.split outcome.split)

lemma GetUserID_info [simp]: "GetUserID (SetRequestInfo cx i) = GetUserID cx"
  by (simp add: GetUserID_def SetRequestInfo_def)

lemma SetUserID_info: "SetUserID (SetRequestInfo cx i) u = SetRequestInfo (SetUserID cx u) i"
  by (simp add: SetUserID_def SetRequestInfo_def)

lemma authorize_info:
  "authorize L ev jwt (SetRequestInfo cx i) = (case authorize L ev jwt cx of Inl e \<Rightarrow> Inl e | Inr cx' \<Rightarrow> Inr (SetRequestInfo cx' i))"
proof -
  have "cx_Metadata (SetRequestInfo cx i) = cx_Metadata cx" by (simp add: SetRequestInfo_def)
  then show ?thesis by (simp add: authorize_def SetUserID_info Let_def split: option.split list.split sum.split)
qed

text \<open>The handlers of the vault service look at the user of the request only.\<close>

lemma handle_call_info: "handle_call L ev call (SetRequestInfo cx i) = handle_call L ev call cx"
proof -
  have "Uc_PutVaultCrypto ev (SetRequestInfo cx i) = Uc_PutVaultCrypto ev cx"
    by (rule ext, rule ext) (simp add: Uc_PutVaultCrypto_def)
  then show ?thesis
    by (simp add: handle_call_def Rpc_Sync_def Rpc_GetVaultCrypto_def Rpc_PutVaultCrypto_def
        Uc_Sync_def Uc_GetVaultCrypto_def cong: skeeper_call.case_cong option.case_cong)
qed

lemma fillRequestInfo_is_info: "fillRequestInfo L ev cx m = SetRequestInfo cx (the (GetRequestInfo (fillRequestInfo L ev cx m)))"
  by (simp add: fillRequestInfo_def Let_def GetRequestInfo_def SetRequestInfo_def)

text \<open>The records a request leaves around what its handler writes.\<close>

definition started_record :: "lib \<Rightarrow> env \<Rightarrow> string \<Rightarrow> ctx \<Rightarrow> log_record" where
  "started_record L ev m cx = ContextHandler_Handle (Some (fillRequestInfo L ev cx m))
    \<lparr>lr_Level = LevelInfo, lr_Message = ''request started'', lr_Attrs = []\<rparr>"

definition finished_record :: "lib \<Rightarrow> env \<Rightarrow> string \<Rightarrow> ctx \<Rightarrow> go_error option \<Rightarrow> log_record" where
  "finished_record L ev m cx err = ContextHandler_Handle (Some (fillRequestInfo L ev cx m))
    \<lparr>lr_Level = LevelInfo, lr_Message = ''request finished'',
     lr_Attrs = [(''duration'', LogDuration (time_sub (time_now ev NowFinish) (time_now ev NowStart))), (''err'', LogErr err)]\<rparr>"

definition panic_record :: "string \<Rightarrow> ctx \<Rightarrow> string \<Rightarrow> log_record" where
  "panic_record m cx p = ContextHandler_Handle (Some cx)
    \<lparr>lr_Level = LevelError, lr_Message = ''grpc unary panic recovered'',
     lr_Attrs = [(''method'', LogText m), (''recover'', LogText p), (''stack'', LogStack)]\<rparr>"

text \<open>The two interceptors every server has, around the rest of its chain.\<close>

lemma default_chain:
  "NewUnaryRecoveryInterceptor m (NewRequestInfoInterceptor L ev m h) cx (s, lg) =
    (case h (fillRequestInfo L ev cx m) (s, lg @ [started_record L ev m cx]) of
       (Inl e, (t, lg')) \<Rightarrow> (Inl e, (t, lg' @ [finished_record L ev m cx (Some e)]))
     | (Inr (Panicked p), (t, lg')) \<Rightarrow> (Inl (StatusErr Internal ''internal error''), (t, lg' @ [panic_record m cx p]))
     | (Inr (Returned x), (t, lg')) \<Rightarrow> (Inr (Returned x), (t, lg' @ [finished_record L ev m cx None])))"
  by (simp add: NewUnaryRecoveryInterceptor_def NewRequestInfoInterceptor_def started_record_def finished_record_def
      panic_record_def bind_m_def attempt_def of_result_def ret_def raise_def result_err_def Let_def
      split: prod.split sum.split outcome.split)

lemma server_New_Inr:
  assumes "server_New tls L ev m cfg opt = Inr srv"
  shows "gs_creds srv = st_Enabled (sc_TLS cfg)"
    and "gs_unary srv = [NewUnaryRecoveryInterceptor m, NewRequestInfoInterceptor L ev m] @ opt"
  using assms by (auto simp: server_New_def Let_def split: if_splits sum.splits)

lemma skeeper_server_InrD:
  assumes "skeeper_server tls L ev m cfg jwt = Inr srv"
  shows "gs_unary srv = [NewUnaryRecoveryInterceptor m, NewRequestInfoInterceptor L ev m, AuthInterceptor L ev jwt]"
    and "gs_creds srv = st_Enabled (sc_TLS cfg)"
  using server_New_Inr [OF assms [unfolded skeeper_server_def]] by simp_all

lemma recovered_chain:
  assumes "skeeper_server tls L ev m cfg jwt = Inr srv"
  shows "run_chain (gs_unary srv) h =
    NewUnaryRecoveryInterceptor m (NewRequestInfoInterceptor L ev m (AuthInterceptor L ev jwt h))"
  by (simp add: skeeper_server_InrD(1) [OF assms] run_chain_def)

text \<open>
  C26: What a request to the vault service goes through. The server that was configured with TLS
  has it; whatever a handler does, no panic gets past the chain of interceptors; a handler runs
  only for an accepted token, with the token's user and the request's id, method and peer in its
  context. The log gets a record of the start, then what the handler writes, then a record
  of the end with the error the client gets. A request whose handler panics has no such record: the
  panic is logged instead, with the context from before the request's id was known.
\<close>

theorem request_chain:
  assumes "skeeper_server tls L ev m cfg jwt = Inr srv"
  shows "gs_creds srv = st_Enabled (sc_TLS cfg) \<and> panics_free (run_chain (gs_unary srv) h) \<and>
    run_chain (gs_unary srv) h cx (s, lg) =
      (case authorize L ev jwt cx of
         Inl e \<Rightarrow> (Inl e, (s, lg @ [started_record L ev m cx, finished_record L ev m cx (Some e)]))
       | Inr cx' \<Rightarrow>
           (case h (SetRequestInfo cx' (the (GetRequestInfo (fillRequestInfo L ev cx m)))) (s, lg @ [started_record L ev m cx]) of
              (Inl e, (t, lg')) \<Rightarrow> (Inl e, (t, lg' @ [finished_record L ev m cx (Some e)]))
            | (Inr (Panicked p), (t, lg')) \<Rightarrow> (Inl (StatusErr Internal ''internal error''), (t, lg' @ [panic_record m cx p]))
            | (Inr (Returned x), (t, lg')) \<Rightarrow> (Inr (Returned x), (t, lg' @ [finished_record L ev m cx None]))))"
proof (intro conjI)
  let ?i = "the (GetRequestInfo (fillRequestInfo L ev cx m))"
  show "gs_creds srv = st_Enabled (sc_TLS cfg)" by (rule skeeper_server_InrD(2) [OF assms])
  show "panics_free (run_chain (gs_unary srv) h)"
    unfolding recovered_chain [OF assms] by (rule recovery_panics_free)
  have auth: "AuthInterceptor L ev jwt h (fillRequestInfo L ev cx m) =
      (case authorize L ev jwt cx of Inl e \<Rightarrow> raise e | Inr cx' \<Rightarrow> h (SetRequestInfo cx' ?i))"
    by (subst fillRequestInfo_is_info) (simp add: AuthInterceptor_def authorize_info split: sum.split)
  show "run_chain (gs_unary srv) h cx (s, lg) =
      (case authorize L ev jwt cx of
         Inl e \<Rightarrow> (Inl e, (s, lg @ [started_record L ev m cx, finished_record L ev m cx (Some e)]))
       | Inr cx' \<Rightarrow>
           (case h (SetRequestInfo cx' ?i) (s, lg @ [started_record L ev m cx]) of
              (Inl e, (t, lg')) \<Rightarrow> (Inl e, (t, lg' @ [finished_record L ev m cx (Some e)]))
            | (Inr (Panicked p), (t, lg')) \<Rightarrow> (Inl (StatusErr Internal ''internal error''), (t, lg' @ [panic_record m cx p]))
            | (Inr (Returned x), (t, lg')) \<Rightarrow> (Inr (Returned x), (t, lg' @ [finished_record L ev m cx None]))))"
    by (simp add: recovered_chain [OF assms] default_chain auth raise_def split: sum.split)
qed

section \<open>A concrete server\<close>

definition plain_config :: server_config where
  "plain_config = \<lparr>sc_ListenAddr = '':50052'', sc_GracefulTimeout = 5,
     sc_TLS = \<lparr>st_Enabled = False, st_CertFile = [], st_KeyFile = []\<rparr>, sc_ReflectionEnabled = False\<rparr>"

theorem request_chain_witness:
  "\<exists>(srv :: (nat, unit) grpc_server) lg. skeeper_server (\<lambda>_ _. Inr ()) toy (calm (Unix_Ns 0)) ''/skeeper/Sync'' plain_config toy_helper = Inr srv \<and>
    run_chain (gs_unary srv) (\<lambda>cx. ret (Panicked ''boom'')) (toy_ctx None) (7, []) =
      (Inl (StatusErr Unauthenticated ''metadata is not provided''), (7, lg)) \<and>
    map lr_Message lg = [''request started'', ''request finished'']"
proof -
  obtain srv :: "(nat, unit) grpc_server"
    where srv: "skeeper_server (\<lambda>_ _. Inr ()) toy (calm (Unix_Ns 0)) ''/skeeper/Sync'' plain_config toy_helper = Inr srv"
    by (simp add: skeeper_server_def server_New_def plain_config_def)
  from request_chain [OF srv, of "\<lambda>cx. ret (Panicked ''boom'')" "toy_ctx None" 7 "[]"] srv
  show ?thesis by (auto simp: authorize_def toy_ctx_def started_record_def finished_record_def)
qed

end
