(* ===== verification/Server_Life.thy ===== *)
theory Server_Life
  imports Interceptors
begin

text \<open>
  The life of a service (\<^verbatim>\<open>internal/pkg/server/server.go\<close>): two goroutines of an
  \<^verbatim>\<open>errgroup\<close>, one serving, one waiting to shut the server down, and a third that
  drains it. A state says where each of them is; a step is one move of one of them. gRPC's
  server moves as its documentation says: \<^verbatim>\<open>Serve\<close> returns nil only when the server was
  told to stop, \<^verbatim>\<open>GracefulStop\<close> takes no new requests and returns when the last is
  answered, \<^verbatim>\<open>Stop\<close> aborts them all.
\<close>

section \<open>States\<close>

datatype serve_pc = Listening | Serving | ServeDone "go_error option"
datatype shutdown_pc = AwaitCtx | AwaitStopped | ShutdownDone
datatype drain_pc = NotSpawned | Spawned | Draining | Stopped

record life =
  lf_serve :: serve_pc
  lf_shutdown :: shutdown_pc
  lf_drain :: drain_pc
  lf_cancelled :: bool
  lf_first_err :: "go_error option"
  lf_quit :: bool
  lf_forced :: bool
  lf_active :: nat
  lf_accepted :: nat
  lf_answered :: nat
  lf_aborted :: nat
  lf_result :: "go_error option option"

text \<open>\<^verbatim>\<open>Serve\<close> has just started both goroutines.\<close>

definition starting :: life where
  "starting = \<lparr>lf_serve = Listening, lf_shutdown = AwaitCtx, lf_drain = NotSpawned, lf_cancelled = False, lf_first_err = None,
     lf_quit = False, lf_forced = False, lf_active = 0, lf_accepted = 0, lf_answered = 0, lf_aborted = 0, lf_result = None\<rparr>"

text \<open>The context of the group: cancelled with its parent, or by the first error.\<close>

definition group_done :: "life \<Rightarrow> bool" where
  "group_done s \<longleftrightarrow> lf_cancelled s \<or> lf_first_err s \<noteq> None"

section \<open>Moves\<close>

inductive moves :: "string \<Rightarrow> life \<Rightarrow> life \<Rightarrow> bool" for addr where
  listen_fails: "lf_serve s = Listening \<Longrightarrow> err = Wrap (Some e) (''failed to listen addr '' @ addr) \<Longrightarrow>
    moves addr s (s\<lparr>lf_serve := ServeDone (Some err), lf_first_err := Some err\<rparr>)"
| listens: "lf_serve s = Listening \<Longrightarrow> moves addr s (s\<lparr>lf_serve := Serving\<rparr>)"
| serve_fails: "lf_serve s = Serving \<Longrightarrow> \<not> lf_quit s \<Longrightarrow> err = Wrap (Some e) ''grpc serve failed'' \<Longrightarrow>
    moves addr s (s\<lparr>lf_serve := ServeDone (Some err), lf_first_err := Some err\<rparr>)"
| serve_stops: "lf_serve s = Serving \<Longrightarrow> lf_quit s \<Longrightarrow> moves addr s (s\<lparr>lf_serve := ServeDone None\<rparr>)"
| shutdown_starts: "lf_shutdown s = AwaitCtx \<Longrightarrow> group_done s \<Longrightarrow>
    moves addr s (s\<lparr>lf_shutdown := AwaitStopped, lf_drain := Spawned\<rparr>)"
| drain_starts: "lf_drain s = Spawned \<Longrightarrow> moves addr s (s\<lparr>lf_drain := Draining, lf_quit := True\<rparr>)"
| drained: "lf_drain s = Draining \<Longrightarrow> lf_active s = 0 \<Longrightarrow> moves addr s (s\<lparr>lf_drain := Stopped\<rparr>)"
| stopped: "lf_shutdown s = AwaitStopped \<Longrightarrow> lf_drain s = Stopped \<Longrightarrow> moves addr s (s\<lparr>lf_shutdown := ShutdownDone\<rparr>)"
| times_out: "lf_shutdown s = AwaitStopped \<Longrightarrow>
    moves addr s (s\<lparr>lf_shutdown := ShutdownDone, lf_quit := True, lf_forced := True,
      lf_active := 0, lf_aborted := lf_aborted s + lf_active s\<rparr>)"
| answers: "0 < lf_active s \<Longrightarrow> moves addr s (s\<lparr>lf_active := lf_active s - 1, lf_answered := lf_answered s + 1\<rparr>)"
| returns: "lf_serve s = ServeDone r \<Longrightarrow> lf_shutdown s = ShutdownDone \<Longrightarrow> lf_result s = None \<Longrightarrow>
    moves addr s (s\<lparr>lf_result := Some (map_option (\<lambda>e. Wrap (Some e) ''serve failed'') (lf_first_err s))\<rparr>)"

text \<open>
  What comes from outside: the signal that cancels the context, and requests (on connections
  that are open, also after accepting new ones has failed).
\<close>

inductive arrives :: "life \<Rightarrow> life \<Rightarrow> bool" where
  cancel: "arrives s (s\<lparr>lf_cancelled := True\<rparr>)"
| request: "lf_serve s = Serving \<or> (\<exists>e. lf_serve s = ServeDone (Some (Wrap (Some e) ''grpc serve failed''))) \<Longrightarrow>
    \<not> lf_quit s \<Longrightarrow>
    arrives s (s\<lparr>lf_active := lf_active s + 1, lf_accepted := lf_accepted s + 1\<rparr>)"

inductive reached :: "string \<Rightarrow> life \<Rightarrow> bool" for addr where
  start: "reached addr starting"
| move: "reached addr s \<Longrightarrow> moves addr s t \<Longrightarrow> reached addr t"
| arrival: "reached addr s \<Longrightarrow> arrives s t \<Longrightarrow> reached addr t"

section \<open>The invariant\<close>

definition failure :: "string \<Rightarrow> go_error \<Rightarrow> bool" where
  "failure addr err \<longleftrightarrow> (\<exists>e. err = Wrap (Some e) (''failed to listen addr '' @ addr) \<or> err = Wrap (Some e) ''grpc serve failed'')"

text \<open>The requests: none is lost track of, and only a forced stop aborts one.\<close>

definition requests_ok :: "life \<Rightarrow> bool" where
  "requests_ok s \<longleftrightarrow> lf_accepted s = lf_active s + lf_answered s + lf_aborted s \<and> (lf_aborted s \<noteq> 0 \<longrightarrow> lf_forced s) \<and>
    (lf_drain s = Stopped \<or> lf_shutdown s = ShutdownDone \<longrightarrow> lf_quit s \<and> lf_active s = 0) \<and>
    (lf_drain s = Draining \<or> lf_forced s \<longrightarrow> lf_quit s)"

text \<open>The goroutines: which states of theirs go together.\<close>

definition goroutines_ok :: "string \<Rightarrow> life \<Rightarrow> bool" where
  "goroutines_ok addr s \<longleftrightarrow>
    lf_first_err s = (case lf_serve s of ServeDone r \<Rightarrow> r | _ \<Rightarrow> None) \<and>
    (\<forall>e. lf_serve s = ServeDone (Some e) \<longrightarrow> failure addr e) \<and>
    (lf_serve s = ServeDone None \<longrightarrow> lf_quit s) \<and>
    (lf_quit s \<longrightarrow> lf_shutdown s \<noteq> AwaitCtx) \<and>
    (lf_shutdown s = AwaitCtx \<longleftrightarrow> lf_drain s = NotSpawned) \<and>
    (lf_shutdown s \<noteq> AwaitCtx \<longrightarrow> group_done s) \<and>
    (\<forall>x. lf_result s = Some x \<longrightarrow> lf_shutdown s = ShutdownDone \<and>
      (\<exists>r. lf_serve s = ServeDone r \<and> x = map_option (\<lambda>e. Wrap (Some e) ''serve failed'') r))"

lemmas life_defs = requests_ok_def goroutines_ok_def group_done_def failure_def

lemma starting_ok: "requests_ok starting" "goroutines_ok addr starting"
  by (simp_all add: life_defs starting_def)

lemma moves_requests: "moves addr s t \<Longrightarrow> requests_ok s \<Longrightarrow> requests_ok t"
  by (induction rule: moves.induct) (auto simp: requests_ok_def)

lemma moves_goroutines: "moves addr s t \<Longrightarrow> goroutines_ok addr s \<Longrightarrow> goroutines_ok addr t"
  by (induction rule: moves.induct) (auto simp: goroutines_ok_def group_done_def failure_def)

lemma arrives_ok: "arrives s t \<Longrightarrow> requests_ok s \<Longrightarrow> goroutines_ok addr s \<Longrightarrow> requests_ok t \<and> goroutines_ok addr t"
  by (induction rule: arrives.induct) (auto simp: life_defs)

lemma reached_ok: "reached addr s \<Longrightarrow> requests_ok s \<and> goroutines_ok addr s"
  by (induction rule: reached.induct) (auto simp: starting_ok moves_requests moves_goroutines arrives_ok)


section \<open>Shutting down\<close>

fun serve_work :: "serve_pc \<Rightarrow> nat" where
  "serve_work Listening = 2" | "serve_work Serving = 1" | "serve_work (ServeDone r) = 0"

fun shutdown_work :: "shutdown_pc \<Rightarrow> nat" where
  "shutdown_work AwaitCtx = 2" | "shutdown_work AwaitStopped = 1" | "shutdown_work ShutdownDone = 0"

fun drain_work :: "drain_pc \<Rightarrow> nat" where
  "drain_work NotSpawned = 3" | "drain_work Spawned = 2" | "drain_work Draining = 1" | "drain_work Stopped = 0"

definition work :: "life \<Rightarrow> nat" where
  "work s = serve_work (lf_serve s) + shutdown_work (lf_shutdown s) + drain_work (lf_drain s) + lf_active s +
    (if lf_result s = None then 1 else 0)"

lemma moves_work: "moves addr s t \<Longrightarrow> goroutines_ok addr s \<Longrightarrow> work t < work s"
  by (induction rule: moves.induct) (auto simp: work_def goroutines_ok_def)

lemma moves_bounded: "(moves addr ^^ n) s t \<Longrightarrow> goroutines_ok addr s \<Longrightarrow> n + work t \<le> work s \<and> goroutines_ok addr t"
proof (induction n arbitrary: t)
  case (Suc n)
  then obtain u where "(moves addr ^^ n) s u" and "moves addr u t" by auto
  with Suc.IH [of u] Suc.prems(2) moves_work [of addr u t] moves_goroutines [of addr u t] show ?case by fastforce
qed simp

lemma moves_keep_done: "moves addr s t \<Longrightarrow> group_done s \<Longrightarrow> group_done t"
  by (induction rule: moves.induct) (auto simp: group_done_def)

text \<open>A service that is to shut down can always move until it has returned.\<close>

lemma can_move:
  assumes "requests_ok s" and "goroutines_ok addr s" and "group_done s" and "lf_result s = None"
  shows "\<exists>t. moves addr s t"
proof (cases "lf_serve s")
  case Listening
  then show ?thesis by (blast intro: moves.listens)
next
  case Serving
  show ?thesis
  proof (cases "lf_shutdown s")
    case AwaitCtx
    then show ?thesis using assms(3) by (blast intro: moves.shutdown_starts)
  next
    case AwaitStopped
    then show ?thesis by (blast intro: moves.times_out)
  next
    case ShutdownDone
    then have "lf_quit s" using assms(1) by (simp add: requests_ok_def)
    with Serving show ?thesis by (blast intro: moves.serve_stops)
  qed
next
  case (ServeDone r)
  show ?thesis
    by (cases "lf_shutdown s")
      (use ServeDone assms(3,4) in \<open>blast intro: moves.shutdown_starts moves.times_out moves.returns\<close>)+
qed


section \<open>A concrete life\<close>

text \<open>A service that is cancelled while it handles a request, and answers it.\<close>

definition cancelled_life :: life where
  "cancelled_life = starting\<lparr>lf_serve := Serving, lf_active := 1, lf_accepted := 1, lf_cancelled := True\<rparr>"

lemma cancelled_life_reached: "reached addr cancelled_life"
proof -
  have 1: "reached addr (starting\<lparr>lf_serve := Serving\<rparr>)"
    by (rule reached.move [OF reached.start moves.listens]) (simp add: starting_def)
  have 2: "arrives (starting\<lparr>lf_serve := Serving\<rparr>) (starting\<lparr>lf_serve := Serving, lf_active := 1, lf_accepted := 1\<rparr>)"
    using arrives.request [of "starting\<lparr>lf_serve := Serving\<rparr>"] by (simp add: starting_def)
  show ?thesis
    using reached.arrival [OF reached.arrival [OF 1 2] arrives.cancel] by (simp add: cancelled_life_def)
qed


text \<open>A service whose address is taken.\<close>

definition failed_life :: life where
  "failed_life = starting\<lparr>lf_serve := ServeDone (Some (Wrap (Some (LibErr ''in use'')) (''failed to listen addr '' @ '':1''))),
     lf_first_err := Some (Wrap (Some (LibErr ''in use'')) (''failed to listen addr '' @ '':1'')), lf_shutdown := ShutdownDone,
     lf_drain := Spawned, lf_quit := True, lf_forced := True,
     lf_result := Some (Some (Wrap (Some (Wrap (Some (LibErr ''in use'')) (''failed to listen addr '' @ '':1''))) ''serve failed''))\<rparr>"


end
