(* ===== verification/Local_Store.thy ===== *)
theory Local_Store
  imports Vault_Crypto Tables Instance_Lib "HOL-Library.Char_ord" "HOL-Library.List_Lexorder"
begin

text \<open>
  The local SQLite vault (\<^verbatim>\<open>internal/client/repository/db/sqlite.go\<close>): encrypted entries
  keyed by the text of their uuid, and the vault parameters of each account on the device. Times
  are stored as the text the driver writes; SQLite orders and compares that text byte by byte.
  An empty slice is a nil slice in the model and binds NULL; NULL scans back into an empty slice.
\<close>

section \<open>The database of a device\<close>

record local_row =
  le_UUID :: string
  le_UserID :: int64
  le_Type :: string
  le_EncryptedDek :: bytes
  le_Payload :: bytes
  le_Meta :: bytes
  le_Version :: int64
  le_IsDeleted :: bool
  le_UpdatedAt :: string
  le_IsDirty :: bool

text \<open>\<open>so_RefreshExpiresAt\<close> and the other columns of the session are NOT NULL.\<close>

record session_row =
  so_AccessToken :: string
  so_RefreshToken :: string
  so_ExpiresAt :: string
  so_RefreshExpiresAt :: string
  so_UserID :: int64

record device =
  dv_entries :: "local_row list"
  dv_session :: "session_row option"
  dv_crypto :: "int64 \<rightharpoonup> bytes \<times> bytes"
  dv_sessionKey :: bytes

text \<open>The constraints of the \<^verbatim>\<open>entries\<close> table: its primary key, and no NULL key or payload.\<close>

definition local_ok :: "device \<Rightarrow> bool" where
  "local_ok d \<longleftrightarrow> unique_keys le_UUID (dv_entries d) \<and>
    (\<forall>r\<in>set (dv_entries d). le_EncryptedDek r \<noteq> [] \<and> le_Payload r \<noteq> [])"

section \<open>Writing entries\<close>

text \<open>
  \<^verbatim>\<open>user_id\<close>, \<^verbatim>\<open>encrypted_dek\<close> and \<^verbatim>\<open>payload\<close> are NOT NULL
  (\<^verbatim>\<open>migrations/client/00001_create_entries_table.sql\<close>), and SQLite checks that before it
  looks for a conflict on the uuid; the \<^verbatim>\<open>COALESCE\<close> of the conflict branch therefore
  never sees a NULL.
\<close>

definition entry_to_row :: "lib \<Rightarrow> client_entry \<Rightarrow> bool \<Rightarrow> int64 \<Rightarrow> local_row" where
  "entry_to_row L e isDirty u = \<lparr>
     le_UUID = uuid_String L (ce_UUID e), le_UserID = u, le_Type = ce_Type e,
     le_EncryptedDek = ce_EncryptedDek e, le_Payload = ce_Payload e, le_Meta = ce_Meta e,
     le_Version = ce_Version e, le_IsDeleted = ce_IsDeleted e,
     le_UpdatedAt = sqlite_time_text L (ce_UpdatedAt e), le_IsDirty = isDirty\<rparr>"

definition saveEntry :: "lib \<Rightarrow> client_entry \<Rightarrow> bool \<Rightarrow> (device, go_error, unit) cmd" where
  "saveEntry L e isDirty d =
    (case ce_UserID e of
       None \<Rightarrow> (Inl (LibErr ''NOT NULL constraint failed: entries.user_id''), d)
     | Some u \<Rightarrow>
         if ce_EncryptedDek e = [] then (Inl (LibErr ''NOT NULL constraint failed: entries.encrypted_dek''), d)
         else if ce_Payload e = [] then (Inl (LibErr ''NOT NULL constraint failed: entries.payload''), d)
         else (Inr (), d\<lparr>dv_entries := put_row le_UUID (entry_to_row L e isDirty u) (dv_entries d)\<rparr>))"

definition SaveEntry :: "lib \<Rightarrow> env \<Rightarrow> client_entry \<Rightarrow> bool \<Rightarrow> (device, go_error, unit) cmd" where
  "SaveEntry L ev e isDirty = ack_call ev EntrySave (saveEntry L e isDirty)"

definition clear_dirty :: "lib \<Rightarrow> uuid \<Rightarrow> int64 \<Rightarrow> (device, go_error, unit) cmd" where
  "clear_dirty L u userID d = (Inr (), d\<lparr>dv_entries :=
     update_where (\<lambda>r. le_UUID r = uuid_String L u \<and> le_UserID r = userID) (\<lambda>r. r\<lparr>le_IsDirty := False\<rparr>)
       (dv_entries d)\<rparr>)"

definition MarkAsSynced :: "lib \<Rightarrow> env \<Rightarrow> uuid \<Rightarrow> int64 \<Rightarrow> (device, go_error, unit) cmd" where
  "MarkAsSynced L ev u userID = ack_call ev EntryMarkSynced (clear_dirty L u userID)"

text \<open>The two loops of \<^verbatim>\<open>PersistSyncResult\<close>; \<open>i\<close> counts the statements of each.\<close>

fun persist_updates :: "lib \<Rightarrow> env \<Rightarrow> int64 \<Rightarrow> nat \<Rightarrow> client_entry list \<Rightarrow> (device, go_error, unit) cmd" where
  "persist_updates L ev userID i [] = ret ()"
| "persist_updates L ev userID i (e # es) =
    bind_m (try_call ev (PersistSave i)) (\<lambda>_.
    bind_m (saveEntry L (e\<lparr>ce_UserID := Some userID\<rparr>) False) (\<lambda>_.
    persist_updates L ev userID (Suc i) es))"

fun persist_marks :: "lib \<Rightarrow> env \<Rightarrow> int64 \<Rightarrow> uuid set \<Rightarrow> nat \<Rightarrow> client_entry list \<Rightarrow> (device, go_error, unit) cmd" where
  "persist_marks L ev userID applied i [] = ret ()"
| "persist_marks L ev userID applied i (e # es) =
    (if ce_UUID e \<notin> applied then persist_marks L ev userID applied (Suc i) es
     else
       bind_m (try_call ev (PersistMark i)) (\<lambda>_.
       bind_m (clear_dirty L (ce_UUID e) userID) (\<lambda>_.
       persist_marks L ev userID applied (Suc i) es)))"

definition PersistSyncResult ::
  "lib \<Rightarrow> env \<Rightarrow> int64 \<Rightarrow> client_entry list \<Rightarrow> client_entry list \<Rightarrow> uuid set \<Rightarrow> (device, go_error, unit) cmd" where
  "PersistSyncResult L ev userID updates dirty applied =
    bind_m (try_call ev PersistBegin) (\<lambda>_.
    bind_m (atomically
      (bind_m (persist_updates L ev userID 0 updates) (\<lambda>_.
       bind_m (persist_marks L ev userID applied 0 dirty) (\<lambda>_.
       try_call ev PersistCommit)))) (\<lambda>_.
    try_call ev (Ack PersistCommit)))"

section \<open>Reading entries\<close>

definition row_time :: "lib \<Rightarrow> local_row \<Rightarrow> go_error + gotime" where
  "row_time L r = (case sqlite_time_read L (le_UpdatedAt r) of
      None \<Rightarrow> Inl (LibErr ''sql: Scan error on column updated_at'') | Some t \<Rightarrow> Inr t)"

definition row_entry :: "local_row \<Rightarrow> uuid \<Rightarrow> gotime \<Rightarrow> bool \<Rightarrow> client_entry" where
  "row_entry r u t isDirty = \<lparr>
     ce_UUID = u, ce_Type = le_Type r, ce_EncryptedDek = le_EncryptedDek r,
     ce_Payload = le_Payload r, ce_Meta = le_Meta r, ce_Version = le_Version r,
     ce_IsDeleted = le_IsDeleted r, ce_UpdatedAt = t, ce_IsDirty = isDirty,
     ce_UserID = Some (le_UserID r)\<rparr>"

text \<open>\<^verbatim>\<open>AND user_id = ?\<close> is added when a user is given.\<close>

definition for_user :: "int64 option \<Rightarrow> local_row \<Rightarrow> bool" where
  "for_user forUserID r = (case forUserID of None \<Rightarrow> True | Some u \<Rightarrow> le_UserID r = u)"

text \<open>
  The loop over \<^verbatim>\<open>rows.Next\<close>: fetching row \<open>i\<close> may fail, which ends the loop
  and is what \<^verbatim>\<open>rows.Err\<close> then reports; \<open>w\<close> is how the caller wraps it.
\<close>

fun read_rows ::
  "env \<Rightarrow> (nat \<Rightarrow> db_call) \<Rightarrow> (go_error \<Rightarrow> go_error) \<Rightarrow> (local_row \<Rightarrow> go_error + client_entry) \<Rightarrow> nat \<Rightarrow> local_row list \<Rightarrow>
    (device, go_error, client_entry list) cmd" where
  "read_rows ev call w scan i [] = bind_m (map_err w (try_call ev (call i))) (\<lambda>_. ret [])"
| "read_rows ev call w scan i (r # rs) =
    bind_m (map_err w (try_call ev (call i))) (\<lambda>_.
    bind_m (of_result (scan r)) (\<lambda>e.
    bind_m (read_rows ev call w scan (Suc i) rs) (\<lambda>es.
    ret (e # es))))"

definition scan_dirty :: "lib \<Rightarrow> local_row \<Rightarrow> go_error + client_entry" where
  "scan_dirty L r =
    (case row_time L r of
       Inl e \<Rightarrow> Inl (Wrap (Some e) ''entries scan error'')
     | Inr t \<Rightarrow>
         (case uuid_Parse L (le_UUID r) of
            None \<Rightarrow> Inl (Wrap (Some (LibErr ''invalid UUID'')) (''entries uuid '' @ fmt_q L (le_UUID r) @ '' parse error''))
          | Some u \<Rightarrow> Inr (row_entry r u t False)))"

definition GetDirtyEntries :: "lib \<Rightarrow> env \<Rightarrow> int64 option \<Rightarrow> (device, go_error, client_entry list) cmd" where
  "GetDirtyEntries L ev forUserID =
    bind_m (try_call ev EntryDirty) (\<lambda>_.
    bind_m (gets (\<lambda>d. filter (\<lambda>r. le_IsDirty r \<and> for_user forUserID r) (dv_entries d))) (\<lambda>rows.
    read_rows ev EntryDirtyRow (\<lambda>e. Wrap (Some e) ''entries rows error'') (scan_dirty L) 0 rows))"

definition scan_entry :: "lib \<Rightarrow> local_row \<Rightarrow> go_error + client_entry" where
  "scan_entry L r =
    (case row_time L r of
       Inl e \<Rightarrow> Inl e
     | Inr t \<Rightarrow>
         (case uuid_Parse L (le_UUID r) of
            None \<Rightarrow> Inl (LibErr ''invalid UUID'')
          | Some u \<Rightarrow> Inr (row_entry r u t (le_IsDirty r))))"

definition select_entry :: "lib \<Rightarrow> uuid \<Rightarrow> int64 option \<Rightarrow> device \<Rightarrow> local_row option" where
  "select_entry L i forUserID d =
    find_row le_UUID (filter (for_user forUserID) (dv_entries d)) (uuid_String L i)"

definition GetEntry :: "lib \<Rightarrow> env \<Rightarrow> uuid \<Rightarrow> int64 option \<Rightarrow> (device, go_error, client_entry) cmd" where
  "GetEntry L ev i forUserID =
    bind_m (try_call ev EntryGet) (\<lambda>_.
    bind_m (gets (select_entry L i forUserID)) (\<lambda>row.
      case row of
        None \<Rightarrow> raise (Sentinel Sql_ErrNoRows)
      | Some r \<Rightarrow> of_result (scan_entry L r)))"

text \<open>Newest first, by the stored text.\<close>

definition ListEntries :: "lib \<Rightarrow> env \<Rightarrow> int64 option \<Rightarrow> (device, go_error, client_entry list) cmd" where
  "ListEntries L ev forUserID =
    bind_m (try_call ev EntryList) (\<lambda>_.
    bind_m (gets (\<lambda>d. rev (sort_key le_UpdatedAt
      (filter (\<lambda>r. \<not> le_IsDeleted r \<and> for_user forUserID r) (dv_entries d))))) (\<lambda>rows.
    read_rows ev EntryListRow (\<lambda>e. e) (scan_entry L) 0 rows))"

text \<open>
  \<^verbatim>\<open>COALESCE(unixepoch(MAX(updated_at)), 0)\<close>: the largest text; no rows and a text SQLite
  does not read as a time both give 0.
\<close>

definition GetLastUpdate :: "lib \<Rightarrow> env \<Rightarrow> int64 option \<Rightarrow> (device, go_error, gotime) cmd" where
  "GetLastUpdate L ev forUserID =
    bind_m (try_call ev EntryLast) (\<lambda>_.
    gets (\<lambda>d. let texts = map le_UpdatedAt (filter (for_user forUserID) (dv_entries d));
        lastUpdateInt = (if texts = [] then 0
          else case sqlite_unixepoch L (foldr max (tl texts) (hd texts)) of None \<Rightarrow> 0 | Some n \<Rightarrow> n)
      in Unix_Ns (lastUpdateInt * second)))"

section \<open>Vault parameters on the device\<close>

definition kdfSaltSize :: nat where "kdfSaltSize = 16"

definition EnsureLocalVaultCrypto :: "env \<Rightarrow> int64 \<Rightarrow> (device, go_error, bytes \<times> bytes) cmd" where
  "EnsureLocalVaultCrypto ev userID =
    bind_m (try_call ev CryptoSelect) (\<lambda>_.
    bind_m (gets (\<lambda>d. dv_crypto d userID)) (\<lambda>row.
      case row of
        Some sv \<Rightarrow> ret sv
      | None \<Rightarrow>
          (let salt = rand_bytes ev DrawSalt kdfSaltSize
           in bind_m (ack_call ev CryptoInsert
                (\<lambda>d. (Inr (), d\<lparr>dv_crypto := (dv_crypto d)(userID \<mapsto> (salt, []))\<rparr>))) (\<lambda>_.
              ret (salt, [])))))"

definition ReplaceLocalVaultCrypto :: "env \<Rightarrow> int64 \<Rightarrow> bytes \<Rightarrow> bytes \<Rightarrow> (device, go_error, unit) cmd" where
  "ReplaceLocalVaultCrypto ev userID salt masterVerifier =
    ack_call ev CryptoReplace (\<lambda>d. (Inr (), d\<lparr>dv_crypto := (dv_crypto d)(userID \<mapsto> (salt, masterVerifier))\<rparr>))"

definition SetLocalMasterVerifier :: "env \<Rightarrow> int64 \<Rightarrow> bytes \<Rightarrow> (device, go_error, unit) cmd" where
  "SetLocalMasterVerifier ev userID masterVerifier =
    ack_call ev CryptoVerifier (\<lambda>d. (Inr (), d\<lparr>dv_crypto :=
      (\<lambda>u. if u = userID then map_option (\<lambda>(salt, _). (salt, masterVerifier)) (dv_crypto d u) else dv_crypto d u)\<rparr>))"

section \<open>The entries table is a keyed store\<close>

abbreviation look_local :: "local_row list \<Rightarrow> string \<Rightarrow> local_row option" where
  "look_local \<equiv> find_row le_UUID"

interpretation local_entries: keyed_store le_UUID "unique_keys le_UUID" look_local "put_row le_UUID"
proof unfold_locales
  show "look_local t k = Some r \<Longrightarrow> le_UUID r = k" for t k r
    by (rule find_row_key)
qed (simp_all only: find_row_put_row_fun unique_keys_put_row)

lemma le_UUID_entry_to_row [simp]: "le_UUID (entry_to_row L e b u) = uuid_String L (ce_UUID e)"
  and le_UserID_entry_to_row [simp]: "le_UserID (entry_to_row L e b u) = u"
  and le_IsDirty_entry_to_row [simp]: "le_IsDirty (entry_to_row L e b u) = b"
  and le_IsDeleted_entry_to_row [simp]: "le_IsDeleted (entry_to_row L e b u) = ce_IsDeleted e"
  by (simp_all add: entry_to_row_def)

text \<open>Scanning a stored row gives the entry back, with its owner and dirty flag.\<close>

lemma scan_entry_to_row:
  "uuid_ok L \<Longrightarrow> sqlite_time_ok L \<Longrightarrow>
    scan_entry L (entry_to_row L e b u) = Inr (e\<lparr>ce_IsDirty := b, ce_UserID := Some u\<rparr>)"
  by (simp add: scan_entry_def row_time_def entry_to_row_def sqlite_time_read_text uuid_Parse_String row_entry_def)

lemma scan_dirty_to_row:
  "uuid_ok L \<Longrightarrow> sqlite_time_ok L \<Longrightarrow>
    scan_dirty L (entry_to_row L e b u) = Inr (e\<lparr>ce_IsDirty := False, ce_UserID := Some u\<rparr>)"
  by (simp add: scan_dirty_def row_time_def entry_to_row_def sqlite_time_read_text uuid_Parse_String row_entry_def)

interpretation local_rows: codec "\<lambda>(L, b, u) e. entry_to_row L e b u"
  "\<lambda>(L, b, u) r. case scan_entry L r of Inl _ \<Rightarrow> None | Inr e \<Rightarrow> Some e"
  "\<lambda>(L, b, u) e. uuid_ok L \<and> sqlite_time_ok L \<and> ce_IsDirty e = b \<and> ce_UserID e = Some u"
  by unfold_locales (auto simp: scan_entry_to_row)

text \<open>An entry with a wrapped key and a payload: what every operation that seals an entry makes.\<close>

definition sealed :: "client_entry \<Rightarrow> bool" where
  "sealed e \<longleftrightarrow> ce_EncryptedDek e \<noteq> [] \<and> ce_Payload e \<noteq> []"

lemma sealed_local [simp]:
  "sealed (e\<lparr>ce_IsDirty := b\<rparr>) = sealed e" "sealed (e\<lparr>ce_UserID := w\<rparr>) = sealed e"
  "sealed (e\<lparr>ce_IsDeleted := b\<rparr>) = sealed e" "sealed (e\<lparr>ce_Version := v\<rparr>) = sealed e"
  "sealed (e\<lparr>ce_UpdatedAt := t\<rparr>) = sealed e"
  by (simp_all add: sealed_def)

lemma entry_to_row_sealed:
  "le_EncryptedDek (entry_to_row L e b u) \<noteq> [] \<and> le_Payload (entry_to_row L e b u) \<noteq> [] \<longleftrightarrow> sealed e"
  by (simp add: entry_to_row_def sealed_def)

lemma local_ok_put:
  "local_ok d \<Longrightarrow> sealed e \<Longrightarrow> local_ok (d\<lparr>dv_entries := put_row le_UUID (entry_to_row L e b u) (dv_entries d)\<rparr>)"
  using set_put_row_subset [of le_UUID "entry_to_row L e b u" "dv_entries d"] entry_to_row_sealed [of L e b u]
  by (auto simp: local_ok_def unique_keys_put_row)

lemma local_ok_sealed:
  "local_ok d \<Longrightarrow> find_row le_UUID (dv_entries d) k = Some (entry_to_row L e b u) \<Longrightarrow> sealed e"
  using entry_to_row_sealed [of L e b u] by (auto simp: local_ok_def dest!: find_row_in_set)

lemma SaveEntry_ok:
  "no_faults ev \<Longrightarrow> ce_UserID e = Some u \<Longrightarrow> sealed e \<Longrightarrow>
    SaveEntry L ev e b d = (Inr (), d\<lparr>dv_entries := put_row le_UUID (entry_to_row L e b u) (dv_entries d)\<rparr>)"
  by (simp add: SaveEntry_def saveEntry_def sealed_def)

lemma saveEntry_cases:
  assumes "saveEntry L e b d = (r, d')"
  obtains (refused) x where "ce_UserID e = None \<or> \<not> sealed e" and "r = Inl x" and "d' = d"
    | (saved) u where "ce_UserID e = Some u" and "sealed e" and "r = Inr ()"
      and "d' = d\<lparr>dv_entries := put_row le_UUID (entry_to_row L e b u) (dv_entries d)\<rparr>"
  using assms by (auto simp: saveEntry_def sealed_def split: option.splits if_splits)

lemma preserves_saveEntry [cmd_frame]: "preserves local_ok (saveEntry L e b)"
  unfolding preserves_def
proof (intro allI impI)
  fix d :: device assume ok: "local_ok d"
  obtain r d' where run: "saveEntry L e b d = (r, d')" by (cases "saveEntry L e b d")
  then show "local_ok (snd (saveEntry L e b d))"
    by (cases rule: saveEntry_cases) (use run ok local_ok_put [OF ok] in simp_all)
qed

lemma preserves_SaveEntry [cmd_frame]: "preserves local_ok (SaveEntry L ev e b)"
  unfolding SaveEntry_def by (intro cmd_frame)

lemma keeps_saveEntry [cmd_frame]:
  "keeps dv_session (saveEntry L e b)" "keeps dv_crypto (saveEntry L e b)" "keeps dv_sessionKey (saveEntry L e b)"
  by (simp_all add: keeps_def saveEntry_def split: option.split)

lemma keeps_SaveEntry [cmd_frame]:
  "keeps dv_session (SaveEntry L ev e b)" "keeps dv_crypto (SaveEntry L ev e b)" "keeps dv_sessionKey (SaveEntry L ev e b)"
  unfolding SaveEntry_def by (intro cmd_frame)+

lemma select_entry_eq:
  "local_ok d \<Longrightarrow> select_entry L i (Some u) d =
    (case look_local (dv_entries d) (uuid_String L i) of None \<Rightarrow> None
     | Some r \<Rightarrow> if le_UserID r = u then Some r else None)"
  by (simp add: select_entry_def local_ok_def find_row_filter for_user_def split: option.split)

lemma GetEntry_answer:
  "no_faults ev \<Longrightarrow> GetEntry L ev i w d =
    ((case select_entry L i w d of None \<Rightarrow> Inl (Sentinel Sql_ErrNoRows) | Some r \<Rightarrow> scan_entry L r), d)"
  by (simp add: GetEntry_def bind_m_def ret_def gets_def raise_def of_result_def split: option.split)

lemma keeps_GetEntry [cmd_frame]: "keeps f (GetEntry L ev i w)"
  unfolding GetEntry_def by (intro cmd_frame)

lemma preserves_GetEntry [cmd_frame]: "preserves I (GetEntry L ev i w)"
  unfolding GetEntry_def by (intro cmd_frame)

lemma read_rows_ok:
  "no_faults ev \<Longrightarrow> read_rows ev call w scan i rs = of_result (map_result scan rs)"
  by (induction rs arbitrary: i)
    (auto simp: map_err_def bind_m_def of_result_def ret_def fun_eq_iff split: sum.splits)

lemma keeps_read_rows [cmd_frame]: "keeps f (read_rows ev call w scan i rs)"
proof (induction rs arbitrary: i)
  case (Cons r rs)
  show ?case by (simp, intro cmd_frame Cons.IH)
qed (simp, intro cmd_frame)

lemma preserves_read_rows [cmd_frame]: "preserves I (read_rows ev call w scan i rs)"
proof (induction rs arbitrary: i)
  case (Cons r rs)
  show ?case by (simp, intro cmd_frame Cons.IH)
qed (simp, intro cmd_frame)

text \<open>
  The local vault returns what was saved. After an entry of a user was saved, reading its
  uuid as that user gives the same entry with the saved dirty flag; as another user it is not
  there; every other uuid reads as before.
\<close>

theorem save_then_get:
  assumes "no_faults ev" and "no_faults ev2" and "uuid_ok L" and "sqlite_time_ok L" and "local_ok d"
    and "ce_UserID e = Some u" and "sealed e"
  shows "\<exists>d'. SaveEntry L ev e b d = (Inr (), d') \<and> local_ok d' \<and>
    fst (GetEntry L ev2 (ce_UUID e) (Some u) d') = Inr (e\<lparr>ce_IsDirty := b\<rparr>) \<and>
    (\<forall>v. v \<noteq> u \<longrightarrow> fst (GetEntry L ev2 (ce_UUID e) (Some v) d') = Inl (Sentinel Sql_ErrNoRows)) \<and>
    (\<forall>i w. i \<noteq> ce_UUID e \<longrightarrow> fst (GetEntry L ev2 i (Some w) d') = fst (GetEntry L ev2 i (Some w) d))"
proof -
  let ?d = "d\<lparr>dv_entries := put_row le_UUID (entry_to_row L e b u) (dv_entries d)\<rparr>"
  have ok: "local_ok ?d" by (rule local_ok_put [OF assms(5,7)])
  have look: "look_local (put_row le_UUID (entry_to_row L e b u) (dv_entries d)) (uuid_String L i) =
      (if i = ce_UUID e then Some (entry_to_row L e b u) else look_local (dv_entries d) (uuid_String L i))" for i
    by (simp add: find_row_put_row uuid_String_inj [OF assms(3)])
  have "e\<lparr>ce_IsDirty := b, ce_UserID := Some u\<rparr> = e\<lparr>ce_IsDirty := b\<rparr>"
    using assms(6) by (cases e) simp
  then show ?thesis
    by (intro exI [of _ ?d])
      (simp add: SaveEntry_ok [OF assms(1,6,7)] ok GetEntry_answer [OF assms(2)] select_entry_eq [OF ok]
        select_entry_eq [OF assms(5)] look scan_entry_to_row [OF assms(3,4)])
qed

section \<open>Merging a sync result\<close>

definition merged_rows :: "lib \<Rightarrow> int64 \<Rightarrow> client_entry list \<Rightarrow> local_row list \<Rightarrow> local_row list" where
  "merged_rows L u updates rows = fold (put_row le_UUID) (map (\<lambda>e. entry_to_row L e False u) updates) rows"

definition marked_rows :: "lib \<Rightarrow> int64 \<Rightarrow> uuid set \<Rightarrow> client_entry list \<Rightarrow> local_row list \<Rightarrow> local_row list" where
  "marked_rows L u applied dirty rows =
    update_where (\<lambda>r. le_UserID r = u \<and> (\<exists>e\<in>set dirty. ce_UUID e \<in> applied \<and> le_UUID r = uuid_String L (ce_UUID e)))
      (\<lambda>r. r\<lparr>le_IsDirty := False\<rparr>) rows"

lemma persist_updates_InrD:
  "persist_updates L ev u i es d = (Inr y, d') \<Longrightarrow>
    d' = d\<lparr>dv_entries := merged_rows L u es (dv_entries d)\<rparr> \<and> (\<forall>e\<in>set es. sealed e)"
proof (induction es arbitrary: i d)
  case (Cons e es)
  then obtain d1 where "d1 = d\<lparr>dv_entries := put_row le_UUID (entry_to_row L (e\<lparr>ce_UserID := Some u\<rparr>) False u) (dv_entries d)\<rparr>"
    and "sealed e" and rest: "persist_updates L ev u (Suc i) es d1 = (Inr y, d')"
    by (auto elim!: bind_m_InrE saveEntry_cases dest!: try_call_state)
  moreover have "entry_to_row L (e\<lparr>ce_UserID := Some u\<rparr>) False u = entry_to_row L e False u"
    by (simp add: entry_to_row_def)
  ultimately show ?case using Cons.IH [OF rest] by (simp add: merged_rows_def)
qed (simp add: ret_def merged_rows_def)

lemma update_where_twice:
  assumes "\<And>r. f (f r) = f r" and "\<And>r. q (f r) = q r"
  shows "update_where q f (update_where p f rs) = update_where (\<lambda>r. p r \<or> q r) f rs"
  using assms by (auto simp: update_where_def)

lemma persist_marks_InrD:
  "persist_marks L ev u applied i es d = (Inr y, d') \<Longrightarrow>
    d' = d\<lparr>dv_entries := marked_rows L u applied es (dv_entries d)\<rparr>"
proof (induction es arbitrary: i d)
  case Nil
  then show ?case by (simp add: ret_def marked_rows_def update_where_def)
next
  case (Cons e es)
  show ?case
  proof (cases "ce_UUID e \<in> applied")
    case False
    with Cons show ?thesis by (simp add: marked_rows_def)
  next
    case True
    with Cons.prems obtain d1 where d1: "d1 = d\<lparr>dv_entries := update_where
        (\<lambda>r. le_UUID r = uuid_String L (ce_UUID e) \<and> le_UserID r = u) (\<lambda>r. r\<lparr>le_IsDirty := False\<rparr>) (dv_entries d)\<rparr>"
      and rest: "persist_marks L ev u applied (Suc i) es d1 = (Inr y, d')"
      by (auto simp: clear_dirty_def elim!: bind_m_InrE dest!: try_call_state)
    have "marked_rows L u applied es (dv_entries d1) = marked_rows L u applied (e # es) (dv_entries d)"
      by (simp add: d1 marked_rows_def, subst update_where_twice) (use True in \<open>auto simp: update_where_def\<close>)
    with Cons.IH [OF rest] d1 show ?thesis by simp
  qed
qed

lemma persist_updates_ok:
  "no_faults ev \<Longrightarrow> \<forall>e\<in>set es. sealed e \<Longrightarrow> \<exists>d'. persist_updates L ev u i es d = (Inr (), d')"
  by (induction es arbitrary: i d) (simp_all add: ret_def bind_m_def saveEntry_def sealed_def)

lemma persist_marks_ok: "no_faults ev \<Longrightarrow> \<exists>d'. persist_marks L ev u applied i es d = (Inr (), d')"
  by (induction es arbitrary: i d) (simp_all add: ret_def bind_m_def clear_dirty_def)

definition synced :: "lib \<Rightarrow> int64 \<Rightarrow> client_entry list \<Rightarrow> client_entry list \<Rightarrow> uuid set \<Rightarrow> device \<Rightarrow> device" where
  "synced L u updates dirty applied d =
    d\<lparr>dv_entries := marked_rows L u applied dirty (merged_rows L u updates (dv_entries d))\<rparr>"

lemma PersistSyncResult_cases:
  assumes "PersistSyncResult L ev u updates dirty applied d = (r, d')"
  obtains (nothing) e where "r = Inl e" and "d' = d"
    | (all) "d' = synced L u updates dirty applied d" and "\<forall>e\<in>set updates. sealed e"
      and "r = Inr () \<or> (\<exists>m. r = Inl (LibErr m))"
  using assms [unfolded PersistSyncResult_def]
proof (cases rule: bind_m_cases)
  case (err e)
  from err(1) have "d' = d" by (rule try_call_state)
  with err(2) show thesis by (rule nothing)
next
  case (ok x d1)
  then have d1: "d1 = d" by (auto dest: try_call_state)
  from ok(2) show thesis
  proof (cases rule: bind_m_cases)
    case (err e)
    from atomically_Inl [OF err(1)] d1 have "d' = d" by simp
    with err(2) show thesis by (rule nothing)
  next
    case (ok y d2)
    from ok(1) have d2: "d2 = synced L u updates dirty applied d \<and> (\<forall>e\<in>set updates. sealed e)"
      unfolding d1 atomically_Inr_iff synced_def
      by (auto elim!: bind_m_InrE dest!: persist_updates_InrD persist_marks_InrD try_call_state)
    have "d' = synced L u updates dirty applied d"
      using try_call_state [OF ok(2)] d2 by simp
    moreover have "\<forall>e\<in>set updates. sealed e" using d2 by blast
    moreover have "r = Inr () \<or> (\<exists>m. r = Inl (LibErr m))"
      using ok(2) by (auto simp: try_call_def ret_def raise_def split: option.splits)
    ultimately show thesis by (rule all)
  qed
qed

lemma PersistSyncResult_ok:
  assumes "no_faults ev" and "\<forall>e\<in>set updates. sealed e"
  shows "PersistSyncResult L ev u updates dirty applied d = (Inr (), synced L u updates dirty applied d)"
proof -
  obtain d1 where d1: "persist_updates L ev u 0 updates d = (Inr (), d1)"
    using persist_updates_ok [OF assms] by blast
  obtain d2 where d2: "persist_marks L ev u applied 0 dirty d1 = (Inr (), d2)"
    using persist_marks_ok [OF assms(1)] by blast
  have "PersistSyncResult L ev u updates dirty applied d = (Inr (), d2)"
    by (simp add: PersistSyncResult_def assms(1) atomically_def bind_m_def d1 d2 ret_def)
  with persist_updates_InrD [OF d1] persist_marks_InrD [OF d2] show ?thesis by (simp add: synced_def)
qed

lemma look_merged:
  "unique_keys le_UUID rows \<Longrightarrow> look_local (merged_rows L u es rows) k =
    (case find_row le_UUID (rev (map (\<lambda>e. entry_to_row L e False u) es)) k of
       None \<Rightarrow> look_local rows k | Some r \<Rightarrow> Some r)"
  unfolding merged_rows_def by (rule local_entries.look_fold_put)

lemma unique_merged: "unique_keys le_UUID rows \<Longrightarrow> unique_keys le_UUID (merged_rows L u es rows)"
  unfolding merged_rows_def by (rule local_entries.wf_fold_put)

lemma unique_marked: "unique_keys le_UUID (marked_rows L u A es rows) = unique_keys le_UUID rows"
  unfolding marked_rows_def by (rule unique_keys_update_where) simp

lemma look_marked:
  "look_local (marked_rows L u A es rows) k = map_option (\<lambda>r. if le_UserID r = u \<and>
      (\<exists>e\<in>set es. ce_UUID e \<in> A \<and> le_UUID r = uuid_String L (ce_UUID e))
    then r\<lparr>le_IsDirty := False\<rparr> else r) (look_local rows k)"
  unfolding marked_rows_def by (rule find_row_update_where) simp

lemma local_ok_merged:
  "local_ok d \<Longrightarrow> \<forall>e\<in>set es. sealed e \<Longrightarrow> local_ok (d\<lparr>dv_entries := merged_rows L u es (dv_entries d)\<rparr>)"
proof (induction es arbitrary: d)
  case (Cons e es)
  from Cons.prems have "local_ok (d\<lparr>dv_entries := put_row le_UUID (entry_to_row L e False u) (dv_entries d)\<rparr>)"
    by (simp add: local_ok_put)
  from Cons.IH [OF this] Cons.prems(2) show ?case by (simp add: merged_rows_def)
qed (simp add: merged_rows_def)

lemma local_ok_marked:
  "local_ok d \<Longrightarrow> local_ok (d\<lparr>dv_entries := marked_rows L u A es (dv_entries d)\<rparr>)"
  by (auto simp: local_ok_def unique_marked) (auto simp: marked_rows_def update_where_def)

lemma local_ok_synced:
  "local_ok d \<Longrightarrow> \<forall>e\<in>set us. sealed e \<Longrightarrow> local_ok (synced L u us ds A d)"
  using local_ok_marked [OF local_ok_merged] by (simp add: synced_def)

lemma find_entry_row:
  "uuid_ok L \<Longrightarrow> find_row le_UUID (map (\<lambda>e. entry_to_row L e b u) es) (uuid_String L i)
    = map_option (\<lambda>e. entry_to_row L e b u) (find_row ce_UUID es i)"
  by (induction es) (simp_all add: uuid_String_inj)

lemma look_synced:
  assumes "uuid_ok L" and "local_ok d"
  shows "look_local (dv_entries (synced L u updates dirty applied d)) (uuid_String L i) =
      (case find_row ce_UUID (rev updates) i of
         Some e \<Rightarrow> Some (entry_to_row L e False u)
       | None \<Rightarrow> map_option (\<lambda>row.
           if le_UserID row = u \<and> i \<in> applied \<and> i \<in> ce_UUID ` set dirty
           then row\<lparr>le_IsDirty := False\<rparr> else row) (look_local (dv_entries d) (uuid_String L i)))"
proof -
  have marked: "(\<exists>e\<in>set dirty. ce_UUID e \<in> applied \<and> le_UUID row = uuid_String L (ce_UUID e))
      \<longleftrightarrow> i \<in> applied \<and> i \<in> ce_UUID ` set dirty" if "le_UUID row = uuid_String L i" for row
    using that by (auto simp: uuid_String_inj [OF assms(1)])
  have clean: "(entry_to_row L e False u)\<lparr>le_IsDirty := False\<rparr> = entry_to_row L e False u" for e
    by (simp add: entry_to_row_def)
  have look: "look_local (merged_rows L u updates (dv_entries d)) (uuid_String L i) =
      (case find_row ce_UUID (rev updates) i of None \<Rightarrow> look_local (dv_entries d) (uuid_String L i)
       | Some e \<Rightarrow> Some (entry_to_row L e False u))"
    using assms(2) unfolding local_ok_def
    by (simp add: look_merged rev_map find_entry_row [OF assms(1)] split: option.split)
  show ?thesis
  proof (cases "find_row ce_UUID (rev updates) i")
    case (Some e)
    then show ?thesis by (simp add: synced_def look_marked look clean)
  next
    case None
    show ?thesis
    proof (cases "look_local (dv_entries d) (uuid_String L i)")
      case (Some row)
      from find_row_key [OF Some] have "le_UUID row = uuid_String L i" .
      from marked [OF this] show ?thesis
        using None Some by (simp add: synced_def look_marked look)
    qed (use None in \<open>simp add: synced_def look_marked look\<close>)
  qed
qed

text \<open>
  C8: Merging a sync result is all or nothing. If it fails before its commit, which it does when
  one entry lacks a wrapped key or a payload, the vault is untouched. Otherwise every uuid the server sent reads as the server's entry, owned by the
  user and clean (the last one if it was sent twice); an entry the server accepted is marked
  clean if it is the user's; everything else is as before.
\<close>

theorem persist_all_or_nothing:
  assumes "uuid_ok L" and "local_ok d"
    and "PersistSyncResult L ev u updates dirty applied d = (r, d')"
  shows "local_ok d' \<and> (d' = d \<and> (\<exists>e. r = Inl e) \<or> (\<forall>e\<in>set updates. sealed e) \<and>
    (\<forall>i. look_local (dv_entries d') (uuid_String L i) =
      (case find_row ce_UUID (rev updates) i of
         Some e \<Rightarrow> Some (entry_to_row L e False u)
       | None \<Rightarrow> map_option (\<lambda>row.
           if le_UserID row = u \<and> i \<in> applied \<and> i \<in> ce_UUID ` set dirty
           then row\<lparr>le_IsDirty := False\<rparr> else row) (look_local (dv_entries d) (uuid_String L i)))))"
  using assms(3)
proof (cases rule: PersistSyncResult_cases)
  case (nothing e)
  then show ?thesis using assms(2) by simp
next
  case all
  with look_synced [OF assms(1,2)] local_ok_synced [OF assms(2) all(2)] all(2) show ?thesis by simp
qed

section \<open>A concrete vault\<close>

definition empty_device :: device where
  "empty_device = \<lparr>dv_entries = [], dv_session = None, dv_crypto = Map.empty, dv_sessionKey = replicate 32 CHR ''s''\<rparr>"

definition local_sample :: client_entry where
  "local_sample = \<lparr>ce_UUID = 3, ce_Type = ''TEXT'', ce_EncryptedDek = ''dek'', ce_Payload = ''p'',
     ce_Meta = ''m'', ce_Version = 4, ce_IsDeleted = False, ce_UpdatedAt = Unix_Ns 5, ce_IsDirty = True,
     ce_UserID = Some 1\<rparr>"

lemma empty_device_ok: "local_ok empty_device"
  by (simp add: local_ok_def empty_device_def)

lemma local_sample_sealed: "sealed local_sample"
  by (simp add: sealed_def local_sample_def)

theorem save_then_get_witness:
  "\<exists>d'. SaveEntry toy (calm zero_time) local_sample True empty_device = (Inr (), d') \<and>
    fst (GetEntry toy (calm zero_time) 3 (Some 1) d') = Inr local_sample"
proof -
  have u: "ce_UserID local_sample = Some 1" by (simp add: local_sample_def)
  from save_then_get [OF calm_no_faults [of zero_time] calm_no_faults [of zero_time] toy_uuid_ok
      toy_sqlite_time_ok empty_device_ok u local_sample_sealed, of True]
  show ?thesis by (auto simp: local_sample_def)
qed

theorem persist_all_or_nothing_witness:
  "\<exists>d'. PersistSyncResult toy (calm zero_time) 1 [local_sample] [] {} empty_device = (Inr (), d') \<and>
    look_local (dv_entries d') (uuid_String toy 3) = Some (entry_to_row toy local_sample False 1)"
proof -
  have run: "PersistSyncResult toy (calm zero_time) 1 [local_sample] [] {} empty_device
      = (Inr (), synced toy 1 [local_sample] [] {} empty_device)"
    by (rule PersistSyncResult_ok) (simp_all add: local_sample_sealed)
  from persist_all_or_nothing [OF toy_uuid_ok empty_device_ok run]
  have "\<forall>i. look_local (dv_entries (synced toy 1 [local_sample] [] {} empty_device)) (uuid_String toy i) =
      (case find_row ce_UUID (rev [local_sample]) i of
         Some e \<Rightarrow> Some (entry_to_row toy e False 1)
       | None \<Rightarrow> map_option (\<lambda>row. if le_UserID row = 1 \<and> i \<in> {} \<and> i \<in> ce_UUID ` set [] then row\<lparr>le_IsDirty := False\<rparr> else row)
           (look_local (dv_entries empty_device) (uuid_String toy i)))"
    by auto
  from this [THEN spec, of 3] run show ?thesis by (simp add: local_sample_def)
qed

end
