(* ===== verification/Session_Store.thy ===== *)
theory Session_Store
  imports Local_Store
begin

text \<open>
  The session row of the local database (\<^verbatim>\<open>internal/client/repository/db/session.go\<close>)
  and the key its tokens are sealed under
  (\<^verbatim>\<open>internal/client/repository/db/session_crypto.go\<close>). Tokens are stored as the base64
  text of an AES-GCM blob; an empty token is stored as itself.
\<close>

section \<open>The session key file\<close>

text \<open>
  The files of the data directory. A read fails with \<open>FileRead\<close> for any reason but a missing
  file.
\<close>

type_synonym files = "string \<Rightarrow> bytes option"

definition loadOrCreateSessionKey :: "env \<Rightarrow> string \<Rightarrow> (files, go_error, bytes) cmd" where
  "loadOrCreateSessionKey ev keyPath =
    bind_m (map_err (\<lambda>e. Wrap (Some e) ''read session key'') (try_call ev FileRead)) (\<lambda>_.
    bind_m (gets (\<lambda>fs. fs keyPath)) (\<lambda>content.
      case content of
        Some b \<Rightarrow>
          if length b \<noteq> KeyLength
          then raise (ErrNew (''session key file '' @ keyPath @ '': want '' @ fmt_d (int KeyLength) @
            '' bytes, got '' @ fmt_d (int (length b))))
          else ret b
      | None \<Rightarrow>
          (let key = rand_bytes ev DrawSessionKey KeyLength
           in bind_m (map_err (\<lambda>e. Wrap (Some e) ''write session key'')
                (ack_call ev FileWrite (\<lambda>fs. (Inr (), fs(keyPath \<mapsto> key))))) (\<lambda>_.
              ret key))))"

section \<open>Sealing tokens\<close>

definition encryptSessionToken :: "lib \<Rightarrow> env \<Rightarrow> draw \<Rightarrow> string \<Rightarrow> bytes \<Rightarrow> go_error + string" where
  "encryptSessionToken L ev d plaintext key =
    (if plaintext = [] then Inr []
     else case EncryptAESGCM L ev d plaintext key of
        Inl e \<Rightarrow> Inl e
      | Inr out \<Rightarrow> Inr (b64_encode out))"

definition decryptSessionToken :: "lib \<Rightarrow> string \<Rightarrow> bytes \<Rightarrow> go_error + string" where
  "decryptSessionToken L encoded key =
    (if encoded = [] then Inr []
     else case b64_decode encoded of
        None \<Rightarrow> Inl (Wrap (Some (LibErr ''illegal base64 data'')) ''session token decode'')
      | Some raw \<Rightarrow>
          (case DecryptAESGCM L raw key of
             Inl e \<Rightarrow> Inl (Wrap (Some e) ''session token decrypt'')
           | Inr plain \<Rightarrow> Inr plain))"

section \<open>The session row\<close>

definition write_session :: "lib \<Rightarrow> string \<Rightarrow> string \<Rightarrow> session \<Rightarrow> (device, go_error, unit) cmd" where
  "write_session L at rt s d =
    (case sn_UserID s of
       None \<Rightarrow> (Inl (LibErr ''NOT NULL constraint failed: session.user_id''), d)
     | Some u \<Rightarrow> (Inr (), d\<lparr>dv_session := Some \<lparr>so_AccessToken = at, so_RefreshToken = rt,
         so_ExpiresAt = sqlite_time_text L (sn_ExpiresAt s),
         so_RefreshExpiresAt = sqlite_time_text L (sn_RefreshExpiresAt s), so_UserID = u\<rparr>\<rparr>))"

definition SaveSession :: "lib \<Rightarrow> env \<Rightarrow> session \<Rightarrow> (device, go_error, unit) cmd" where
  "SaveSession L ev s =
    bind_m (gets dv_sessionKey) (\<lambda>sessionKey.
    bind_m (map_err (\<lambda>e. Wrap (Some e) ''encrypt access token'')
      (of_result (encryptSessionToken L ev DrawAccessNonce (sn_AccessToken s) sessionKey))) (\<lambda>at.
    bind_m (map_err (\<lambda>e. Wrap (Some e) ''encrypt refresh token'')
      (of_result (encryptSessionToken L ev DrawRefreshNonce (sn_RefreshToken s) sessionKey))) (\<lambda>rt.
    ack_call ev SessionSave (write_session L at rt s))))"

definition scan_time :: "lib \<Rightarrow> string \<Rightarrow> go_error + gotime" where
  "scan_time L s = (case sqlite_time_read L s of
      None \<Rightarrow> Inl (LibErr ''sql: Scan error on a time column'') | Some t \<Rightarrow> Inr t)"

definition GetSession :: "lib \<Rightarrow> env \<Rightarrow> (device, go_error, session option) cmd" where
  "GetSession L ev =
    bind_m (try_call ev SessionGet) (\<lambda>_.
    bind_m (gets dv_session) (\<lambda>row.
      case row of
        None \<Rightarrow> ret None
      | Some r \<Rightarrow>
          bind_m (of_result (scan_time L (so_ExpiresAt r))) (\<lambda>expiresAt.
          bind_m (of_result (scan_time L (so_RefreshExpiresAt r))) (\<lambda>refreshExp.
          bind_m (gets dv_sessionKey) (\<lambda>sessionKey.
          bind_m (of_result (decryptSessionToken L (so_AccessToken r) sessionKey)) (\<lambda>at.
          bind_m (of_result (decryptSessionToken L (so_RefreshToken r) sessionKey)) (\<lambda>rt.
          ret (Some \<lparr>sn_AccessToken = at, sn_RefreshToken = rt, sn_ExpiresAt = expiresAt,
            sn_RefreshExpiresAt = refreshExp, sn_UserID = Some (so_UserID r)\<rparr>))))))))"

definition ClearSession :: "env \<Rightarrow> (device, go_error, unit) cmd" where
  "ClearSession ev = ack_call ev SessionClear (\<lambda>d. (Inr (), d\<lparr>dv_session := None\<rparr>))"

section \<open>Sealed tokens\<close>

lemma token_seal_roundtrip:
  assumes "crypto_ok L" and "encryptSessionToken L ev d tok key = Inr s"
  shows "decryptSessionToken L s key = Inr tok"
proof (cases "tok = []")
  case True
  with assms(2) show ?thesis by (simp add: encryptSessionToken_def decryptSessionToken_def)
next
  case False
  with assms(2) obtain out where out: "EncryptAESGCM L ev d tok key = Inr out" and s: "s = b64_encode out"
    by (auto simp: encryptSessionToken_def split: sum.splits)
  from EncryptAESGCM_InrD [OF out] have "DecryptAESGCM L out key = Inr tok"
    using assms(1) by (auto simp: DecryptAESGCM_blob)
  moreover have "out \<noteq> []"
    using EncryptAESGCM_length [OF assms(1) out] by auto
  ultimately show ?thesis
    by (simp add: decryptSessionToken_def s b64_decode_encode b64_encode_empty_iff)
qed

lemma encryptSessionToken_ok:
  "length key = 32 \<Longrightarrow> \<exists>s. encryptSessionToken L ev d tok key = Inr s"
  by (simp add: encryptSessionToken_def EncryptAESGCM_32)

lemma SaveSession_ok:
  assumes "no_faults ev" and "length (dv_sessionKey d) = 32" and "sn_UserID s = Some u"
  obtains at rt where "encryptSessionToken L ev DrawAccessNonce (sn_AccessToken s) (dv_sessionKey d) = Inr at"
    and "encryptSessionToken L ev DrawRefreshNonce (sn_RefreshToken s) (dv_sessionKey d) = Inr rt"
    and "SaveSession L ev s d = (Inr (), d\<lparr>dv_session := Some \<lparr>so_AccessToken = at, so_RefreshToken = rt,
         so_ExpiresAt = sqlite_time_text L (sn_ExpiresAt s),
         so_RefreshExpiresAt = sqlite_time_text L (sn_RefreshExpiresAt s), so_UserID = u\<rparr>\<rparr>)"
proof -
  obtain at rt where "encryptSessionToken L ev DrawAccessNonce (sn_AccessToken s) (dv_sessionKey d) = Inr at"
    and "encryptSessionToken L ev DrawRefreshNonce (sn_RefreshToken s) (dv_sessionKey d) = Inr rt"
    using encryptSessionToken_ok [OF assms(2)] by metis
  then show thesis
    by (intro that) (simp_all add: SaveSession_def gets_def bind_m_def map_err_def of_result_def assms(1,3) write_session_def)
qed

text \<open>What the session row of a device says, read without failures.\<close>

definition session_of :: "lib \<Rightarrow> device \<Rightarrow> go_error + session option" where
  "session_of L d = fst (GetSession L \<lparr>rnd = (\<lambda>n d i. CHR 0x00), clk = (\<lambda>n r. zero_time),
     fresh = (\<lambda>n i. 0), fault = (\<lambda>n c. None), rpc = 0\<rparr> d)"

lemma GetSession_reads:
  assumes "no_faults ev"
  shows "GetSession L ev d = (session_of L d, d)"
proof -
  have nf: "no_faults \<lparr>rnd = (\<lambda>n d i. CHR 0x00), clk = (\<lambda>n r. zero_time),
     fresh = (\<lambda>n i. 0), fault = (\<lambda>n c. None), rpc = 0\<rparr>" by (simp add: no_faults_def)
  have "keeps (\<lambda>s. s) (GetSession L ev)" unfolding GetSession_def by (intro cmd_frame)
  then have "snd (GetSession L ev d) = d" by (simp add: keeps_def)
  moreover have "fst (GetSession L ev d) = session_of L d"
    unfolding session_of_def GetSession_def by (simp add: assms nf)
  ultimately show ?thesis by (metis prod.collapse)
qed

lemma keeps_GetSession [cmd_frame]: "keeps f (GetSession L ev)"
  unfolding GetSession_def by (intro cmd_frame)

lemma preserves_GetSession [cmd_frame]: "preserves I (GetSession L ev)"
  unfolding GetSession_def by (intro cmd_frame)

lemma keeps_entries_session [cmd_frame]:
  "keeps dv_entries (SaveSession L ev s)" "keeps dv_crypto (SaveSession L ev s)" "keeps dv_sessionKey (SaveSession L ev s)"
  "keeps dv_entries (ClearSession ev)" "keeps dv_crypto (ClearSession ev)" "keeps dv_sessionKey (ClearSession ev)"
proof -
  have w: "keeps dv_entries (write_session L at rt s)" "keeps dv_crypto (write_session L at rt s)"
    "keeps dv_sessionKey (write_session L at rt s)" for at rt
    by (simp_all add: keeps_def write_session_def split: option.split)
  show "keeps dv_entries (SaveSession L ev s)" "keeps dv_crypto (SaveSession L ev s)" "keeps dv_sessionKey (SaveSession L ev s)"
    unfolding SaveSession_def by (intro cmd_frame w)+
  show "keeps dv_entries (ClearSession ev)" "keeps dv_crypto (ClearSession ev)" "keeps dv_sessionKey (ClearSession ev)"
    unfolding ClearSession_def by (intro cmd_frame, simp add: keeps_def)+
qed

lemma session_of_saved:
  assumes "crypto_ok L" and "sqlite_time_ok L"
    and "encryptSessionToken L ev DrawAccessNonce (sn_AccessToken s) (dv_sessionKey d) = Inr at"
    and "encryptSessionToken L ev DrawRefreshNonce (sn_RefreshToken s) (dv_sessionKey d) = Inr rt"
    and "sn_UserID s = Some u"
  shows "session_of L (d\<lparr>dv_session := Some \<lparr>so_AccessToken = at, so_RefreshToken = rt,
         so_ExpiresAt = sqlite_time_text L (sn_ExpiresAt s),
         so_RefreshExpiresAt = sqlite_time_text L (sn_RefreshExpiresAt s), so_UserID = u\<rparr>\<rparr>) = Inr (Some s)"
proof -
  have "s = \<lparr>sn_AccessToken = sn_AccessToken s, sn_RefreshToken = sn_RefreshToken s, sn_ExpiresAt = sn_ExpiresAt s,
      sn_RefreshExpiresAt = sn_RefreshExpiresAt s, sn_UserID = Some u\<rparr>"
    using assms(5) by (cases s) simp
  then show ?thesis
    by (simp add: session_of_def GetSession_def try_call_def gets_def bind_m_def ret_def of_result_def scan_time_def
        sqlite_time_read_text [OF assms(2)] token_seal_roundtrip [OF assms(1,3)] token_seal_roundtrip [OF assms(1,4)])
qed


text \<open>
  The session key is made once. A fresh data directory gets a key of 32 bytes, and every
  later start, also one that sees other random bytes, loads that same key; a key file of another
  size is an error and is left alone.
\<close>

theorem session_key_is_stable:
  assumes "no_faults ev" and "no_faults ev2"
  shows "case loadOrCreateSessionKey ev path fs of
      (Inr key, fs') \<Rightarrow> length key = 32 \<and> loadOrCreateSessionKey ev2 path fs' = (Inr key, fs') \<and>
        (\<forall>p. p \<noteq> path \<longrightarrow> fs' p = fs p)
    | (Inl e, fs') \<Rightarrow> fs' = fs \<and> (\<exists>b. fs path = Some b \<and> length b \<noteq> 32)"
  using assms
  by (auto simp: loadOrCreateSessionKey_def gets_def bind_m_def map_err_def ret_def raise_def Let_def KeyLength_def
      split: option.split)

section \<open>A concrete session\<close>

definition sample_session :: session where
  "sample_session = \<lparr>sn_AccessToken = ''at'', sn_RefreshToken = ''rt'', sn_ExpiresAt = Unix_Ns 1,
     sn_RefreshExpiresAt = Unix_Ns 2, sn_UserID = Some 1\<rparr>"


theorem session_key_is_stable_witness:
  "\<exists>key fs. loadOrCreateSessionKey (calm zero_time) ''.session-key'' Map.empty = (Inr key, fs) \<and>
    loadOrCreateSessionKey (calm (Unix_Ns 3600000000000)) ''.session-key'' fs = (Inr key, fs)"
  using session_key_is_stable [OF calm_no_faults [of zero_time] calm_no_faults [of "Unix_Ns 3600000000000"],
      where path = "''.session-key''" and fs = Map.empty]
  by (auto split: prod.splits sum.splits)

end
