(* ===== verification/Auther_Service.thy ===== *)
theory Auther_Service
  imports Auther_Store
begin

text \<open>
  The authentication service above its repository: credential rules
  (\<^verbatim>\<open>internal/auther/pkg/models\<close>), registration, login and rotation
  (\<^verbatim>\<open>internal/auther/usecase\<close>), the gRPC handlers
  (\<^verbatim>\<open>internal/auther/delivery\<close>) and the helpers of \<^verbatim>\<open>pkg/utils\<close>. Every operation
  is a computation on the tables of theory \<open>Auther_Store\<close>.
\<close>

section \<open>Credentials\<close>

definition MinPasswordLength :: nat where "MinPasswordLength = 8"
definition MaxPasswordBytes :: nat where "MaxPasswordBytes = 72"

definition normalizeEmail :: "lib \<Rightarrow> string \<Rightarrow> go_error + string" where
  "normalizeEmail L raw =
    (case mail_ParseAddress L (strings_TrimSpace L raw) of
       Inl m \<Rightarrow> Inl (LibErr m)
     | Inr address \<Rightarrow> Inr (strings_ToLower L (strings_TrimSpace L address)))"

definition validateEmail :: "lib \<Rightarrow> user_credentials \<Rightarrow> go_error + user_credentials" where
  "validateEmail L creds =
    (case normalizeEmail L (cr_Email creds) of
       Inl err \<Rightarrow> Inl (NewValidationError ''email'' (err_text err))
     | Inr norm \<Rightarrow> Inr (creds\<lparr>cr_Email := norm\<rparr>))"

definition validatePassword :: "user_credentials \<Rightarrow> go_error option" where
  "validatePassword creds =
    (if cr_Password creds = [] then Some (NewValidationError ''password'' ''password must not be empty'')
     else if rune_count (cr_Password creds) < MinPasswordLength
     then Some (NewValidationError ''password'' ''password is too short'')
     else if length (cr_Password creds) > MaxPasswordBytes
     then Some (NewValidationError ''password'' ''password is too long'')
     else None)"

text \<open>The receiver is a pointer: on success the caller's e-mail is the normalised one.\<close>

definition Validate :: "lib \<Rightarrow> user_credentials \<Rightarrow> go_error + user_credentials" where
  "Validate L creds =
    (case validatePassword creds of Some e \<Rightarrow> Inl e | None \<Rightarrow> validateEmail L creds)"

definition ValidateForLogin :: "lib \<Rightarrow> user_credentials \<Rightarrow> go_error + user_credentials" where
  "ValidateForLogin L creds =
    (if cr_Password creds = [] then Inl (NewValidationError ''password'' ''password must not be empty'')
     else if length (cr_Password creds) > MaxPasswordBytes
     then Inl (NewValidationError ''password'' ''password is too long'')
     else validateEmail L creds)"

definition HashPassword :: "lib \<Rightarrow> env \<Rightarrow> user_credentials \<Rightarrow> go_error + bytes" where
  "HashPassword L ev creds =
    (case bcrypt_Generate L (rand_bytes ev DrawBcryptSalt 16) (cr_Password creds) of
       Inl m \<Rightarrow> Inl (LibErr m)
     | Inr hash \<Rightarrow> Inr hash)"

text \<open>\<^verbatim>\<open>StdEncoding\<close> pads the text of \<^verbatim>\<open>RawStdEncoding\<close> to whole quadruples.\<close>

definition b64_encode_padded :: "bytes \<Rightarrow> string" where
  "b64_encode_padded bs = (let s = b64_encode bs in s @ replicate ((4 - length s mod 4) mod 4) CHR ''='')"

definition NewDummyBcryptHash :: "lib \<Rightarrow> env \<Rightarrow> go_error + bytes" where
  "NewDummyBcryptHash L ev =
    (let dummyPassword = b64_encode_padded (rand_bytes ev DrawDummy 32)
     in case bcrypt_Generate L (rand_bytes ev DrawBcryptSalt 16) dummyPassword of
          Inl m \<Rightarrow> Inl (LibErr m)
        | Inr hash \<Rightarrow> Inr hash)"

section \<open>Use cases\<close>

text \<open>The fields of \<^verbatim>\<open>UseCase\<close> its operations read; \<open>New_auther\<close> makes the dummy hash once.\<close>

record auther_uc =
  au_jwtHelper :: jwt_helper
  au_bcryptDummyHash :: bytes

definition New_auther :: "lib \<Rightarrow> env \<Rightarrow> jwt_helper \<Rightarrow> go_error + auther_uc" where
  "New_auther L ev jwtHelper =
    (case NewDummyBcryptHash L ev of
       Inl e \<Rightarrow> Inl (Wrap (Some e) ''failed to create dummy bcrypt hash'')
     | Inr hash \<Rightarrow> Inr \<lparr>au_jwtHelper = jwtHelper, au_bcryptDummyHash = hash\<rparr>)"

definition create_user_err :: "go_error \<Rightarrow> go_error" where
  "create_user_err e = (if errors_is e Pg_ErrUserExists then Sentinel Uc_ErrUserExists else e)"

definition Uc_CreateUser :: "lib \<Rightarrow> env \<Rightarrow> user_credentials \<Rightarrow> (auther_db, go_error, user_info) cmd" where
  "Uc_CreateUser L ev creds0 =
    (case Validate L creds0 of
       Inl e \<Rightarrow> raise (Wrap (Some e) ''user credentials are invalid'')
     | Inr creds \<Rightarrow>
         (case HashPassword L ev creds of
            Inl e \<Rightarrow> raise (Wrap (Some e) ''failed to hash password'')
          | Inr hash \<Rightarrow>
              map_err create_user_err
                (InsertUser ev \<lparr>dc_Email = cr_Email creds, dc_PasswordHash = hash\<rparr>)))"

definition Uc_LoginUser :: "lib \<Rightarrow> env \<Rightarrow> auther_uc \<Rightarrow> user_credentials \<Rightarrow> (auther_db, go_error, login_response) cmd" where
  "Uc_LoginUser L ev uc creds0 =
    (case ValidateForLogin L creds0 of
       Inl e \<Rightarrow> raise (Wrap (Some e) ''user credentials are invalid'')
     | Inr creds \<Rightarrow>
         bind_m (attempt (SelectUserByEmail ev (cr_Email creds))) (\<lambda>sel.
           let hash = (case sel of Inr user \<Rightarrow> ui_PasswordHash user | Inl _ \<Rightarrow> au_bcryptDummyHash uc)
           in case sel of
                Inl selErr \<Rightarrow>
                  if \<not> errors_is selErr Pg_ErrUserNotExist then raise selErr
                  else if \<not> bcrypt_Compare L hash (cr_Password creds) then raise (Sentinel Uc_ErrUserNotExist)
                  else raise (Sentinel Uc_ErrUserNotExist)
              | Inr user \<Rightarrow>
                  if \<not> bcrypt_Compare L hash (cr_Password creds) then raise (Sentinel Uc_ErrUserNotExist)
                  else
                    bind_m (map_err (\<lambda>e. Wrap (Some e) ''failed to create a new token pair'')
                      (of_result (NewTokenPair L ev (au_jwtHelper uc) (ui_ID user)))) (\<lambda>tokenPair.
                    bind_m (map_err (\<lambda>e. Wrap (Some e) ''failed to persist refresh token'')
                      (ReplaceUserRefreshTokens L ev (ui_ID user) tokenPair)) (\<lambda>_.
                    ret \<lparr>lr_TokenPair = tokenPair, lr_User = user\<rparr>))))"

definition rotate_err :: "go_error \<Rightarrow> go_error" where
  "rotate_err e = (if errors_is e Pg_ErrInvalidToken then Sentinel Uc_ErrInvalidToken else e)"

text \<open>
  One execution of the function \<^verbatim>\<open>singleflight\<close> runs per token; callers that arrive
  meanwhile share its result and run nothing themselves.
\<close>

definition Uc_RotateToken :: "lib \<Rightarrow> env \<Rightarrow> auther_uc \<Rightarrow> string \<Rightarrow> (auther_db, go_error, token_pair) cmd" where
  "Uc_RotateToken L ev uc refreshToken =
    map_err rotate_err (RotateRefreshToken L ev refreshToken (NewTokenPair L ev (au_jwtHelper uc)))"

section \<open>Handlers\<close>

definition create_user_status :: "go_error \<Rightarrow> go_error" where
  "create_user_status e = (case as_validation e of
      Some v \<Rightarrow> StatusErr InvalidArgument (validation_text v)
    | None \<Rightarrow>
        if errors_is e Uc_ErrUserExists
        then StatusErr InvalidArgument ''unable to register with the given credentials''
        else StatusErr Internal ''failed to create user'')"

text \<open>Requests carry the e-mail and password as optional fields.\<close>

definition Rpc_CreateUser :: "lib \<Rightarrow> env \<Rightarrow> string option \<Rightarrow> string option \<Rightarrow> (auther_db, go_error, api_user option) cmd" where
  "Rpc_CreateUser L ev email password =
    bind_m (map_err create_user_status
      (Uc_CreateUser L ev \<lparr>cr_Email = get_str email, cr_Password = get_str password\<rparr>)) (\<lambda>info.
    ret (Some \<lparr>pu_Id = Some (ui_ID info), pu_Email = Some (ui_Email info)\<rparr>))"

definition login_status :: "go_error \<Rightarrow> go_error" where
  "login_status e = (case as_validation e of
      Some v \<Rightarrow> StatusErr InvalidArgument (validation_text v)
    | None \<Rightarrow>
        if errors_is e Uc_ErrUserNotExist
        then StatusErr Unauthenticated ''invalid email or password''
        else StatusErr Internal ''failed to login user'')"

definition token_message :: "token \<Rightarrow> api_token" where
  "token_message t = \<lparr>pt_Token = Some (tk_Token t), pt_ExpiresAt = Some (timestamp_new (tk_ExpiresAt t))\<rparr>"

definition Rpc_Login ::
  "lib \<Rightarrow> env \<Rightarrow> auther_uc \<Rightarrow> string option \<Rightarrow> string option \<Rightarrow> (auther_db, go_error, api_login_response) cmd" where
  "Rpc_Login L ev uc email password =
    bind_m (map_err login_status
      (Uc_LoginUser L ev uc \<lparr>cr_Email = get_str email, cr_Password = get_str password\<rparr>)) (\<lambda>resp.
    ret \<lparr>pl_RefreshToken = Some (token_message (tp_RefreshToken (lr_TokenPair resp))),
      pl_AccessToken = Some (token_message (tp_AccessToken (lr_TokenPair resp))),
      pl_User = Some \<lparr>pu_Id = Some (ui_ID (lr_User resp)), pu_Email = Some (ui_Email (lr_User resp))\<rparr>\<rparr>)"

definition exchange_status :: "go_error \<Rightarrow> go_error" where
  "exchange_status e =
    (if errors_is e Uc_ErrInvalidToken then StatusErr Unauthenticated ''invalid token''
     else StatusErr Internal ''failed to exchange token'')"

definition Rpc_ExchangeToken ::
  "lib \<Rightarrow> env \<Rightarrow> auther_uc \<Rightarrow> string option \<Rightarrow> (auther_db, go_error, api_exchange_response) cmd" where
  "Rpc_ExchangeToken L ev uc refreshToken =
    bind_m (map_err exchange_status (Uc_RotateToken L ev uc (get_str refreshToken))) (\<lambda>resp.
    ret \<lparr>px_RefreshToken = Some (token_message (tp_RefreshToken resp)),
      px_AccessToken = Some (token_message (tp_AccessToken resp))\<rparr>)"

section \<open>Credential rules\<close>

lemma Validate_InrD:
  assumes "Validate L creds = Inr creds'"
  obtains norm where "normalizeEmail L (cr_Email creds) = Inr norm" and "creds' = creds\<lparr>cr_Email := norm\<rparr>"
    and "8 \<le> rune_count (cr_Password creds)" and "length (cr_Password creds) \<le> 72"
  using assms
  by (auto simp: Validate_def validatePassword_def validateEmail_def MinPasswordLength_def
      MaxPasswordBytes_def split: if_splits sum.splits option.splits)

lemma Validate_InlD:
  "Validate L creds = Inl e \<Longrightarrow> \<exists>f m. e = NewValidationError f m"
  by (auto simp: Validate_def validatePassword_def validateEmail_def split: if_splits sum.splits option.splits)

lemma ValidateForLogin_InlD:
  "ValidateForLogin L creds = Inl e \<Longrightarrow> \<exists>f m. e = NewValidationError f m"
  by (auto simp: ValidateForLogin_def validateEmail_def split: if_splits sum.splits)

text \<open>Credentials that passed registration pass login, with the same normal form.\<close>

lemma Validate_login: "Validate L creds = Inr creds' \<Longrightarrow> ValidateForLogin L creds = Inr creds'"
  by (auto simp: Validate_def ValidateForLogin_def validatePassword_def split: if_splits)

section \<open>Every request keeps the tables\<close>

datatype auther_call =
    CallRegister "string option" "string option"
  | CallLogin "string option" "string option"
  | CallExchange "string option"

definition auther_request :: "lib \<Rightarrow> env \<Rightarrow> auther_uc \<Rightarrow> auther_call \<Rightarrow> (auther_db, go_error, unit) cmd" where
  "auther_request L ev uc call = (case call of
      CallRegister e p \<Rightarrow> bind_m (Rpc_CreateUser L ev e p) (\<lambda>_. ret ())
    | CallLogin e p \<Rightarrow> bind_m (Rpc_Login L ev uc e p) (\<lambda>_. ret ())
    | CallExchange t \<Rightarrow> bind_m (Rpc_ExchangeToken L ev uc t) (\<lambda>_. ret ()))"

lemma preserves_auther_request: "preserves auther_ok (auther_request L ev uc call)"
proof (cases call)
  case (CallRegister e p)
  then show ?thesis
    by (auto simp: auther_request_def Rpc_CreateUser_def Uc_CreateUser_def
        intro!: preserves_bind preserves_map_err preserves_case_sum preserves_InsertUser)
next
  case (CallLogin e p)
  have "preserves auther_ok (Uc_LoginUser L ev uc creds)" for creds
    unfolding Uc_LoginUser_def Let_def
    by (intro cmd_frame preserves_SelectUserByEmail preserves_Replace)
  then show ?thesis
    by (auto simp: CallLogin auther_request_def Rpc_Login_def intro!: preserves_bind preserves_map_err)
next
  case (CallExchange t)
  then show ?thesis
    by (auto simp: auther_request_def Rpc_ExchangeToken_def Uc_RotateToken_def
        intro!: preserves_bind preserves_map_err preserves_Rotate)
qed

text \<open>
  C36: The authentication tables stay well-formed under every sequence of requests, whatever
  fails during them: ids, e-mails and token hashes unique, every token owned by a user. In
  particular no stored token is ever marked used, so the reuse check of the rotation never
  fires.
\<close>

theorem auther_tables_invariant:
  assumes "auther_ok db"
  shows "auther_ok (fold (\<lambda>(ev, call) s. snd (auther_request L ev uc call s)) calls db)"
  using assms
proof (induction calls arbitrary: db)
  case (Cons c calls)
  obtain ev call where c: "c = (ev, call)" by (cases c)
  have "auther_ok (snd (auther_request L ev uc call db))"
    using preserves_auther_request Cons.prems by (simp add: preserves_def)
  with Cons.IH show ?case by (simp add: c)
qed simp

section \<open>Registration\<close>

lemma insert_user_fresh:
  assumes "auther_ok db" and "Suc (ad_UserSeq db) < 2 ^ 63" and "rune_count (dc_Email creds) \<le> 255"
    and "dc_Email creds \<notin> us_Email ` set (ad_Users db)"
  shows "insert_user creds db = (Inr (Inr (of_nat (Suc (ad_UserSeq db)))),
    db\<lparr>ad_UserSeq := Suc (ad_UserSeq db), ad_Users := ad_Users db @
      [\<lparr>us_ID = of_nat (Suc (ad_UserSeq db)), us_Email = dc_Email creds, us_PasswordHash = dc_PasswordHash creds\<rparr>]\<rparr>)"
  using assms by (simp add: insert_user_def next_id_def)

lemma insert_user_taken:
  assumes "Suc (ad_UserSeq db) < 2 ^ 63" and "rune_count (dc_Email creds) \<le> 255"
    and "dc_Email creds \<in> us_Email ` set (ad_Users db)"
  shows "insert_user creds db = (Inr (Inl ()), db\<lparr>ad_UserSeq := Suc (ad_UserSeq db)\<rparr>)"
  using assms by (simp add: insert_user_def next_id_def)

definition added_user :: "string \<Rightarrow> bytes \<Rightarrow> auther_db \<Rightarrow> auther_db" where
  "added_user email hash db = db\<lparr>ad_UserSeq := Suc (ad_UserSeq db), ad_Users := ad_Users db @
     [\<lparr>us_ID = of_nat (Suc (ad_UserSeq db)), us_Email = email, us_PasswordHash = hash\<rparr>]\<rparr>"

lemma Uc_CreateUser_answer:
  assumes "no_faults ev" and "auther_ok db" and "Suc (ad_UserSeq db) < 2 ^ 63" and "bcrypt_ok L"
    and "Validate L creds = Inr creds'" and "rune_count (cr_Email creds') \<le> 255"
  shows "\<exists>hash. bcrypt_Compare L hash (cr_Password creds) \<and> Uc_CreateUser L ev creds db =
    (if cr_Email creds' \<in> us_Email ` set (ad_Users db)
     then (Inl (Sentinel Uc_ErrUserExists), db\<lparr>ad_UserSeq := Suc (ad_UserSeq db)\<rparr>)
     else (Inr \<lparr>ui_ID = of_nat (Suc (ad_UserSeq db)), ui_Email = cr_Email creds', ui_PasswordHash = hash\<rparr>,
       added_user (cr_Email creds') hash db))"
proof -
  obtain norm where creds': "creds' = creds\<lparr>cr_Email := norm\<rparr>" and "length (cr_Password creds) \<le> 72"
    using assms(5) by (rule Validate_InrD)
  then obtain hash where hash: "bcrypt_Generate L (rand_bytes ev DrawBcryptSalt 16) (cr_Password creds) = Inr hash"
    and cmp: "bcrypt_Compare L hash (cr_Password creds)"
    using assms(4) unfolding bcrypt_ok_def by (elim allE impE exE conjE)
  let ?row = "\<lparr>dc_Email = cr_Email creds', dc_PasswordHash = hash\<rparr>"
  have "Uc_CreateUser L ev creds db = map_err create_user_err (InsertUser ev ?row) db"
    by (simp add: Uc_CreateUser_def assms(5) HashPassword_def hash creds')
  also have "\<dots> = (if cr_Email creds' \<in> us_Email ` set (ad_Users db)
     then (Inl (Sentinel Uc_ErrUserExists), db\<lparr>ad_UserSeq := Suc (ad_UserSeq db)\<rparr>)
     else (Inr \<lparr>ui_ID = of_nat (Suc (ad_UserSeq db)), ui_Email = cr_Email creds', ui_PasswordHash = hash\<rparr>,
       added_user (cr_Email creds') hash db))"
  proof (cases "cr_Email creds' \<in> us_Email ` set (ad_Users db)")
    case True
    then have "insert_user ?row db = (Inr (Inl ()), db\<lparr>ad_UserSeq := Suc (ad_UserSeq db)\<rparr>)"
      by (intro insert_user_taken assms(3)) (use assms(6) in simp_all)
    with True show ?thesis
      by (simp add: InsertUser_def assms(1) bind_m_def map_err_def raise_def create_user_err_def)
  next
    case False
    then have "insert_user ?row db = (Inr (Inr (of_nat (Suc (ad_UserSeq db)))), added_user (cr_Email creds') hash db)"
      unfolding added_user_def by (subst insert_user_fresh [OF assms(2,3)]) (use assms(6) in simp_all)
    with False show ?thesis
      by (simp add: InsertUser_def assms(1) bind_m_def map_err_def ret_def)
  qed
  finally show ?thesis using cmp by (intro exI conjI)
qed


text \<open>
  The password rule. Registration accepts a password exactly when it has at least eight
  characters, counted as runes, and at most 72 bytes, and its e-mail parses; the normalised
  e-mail is all it changes.
\<close>

theorem password_rule:
  "(\<exists>c. Validate L creds = Inr c) \<longleftrightarrow>
    8 \<le> rune_count (cr_Password creds) \<and> length (cr_Password creds) \<le> 72 \<and>
    (\<exists>norm. normalizeEmail L (cr_Email creds) = Inr norm)"
proof
  assume "\<exists>c. Validate L creds = Inr c"
  then show "8 \<le> rune_count (cr_Password creds) \<and> length (cr_Password creds) \<le> 72 \<and>
    (\<exists>norm. normalizeEmail L (cr_Email creds) = Inr norm)"
    by (elim exE Validate_InrD) simp
next
  assume ok: "8 \<le> rune_count (cr_Password creds) \<and> length (cr_Password creds) \<le> 72 \<and>
    (\<exists>norm. normalizeEmail L (cr_Email creds) = Inr norm)"
  then have "cr_Password creds \<noteq> []" by (intro notI) (simp add: rune_count.simps)
  with ok show "\<exists>c. Validate L creds = Inr c"
    by (auto simp: Validate_def validatePassword_def validateEmail_def MinPasswordLength_def MaxPasswordBytes_def)
qed

section \<open>Login\<close>

lemma SelectUserByEmail_answer:
  "no_faults ev \<Longrightarrow> SelectUserByEmail ev email db =
    (case find_row us_Email (ad_Users db) email of
       None \<Rightarrow> (Inl (Sentinel Pg_ErrUserNotExist), db)
     | Some r \<Rightarrow> (Inr \<lparr>ui_ID = us_ID r, ui_Email = us_Email r, ui_PasswordHash = us_PasswordHash r\<rparr>, db))"
  by (simp add: SelectUserByEmail_def bind_m_def map_err_def ret_def raise_def gets_def split: option.split)

lemma find_row_append_new:
  "find_row key rs k = None \<Longrightarrow> find_row key (rs @ [r]) k = (if key r = k then Some r else None)"
  by (induction rs) (auto split: if_splits)

lemma ReplaceUserRefreshTokens_ok:
  assumes "no_faults ev" and "next_id (ad_TokenSeq db) = Inr i" and "u \<in> us_ID ` set (ad_Users db)"
    and "HashToken L (tk_Token (tp_RefreshToken pair)) \<notin> rt_Hash ` set (filter (\<lambda>r. rt_UserID r \<noteq> u) (ad_Tokens db))"
  shows "ReplaceUserRefreshTokens L ev u pair db = (Inr (), replaced L u pair i db)"
proof -
  have "insert_token L u (HashToken L (tk_Token (tp_RefreshToken pair))) (tk_ExpiresAt (tp_RefreshToken pair))
      (db\<lparr>ad_Tokens := filter (\<lambda>r. rt_UserID r \<noteq> u) (ad_Tokens db)\<rparr>) = (Inr (), replaced L u pair i db)"
    using assms(2-4) by (simp add: insert_token_def replaced_def new_token_def)
  then show ?thesis
    by (simp add: ReplaceUserRefreshTokens_def assms(1) in_tx_def bind_m_def map_err_def delete_tokens_def ret_def)
qed

text \<open>The hash of the refresh token that would be minted is not another user's.\<close>

definition refresh_fresh :: "lib \<Rightarrow> env \<Rightarrow> auther_db \<Rightarrow> bool" where
  "refresh_fresh L ev db \<longleftrightarrow> HashToken L (generateRandomString ev) \<notin> rt_Hash ` set (ad_Tokens db)"

lemma Uc_LoginUser_ok:
  assumes "no_faults ev" and "auther_ok db" and "Suc (ad_TokenSeq db) < 2 ^ 63"
    and "jh_privateKey (au_jwtHelper uc) = Some k" and "jwt_pair_ok L k pub" and "refresh_fresh L ev db"
    and "ValidateForLogin L creds0 = Inr creds"
    and row: "find_row us_Email (ad_Users db) (cr_Email creds) = Some r"
    and "bcrypt_Compare L (us_PasswordHash r) (cr_Password creds)"
  shows "\<exists>pair. NewTokenPair L ev (au_jwtHelper uc) (us_ID r) = Inr pair \<and>
    Uc_LoginUser L ev uc creds0 db =
      (Inr \<lparr>lr_TokenPair = pair, lr_User = \<lparr>ui_ID = us_ID r, ui_Email = us_Email r, ui_PasswordHash = us_PasswordHash r\<rparr>\<rparr>,
       replaced L (us_ID r) pair (of_nat (Suc (ad_TokenSeq db))) db)"
proof -
  obtain pair where pair: "NewTokenPair L ev (au_jwtHelper uc) (us_ID r) = Inr pair"
    using NewTokenPair_total [OF assms(4,5)] by (rule exE)
  from NewTokenPair_InrD [OF pair] have tok: "tk_Token (tp_RefreshToken pair) = generateRandomString ev"
    by (metis token.select_convs(1))
  have "ReplaceUserRefreshTokens L ev (us_ID r) pair db =
      (Inr (), replaced L (us_ID r) pair (of_nat (Suc (ad_TokenSeq db))) db)"
  proof (rule ReplaceUserRefreshTokens_ok [OF assms(1)])
    show "next_id (ad_TokenSeq db) = Inr (of_nat (Suc (ad_TokenSeq db)))" using assms(3) by (simp add: next_id_def)
    show "us_ID r \<in> us_ID ` set (ad_Users db)" using find_row_in_set [OF row] by (rule imageI)
    show "HashToken L (tk_Token (tp_RefreshToken pair)) \<notin>
        rt_Hash ` set (filter (\<lambda>t. rt_UserID t \<noteq> us_ID r) (ad_Tokens db))"
      using assms(6) by (auto simp: tok refresh_fresh_def)
  qed
  with pair show ?thesis
    by (simp add: Uc_LoginUser_def assms(7,9) attempt_def bind_m_def SelectUserByEmail_answer [OF assms(1)] row
        map_err_def of_result_def ret_def)
qed

definition bad_credentials :: "lib \<Rightarrow> user_credentials \<Rightarrow> auther_db \<Rightarrow> bool" where
  "bad_credentials L creds db \<longleftrightarrow> (case find_row us_Email (ad_Users db) (cr_Email creds) of
      None \<Rightarrow> True | Some r \<Rightarrow> \<not> bcrypt_Compare L (us_PasswordHash r) (cr_Password creds))"

lemma Uc_LoginUser_bad:
  assumes "no_faults ev" and "ValidateForLogin L creds0 = Inr creds" and "bad_credentials L creds db"
  shows "Uc_LoginUser L ev uc creds0 db = (Inl (Sentinel Uc_ErrUserNotExist), db)"
  using assms(3)
  by (auto simp: Uc_LoginUser_def assms(2) attempt_def bind_m_def SelectUserByEmail_answer [OF assms(1)]
      bad_credentials_def raise_def split: option.splits)


section \<open>An account works end to end\<close>

lemma Rpc_CreateUser_InrD:
  assumes "Rpc_CreateUser L ev email password db = (Inr resp, db')"
  obtains c hash i where "Validate L \<lparr>cr_Email = get_str email, cr_Password = get_str password\<rparr> = Inr c"
    and "bcrypt_Generate L (rand_bytes ev DrawBcryptSalt 16) (get_str password) = Inr hash"
    and "resp = Some \<lparr>pu_Id = Some i, pu_Email = Some (cr_Email c)\<rparr>"
    and "cr_Email c \<notin> us_Email ` set (ad_Users db)"
    and "ad_Users db' = ad_Users db @ [\<lparr>us_ID = i, us_Email = cr_Email c, us_PasswordHash = hash\<rparr>]"
    and "ad_TokenSeq db' = ad_TokenSeq db" and "ad_Tokens db' = ad_Tokens db"
proof -
  let ?creds = "\<lparr>cr_Email = get_str email, cr_Password = get_str password\<rparr>"
  from assms obtain info where uc: "Uc_CreateUser L ev ?creds db = (Inr info, db')"
    and resp: "resp = Some \<lparr>pu_Id = Some (ui_ID info), pu_Email = Some (ui_Email info)\<rparr>"
    by (auto simp: Rpc_CreateUser_def ret_def elim!: bind_m_InrE dest!: map_err_InrD)
  from uc obtain c hash where val: "Validate L ?creds = Inr c" and gen: "HashPassword L ev c = Inr hash"
    and ins: "InsertUser ev \<lparr>dc_Email = cr_Email c, dc_PasswordHash = hash\<rparr> db = (Inr info, db')"
    by (auto simp: Uc_CreateUser_def raise_def split: sum.splits dest!: map_err_InrD)
  from val obtain norm where c: "c = ?creds\<lparr>cr_Email := norm\<rparr>" by (rule Validate_InrD)
  from ins obtain i where row: "insert_user \<lparr>dc_Email = cr_Email c, dc_PasswordHash = hash\<rparr> db = (Inr (Inr i), db')"
    and info: "info = \<lparr>ui_ID = i, ui_Email = cr_Email c, ui_PasswordHash = hash\<rparr>"
    by (auto simp: InsertUser_def ret_def raise_def elim!: bind_m_InrE dest!: map_err_InrD ack_call_InrD split: sum.splits)
  from row have "cr_Email c \<notin> us_Email ` set (ad_Users db)"
    and "ad_Users db' = ad_Users db @ [\<lparr>us_ID = i, us_Email = cr_Email c, us_PasswordHash = hash\<rparr>]"
    and "ad_TokenSeq db' = ad_TokenSeq db" and "ad_Tokens db' = ad_Tokens db"
    by (auto simp: insert_user_def split: if_splits sum.splits)
  with val gen resp info c show thesis
    by (intro that [of c hash i]) (auto simp: HashPassword_def split: sum.splits)
qed

text \<open>
  C7: An account works from registration to access. A user who was registered can log in with
  the same e-mail and password, gets the id of the registration, and every service with the
  public key and a compatible audience accepts the access token as that id while it is valid.
\<close>

theorem registered_user_gets_access:
  assumes "Rpc_CreateUser L ev1 email password db = (Inr (Some user), db1)"
    and "auther_ok db" and "bcrypt_ok L" and "jwt_claims_ok L"
    and "no_faults ev2" and "Suc (ad_TokenSeq db) < 2 ^ 63" and "refresh_fresh L ev2 db"
    and "jh_privateKey (au_jwtHelper uc) = Some k" and "jwt_pair_ok L k (jh_publicKey h')"
    and "jh_audience h' = [] \<or> jh_audience h' = jh_audience (au_jwtHelper uc)"
    and "issued_sec ev2 \<le> time_now ev3 NowValidate"
    and "time_now ev3 NowValidate < expiry_sec ev2 (au_jwtHelper uc)"
  shows "\<exists>i resp tok db2. pu_Id user = Some i \<and>
    Rpc_Login L ev2 uc email password db1 = (Inr resp, db2) \<and>
    pl_User resp = Some user \<and> pl_AccessToken resp = Some tok \<and>
    accept_access (L, ev3, h') (get_str (pt_Token tok)) = Some i"
proof -
  let ?creds = "\<lparr>cr_Email = get_str email, cr_Password = get_str password\<rparr>"
  obtain c hash i where val: "Validate L ?creds = Inr c"
    and gen: "bcrypt_Generate L (rand_bytes ev1 DrawBcryptSalt 16) (get_str password) = Inr hash"
    and user: "user = \<lparr>pu_Id = Some i, pu_Email = Some (cr_Email c)\<rparr>"
    and new: "cr_Email c \<notin> us_Email ` set (ad_Users db)"
    and users: "ad_Users db1 = ad_Users db @ [\<lparr>us_ID = i, us_Email = cr_Email c, us_PasswordHash = hash\<rparr>]"
    and toks: "ad_TokenSeq db1 = ad_TokenSeq db" "ad_Tokens db1 = ad_Tokens db"
    using assms(1) by (rule Rpc_CreateUser_InrD) simp
  have ok1: "auther_ok db1"
  proof -
    have "preserves auther_ok (Rpc_CreateUser L ev1 email password)"
      by (auto simp: Rpc_CreateUser_def Uc_CreateUser_def
          intro!: preserves_bind preserves_map_err preserves_case_sum preserves_InsertUser)
    from preservesD [OF this assms(1,2)] show ?thesis .
  qed
  from val obtain norm where pw: "cr_Password c = get_str password" "length (get_str password) \<le> 72"
    by (rule Validate_InrD) simp
  have cmp: "bcrypt_Compare L hash (cr_Password c)"
    using assms(3) gen pw unfolding bcrypt_ok_def by (metis sum.inject(2))
  have row: "find_row us_Email (ad_Users db1) (cr_Email c) = Some \<lparr>us_ID = i, us_Email = cr_Email c, us_PasswordHash = hash\<rparr>"
    unfolding users by (subst find_row_append_new) (use new in \<open>simp_all add: find_row_None_iff\<close>)
  have fresh: "refresh_fresh L ev2 db1" using assms(7) by (simp add: refresh_fresh_def toks)
  have seq: "Suc (ad_TokenSeq db1) < 2 ^ 63" using assms(6) by (simp add: toks)
  obtain pair where pair: "NewTokenPair L ev2 (au_jwtHelper uc) i = Inr pair"
    and login: "Uc_LoginUser L ev2 uc ?creds db1 =
      (Inr \<lparr>lr_TokenPair = pair, lr_User = \<lparr>ui_ID = i, ui_Email = cr_Email c, ui_PasswordHash = hash\<rparr>\<rparr>,
       replaced L i pair (of_nat (Suc (ad_TokenSeq db1))) db1)"
    using Uc_LoginUser_ok [OF assms(5) ok1 seq assms(8,9) fresh Validate_login [OF val] row] cmp by auto
  have live: "token_live (L, ev2, au_jwtHelper uc) (L, ev3, h')"
    using assms(4,8-12) by (simp add: token_live_def)
  have "issue_access (L, ev2, au_jwtHelper uc) i = Some (tk_Token (tp_AccessToken pair))"
    by (simp add: issue_access_def right_value_def pair)
  from access_token.accept_issued [OF live this] show ?thesis
    by (simp add: Rpc_Login_def bind_m_def map_err_def login ret_def user token_message_def)
qed

section \<open>Concrete requests\<close>

definition toy_uc :: auther_uc where
  "toy_uc = \<lparr>au_jwtHelper = toy_helper, au_bcryptDummyHash = ''dummy''\<rparr>"

definition empty_auther :: auther_db where
  "empty_auther = \<lparr>ad_Users = [], ad_UserSeq = 0, ad_Tokens = [], ad_TokenSeq = 0\<rparr>"

lemma empty_auther_ok: "auther_ok empty_auther"
  by (simp add: auther_ok_def empty_auther_def seq_ids_def)

lemma toy_normalize: "normalizeEmail toy ''a@b'' = Inr ''a@b''"
  by (simp add: normalizeEmail_def toy_sel toy_lower_def byte_in_def)

lemma rune_count_sample: "rune_count ''longpass'' = 8"
  by (simp add: rune_count.simps rune_len_def byte_in_def)

lemma toy_validate: "Validate toy \<lparr>cr_Email = ''a@b'', cr_Password = ''longpass''\<rparr>
    = Inr \<lparr>cr_Email = ''a@b'', cr_Password = ''longpass''\<rparr>"
  by (simp add: Validate_def validatePassword_def validateEmail_def toy_normalize rune_count_sample
      MinPasswordLength_def MaxPasswordBytes_def)

theorem auther_tables_invariant_witness:
  "auther_ok (fold (\<lambda>(ev, call) s. snd (auther_request toy ev toy_uc call s))
    [(calm zero_time, CallRegister (Some ''a@b'') (Some ''longpass'')), (calm zero_time, CallExchange None)] empty_auther)"
  by (rule auther_tables_invariant [OF empty_auther_ok])


lemma refresh_fresh_empty: "refresh_fresh L ev empty_auther"
  by (simp add: refresh_fresh_def empty_auther_def)


theorem registered_user_gets_access_witness:
  "\<exists>user db1 resp db2. Rpc_CreateUser toy (calm (Unix_Ns 0)) (Some ''a@b'') (Some ''longpass'') empty_auther = (Inr (Some user), db1) \<and>
    Rpc_Login toy (calm (Unix_Ns 0)) toy_uc (Some ''a@b'') (Some ''longpass'') db1 = (Inr resp, db2) \<and>
    pl_User resp = Some user"
proof -
  have "cr_Email \<lparr>cr_Email = ''a@b'', cr_Password = ''longpass''\<rparr> \<notin> us_Email ` set (ad_Users empty_auther)"
    by (simp add: empty_auther_def)
  then obtain user db1 where reg: "Rpc_CreateUser toy (calm (Unix_Ns 0)) (Some ''a@b'') (Some ''longpass'') empty_auther = (Inr (Some user), db1)"
    using Uc_CreateUser_answer [OF calm_no_faults [of "Unix_Ns 0"] empty_auther_ok _ toy_bcrypt_ok toy_validate]
      rune_count_le_length [of "''a@b''"]
    by (auto simp: Rpc_CreateUser_def bind_m_def map_err_def ret_def empty_auther_def)
  have room: "Suc (ad_TokenSeq empty_auther) < 2 ^ 63" by (simp add: empty_auther_def)
  have key: "jh_privateKey (au_jwtHelper toy_uc) = Some ''k''" by (simp add: toy_uc_def toy_helper_def)
  have "jwt_pair_ok toy ''k'' (jh_publicKey toy_helper)" by (simp add: toy_helper_def toy_jwt_pair_ok)
  from registered_user_gets_access [where ?ev3.0 = "calm (Unix_Ns minute)",
      OF reg empty_auther_ok toy_bcrypt_ok toy_jwt_claims_ok calm_no_faults [of "Unix_Ns 0"] room refresh_fresh_empty key this] reg
  show ?thesis
    by (auto simp: toy_uc_def toy_helper_def issued_sec_def expiry_sec_def calm_in_rpc gotime_order duration_defs)
qed

end
