(* ===== verification/Client_Auth.thy ===== *)
theory Client_Auth
  imports Session_Store Auther_Service Skeeper_Service
begin

text \<open>
  The CLI's account handling: the gRPC client of Auther
  (\<^verbatim>\<open>internal/client/repository/auther\<close>), the use case that registers, logs in, logs
  out and refreshes tokens (\<^verbatim>\<open>internal/client/usecase/auth.go\<close>) and its variant in
  \<^verbatim>\<open>internal/client/usecase/token.go\<close>. A command runs on one device and calls the two
  services over the network.
\<close>

section \<open>The world of a command\<close>

record world =
  wd_auther :: auther_db
  wd_skeeper :: skeeper_db
  wd_device :: device

text \<open>What the services run with: Auther's use case, and Skeeper's token helper.\<close>

record services =
  sv_auther :: auther_uc
  sv_jwt :: jwt_helper

definition on_auther :: "(auther_db, go_error, 'a) cmd \<Rightarrow> (world, go_error, 'a) cmd" where
  "on_auther c = zoom wd_auther (\<lambda>t w. w\<lparr>wd_auther := t\<rparr>) c"

definition on_skeeper :: "(skeeper_db, go_error, 'a) cmd \<Rightarrow> (world, go_error, 'a) cmd" where
  "on_skeeper c = zoom wd_skeeper (\<lambda>t w. w\<lparr>wd_skeeper := t\<rparr>) c"

definition on_device :: "(device, go_error, 'a) cmd \<Rightarrow> (world, go_error, 'a) cmd" where
  "on_device c = zoom wd_device (\<lambda>t w. w\<lparr>wd_device := t\<rparr>) c"

text \<open>
  A unary call: the request may get lost on its way (nothing happened), and the answer on its
  way back (the service did its work, whatever it answered).
\<close>

definition net_call :: "env \<Rightarrow> ('s, go_error, 'a) cmd \<Rightarrow> ('s, go_error, 'a) cmd" where
  "net_call ev c =
    bind_m (try_call ev NetRequest) (\<lambda>_.
    bind_m (attempt c) (\<lambda>answer.
    bind_m (try_call ev NetResponse) (\<lambda>_.
    of_result answer)))"

section \<open>The client of Auther\<close>

definition AutherClient_CreateUser :: "lib \<Rightarrow> env \<Rightarrow> string \<Rightarrow> string \<Rightarrow> (world, go_error, unit) cmd" where
  "AutherClient_CreateUser L ev email password =
    bind_m (map_err (\<lambda>e. Wrap (Some e) ''create user'')
      (net_call ev (on_auther (Rpc_CreateUser L ev (Some email) (Some password))))) (\<lambda>_.
    ret ())"

definition tokens_to_session :: "string \<Rightarrow> api_token option \<Rightarrow> api_token option \<Rightarrow> go_error + session" where
  "tokens_to_session msg at rt =
    (case (at, rt, Option.bind at pt_ExpiresAt, Option.bind rt pt_ExpiresAt) of
       (Some a, Some r, Some ea, Some er) \<Rightarrow> Inr \<lparr>
         sn_AccessToken = get_str (pt_Token a), sn_RefreshToken = get_str (pt_Token r),
         sn_ExpiresAt = timestamp_AsTime ea, sn_RefreshExpiresAt = timestamp_AsTime er, sn_UserID = None\<rparr>
     | _ \<Rightarrow> Inl (ErrNew msg))"

definition AutherClient_Login ::
  "lib \<Rightarrow> env \<Rightarrow> services \<Rightarrow> string \<Rightarrow> string \<Rightarrow> (world, go_error, session) cmd" where
  "AutherClient_Login L ev S email password =
    bind_m (map_err (\<lambda>e. Wrap (Some e) ''login'')
      (net_call ev (on_auther (Rpc_Login L ev (sv_auther S) (Some email) (Some password))))) (\<lambda>resp.
    of_result (tokens_to_session ''invalid login response: missing tokens''
      (pl_AccessToken resp) (pl_RefreshToken resp)))"

definition AutherClient_Refresh ::
  "lib \<Rightarrow> env \<Rightarrow> services \<Rightarrow> string \<Rightarrow> (world, go_error, session) cmd" where
  "AutherClient_Refresh L ev S refreshToken =
    bind_m (map_err (\<lambda>e. Wrap (Some e) ''exchange token'')
      (net_call ev (on_auther (Rpc_ExchangeToken L ev (sv_auther S) (Some refreshToken))))) (\<lambda>resp.
    of_result (tokens_to_session ''invalid exchange response: missing tokens''
      (px_AccessToken resp) (px_RefreshToken resp)))"

text \<open>\<^verbatim>\<open>RemoteAuthenticator\<close>, the interface the use case calls.\<close>

record remote_auth =
  ra_CreateUser :: "env \<Rightarrow> string \<Rightarrow> string \<Rightarrow> (world, go_error, unit) cmd"
  ra_Login :: "env \<Rightarrow> string \<Rightarrow> string \<Rightarrow> (world, go_error, session) cmd"
  ra_Refresh :: "env \<Rightarrow> string \<Rightarrow> (world, go_error, session) cmd"

definition AutherClient :: "lib \<Rightarrow> services \<Rightarrow> remote_auth" where
  "AutherClient L S = \<lparr>
     ra_CreateUser = \<lambda>ev. AutherClient_CreateUser L ev,
     ra_Login = \<lambda>ev. AutherClient_Login L ev S,
     ra_Refresh = \<lambda>ev. AutherClient_Refresh L ev S\<rparr>"

section \<open>The use case\<close>

definition Auth_Login :: "lib \<Rightarrow> env \<Rightarrow> remote_auth \<Rightarrow> string \<Rightarrow> string \<Rightarrow> (world, go_error, unit) cmd" where
  "Auth_Login L ev remote login password =
    bind_m (map_err (\<lambda>e. Wrap (Some e) ''remote sign in error'') (ra_Login remote ev login password)) (\<lambda>session.
    bind_m (map_err (\<lambda>e. Wrap (Some e) ''parse access token user id'')
      (of_result (UserIDFromAccessTokenUnverified L (sn_AccessToken session)))) (\<lambda>uid.
    map_err (\<lambda>e. Wrap (Some e) ''save local session error'')
      (on_device (SaveSession L ev (session\<lparr>sn_UserID := Some uid\<rparr>)))))"

definition Auth_Register :: "lib \<Rightarrow> env \<Rightarrow> remote_auth \<Rightarrow> string \<Rightarrow> string \<Rightarrow> (world, go_error, unit) cmd" where
  "Auth_Register L ev remote email password =
    bind_m (map_err (\<lambda>e. Wrap (Some e) ''remote registration'')
      (ra_CreateUser remote (call_at 1 ev) email password)) (\<lambda>_.
    Auth_Login L (call_at 2 ev) remote email password)"

definition Auth_GetValidToken :: "lib \<Rightarrow> env \<Rightarrow> remote_auth \<Rightarrow> (world, go_error, string) cmd" where
  "Auth_GetValidToken L ev remote =
    bind_m (on_device (GetSession L ev)) (\<lambda>row.
      case row of
        None \<Rightarrow> raise (ErrNew ''no active session found, please login'')
      | Some session \<Rightarrow>
          if time_until ev NowUntilAccess (sn_ExpiresAt session) > minute
          then ret (sn_AccessToken session)
          else if sn_RefreshExpiresAt session \<noteq> zero_time \<and>
            time_until ev NowUntilRefresh (sn_RefreshExpiresAt session) \<le> 0
          then raise (ErrNew ''refresh token expired, please login again'')
          else
            bind_m (map_err (\<lambda>e. Wrap (Some e) ''refresh token error'')
              (ra_Refresh remote ev (sn_RefreshToken session))) (\<lambda>newSession.
            bind_m (map_err (\<lambda>e. Wrap (Some e) ''parse refreshed access token user id'')
              (of_result (UserIDFromAccessTokenUnverified L (sn_AccessToken newSession)))) (\<lambda>uid.
            bind_m (map_err (\<lambda>e. Wrap (Some e) ''save refreshed session'')
              (on_device (SaveSession L ev (newSession\<lparr>sn_UserID := Some uid\<rparr>)))) (\<lambda>_.
            ret (sn_AccessToken newSession)))))"

definition Auth_Logout :: "env \<Rightarrow> (world, go_error, unit) cmd" where
  "Auth_Logout ev = on_device (ClearSession ev)"

text \<open>
  \<^verbatim>\<open>TokenUseCase\<close>: no session and a failing read share one branch, whose wrapped error
  is nil in the first case; a refreshed session is saved without a user id.
\<close>

definition Token_GetValidToken :: "lib \<Rightarrow> env \<Rightarrow> remote_auth \<Rightarrow> (world, go_error, string) cmd" where
  "Token_GetValidToken L ev authClient =
    bind_m (attempt (on_device (GetSession L ev))) (\<lambda>read.
      case read of
        Inl e \<Rightarrow> raise (Wrap (Some e) ''user not authenticated'')
      | Inr None \<Rightarrow> raise (Wrap None ''user not authenticated'')
      | Inr (Some session) \<Rightarrow>
          if time_until ev NowUntilAccess (sn_ExpiresAt session) > 30 * second
          then ret (sn_AccessToken session)
          else if sn_RefreshExpiresAt session \<noteq> zero_time \<and>
            time_until ev NowUntilRefresh (sn_RefreshExpiresAt session) \<le> 0
          then raise (ErrNew ''refresh token expired, please login again'')
          else
            bind_m (map_err (\<lambda>e. Wrap (Some e) ''failed to refresh session'')
              (ra_Refresh authClient ev (sn_RefreshToken session))) (\<lambda>newSession.
            bind_m (map_err (\<lambda>e. Wrap (Some e) ''save refreshed session'')
              (on_device (SaveSession L ev newSession))) (\<lambda>_.
            ret (sn_AccessToken newSession))))"

section \<open>What each call can touch\<close>

lemma keeps_zoom: "keeps f c \<Longrightarrow> (\<And>t w. g (p t w) = t) \<Longrightarrow> keeps (\<lambda>w. f (g w)) (zoom g p c)"
  by (auto simp: keeps_def zoom_def split: prod.split) (metis snd_conv)

lemma keeps_on_device [cmd_frame]: "keeps f c \<Longrightarrow> keeps (\<lambda>w. f (wd_device w)) (on_device c)"
  unfolding on_device_def by (rule keeps_zoom) simp_all

lemma keeps_on_others [cmd_frame, simp]:
  "keeps wd_auther (on_device c)" "keeps wd_skeeper (on_device d)"
  "keeps wd_device (on_auther a)" "keeps wd_skeeper (on_auther a)"
  "keeps wd_device (on_skeeper s)" "keeps wd_auther (on_skeeper s)"
  by (auto simp: keeps_def on_device_def on_auther_def on_skeeper_def zoom_def split: prod.split)

lemma keeps_comp: "keeps g c \<Longrightarrow> keeps (\<lambda>w. f (g w)) c"
  by (simp add: keeps_def)

lemma keeps_net_call [cmd_frame]: "keeps f c \<Longrightarrow> keeps f (net_call ev c)"
  unfolding net_call_def by (intro cmd_frame)

lemma net_call_ok [simp]: "no_faults ev \<Longrightarrow> net_call ev c = c"
  by (auto simp: net_call_def attempt_def bind_m_def of_result_def ret_def fun_eq_iff split: prod.split)

lemma on_auther_apply: "on_auther c w = (fst (c (wd_auther w)), w\<lparr>wd_auther := snd (c (wd_auther w))\<rparr>)"
  and on_skeeper_apply: "on_skeeper s w = (fst (s (wd_skeeper w)), w\<lparr>wd_skeeper := snd (s (wd_skeeper w))\<rparr>)"
  and on_device_apply: "on_device d w = (fst (d (wd_device w)), w\<lparr>wd_device := snd (d (wd_device w))\<rparr>)"
  by (simp_all add: on_auther_def on_skeeper_def on_device_def zoom_def split: prod.split)

lemmas on_part_apply = on_auther_apply on_skeeper_apply on_device_apply

text \<open>
  What the use case relies on: the remote side works on the services' data only. Everything else
  about a token request follows: it can write the session row of the device and nothing else.
\<close>

locale authenticator =
  fixes R :: remote_auth
  assumes create_keeps: "keeps wd_device (ra_CreateUser R ev e p)" "keeps wd_skeeper (ra_CreateUser R ev e p)"
    and login_keeps: "keeps wd_device (ra_Login R ev e p)" "keeps wd_skeeper (ra_Login R ev e p)"
    and refresh_keeps: "keeps wd_device (ra_Refresh R ev t)" "keeps wd_skeeper (ra_Refresh R ev t)"
begin

lemma token_keeps_vault:
  "keeps (\<lambda>w. dv_entries (wd_device w)) (Auth_GetValidToken L ev R)"
  "keeps (\<lambda>w. dv_crypto (wd_device w)) (Auth_GetValidToken L ev R)"
  "keeps (\<lambda>w. dv_sessionKey (wd_device w)) (Auth_GetValidToken L ev R)"
  "keeps wd_skeeper (Auth_GetValidToken L ev R)"
  unfolding Auth_GetValidToken_def
  by (intro cmd_frame keeps_comp [of wd_device, OF refresh_keeps(1)] refresh_keeps(2))+

lemma login_keeps_vault:
  "keeps (\<lambda>w. dv_entries (wd_device w)) (Auth_Login L ev R e p)"
  "keeps (\<lambda>w. dv_crypto (wd_device w)) (Auth_Login L ev R e p)"
  "keeps (\<lambda>w. dv_sessionKey (wd_device w)) (Auth_Login L ev R e p)"
  "keeps wd_skeeper (Auth_Login L ev R e p)"
  unfolding Auth_Login_def
  by (intro cmd_frame keeps_comp [of wd_device, OF login_keeps(1)] login_keeps(2))+

lemma register_keeps_vault:
  "keeps (\<lambda>w. dv_entries (wd_device w)) (Auth_Register L ev R e p)"
  "keeps wd_skeeper (Auth_Register L ev R e p)"
  unfolding Auth_Register_def
  by (intro cmd_frame login_keeps_vault keeps_comp [of wd_device, OF create_keeps(1)] create_keeps(2))+

end

interpretation auther_client: authenticator "AutherClient L S"
proof unfold_locales
  show "keeps wd_device (ra_CreateUser (AutherClient L S) ev e p)" "keeps wd_skeeper (ra_CreateUser (AutherClient L S) ev e p)"
    for ev e p unfolding AutherClient_def remote_auth.select_convs AutherClient_CreateUser_def by (intro cmd_frame)+
  show "keeps wd_device (ra_Login (AutherClient L S) ev e p)" "keeps wd_skeeper (ra_Login (AutherClient L S) ev e p)"
    for ev e p unfolding AutherClient_def remote_auth.select_convs AutherClient_Login_def by (intro cmd_frame)+
  show "keeps wd_device (ra_Refresh (AutherClient L S) ev t)" "keeps wd_skeeper (ra_Refresh (AutherClient L S) ev t)"
    for ev t unfolding AutherClient_def remote_auth.select_convs AutherClient_Refresh_def by (intro cmd_frame)+
qed

section \<open>Sessions from Auther\<close>

definition pair_session :: "token_pair \<Rightarrow> int64 \<Rightarrow> session" where
  "pair_session p u = \<lparr>sn_AccessToken = tk_Token (tp_AccessToken p), sn_RefreshToken = tk_Token (tp_RefreshToken p),
     sn_ExpiresAt = tk_ExpiresAt (tp_AccessToken p), sn_RefreshExpiresAt = tk_ExpiresAt (tp_RefreshToken p),
     sn_UserID = Some u\<rparr>"

lemma tokens_to_session_pair:
  "tokens_to_session msg (Some (token_message (tp_AccessToken p))) (Some (token_message (tp_RefreshToken p)))
    = Inr ((pair_session p u)\<lparr>sn_UserID := None\<rparr>)"
  by (simp add: tokens_to_session_def token_message_def pair_session_def)

text \<open>
  A device is signed in as \<open>u\<close>: its session is a pair that was minted for \<open>u\<close>, and Auther
  still stores the refresh token, with the session's expiry.
\<close>

definition signed_in :: "lib \<Rightarrow> jwt_helper \<Rightarrow> int64 \<Rightarrow> session \<Rightarrow> world \<Rightarrow> bool" where
  "signed_in L h u s w \<longleftrightarrow>
    session_of L (wd_device w) = Inr (Some s) \<and>
    (\<exists>ev pair. NewTokenPair L ev h u = Inr pair \<and> s = pair_session pair u) \<and>
    (\<exists>t. find_row rt_Hash (ad_Tokens (wd_auther w)) (HashToken L (sn_RefreshToken s)) = Some t \<and>
       rt_UserID t = u \<and> rt_ExpiresAt t = pg_timestamptz L (sn_RefreshExpiresAt s))"

text \<open>What the stored session becomes.\<close>

lemma SaveSession_signed:
  assumes "no_faults ev" and "crypto_ok L" and "sqlite_time_ok L" and "length (dv_sessionKey d) = 32"
    and "sn_UserID s = Some u"
  obtains row where "SaveSession L ev s d = (Inr (), d\<lparr>dv_session := Some row\<rparr>)"
    and "session_of L (d\<lparr>dv_session := Some row\<rparr>) = Inr (Some s)"
proof -
  obtain at rt where at: "encryptSessionToken L ev DrawAccessNonce (sn_AccessToken s) (dv_sessionKey d) = Inr at"
    and rt: "encryptSessionToken L ev DrawRefreshNonce (sn_RefreshToken s) (dv_sessionKey d) = Inr rt"
    and save: "SaveSession L ev s d = (Inr (), d\<lparr>dv_session := Some \<lparr>so_AccessToken = at, so_RefreshToken = rt,
         so_ExpiresAt = sqlite_time_text L (sn_ExpiresAt s),
         so_RefreshExpiresAt = sqlite_time_text L (sn_RefreshExpiresAt s), so_UserID = u\<rparr>\<rparr>)"
    by (rule SaveSession_ok [OF assms(1,4,5)])
  from save session_of_saved [OF assms(2,3) at rt assms(5)] show thesis by (rule that)
qed

lemma SaveSession_no_user:
  "sn_UserID s = None \<Longrightarrow> \<exists>x. SaveSession L ev s d = (Inl x, d)"
  by (auto simp: SaveSession_def gets_def bind_m_def map_err_def of_result_def ack_call_def try_call_def
      ret_def raise_def write_session_def split: sum.split option.split)

lemma new_token_sel [simp]:
  "rt_ID (new_token L u p i) = i" "rt_UserID (new_token L u p i) = u"
  "rt_Hash (new_token L u p i) = HashToken L (tk_Token (tp_RefreshToken p))"
  "rt_ExpiresAt (new_token L u p i) = pg_timestamptz L (tk_ExpiresAt (tp_RefreshToken p))"
  by (simp_all add: new_token_def)

lemma Auth_Login_run:
  assumes "no_faults ev" and "crypto_ok L" and "sqlite_time_ok L" and "jwt_map_ok L"
    and "length (dv_sessionKey (wd_device w)) = 32"
    and ok: "auther_ok (wd_auther w)" and "Suc (ad_TokenSeq (wd_auther w)) < 2 ^ 63"
    and "jh_privateKey (au_jwtHelper (sv_auther S)) = Some k" and "jwt_pair_ok L k pub"
    and "refresh_fresh L ev (wd_auther w)"
    and "ValidateForLogin L \<lparr>cr_Email = email, cr_Password = password\<rparr> = Inr c"
    and "find_row us_Email (ad_Users (wd_auther w)) (cr_Email c) = Some r"
    and "bcrypt_Compare L (us_PasswordHash r) (cr_Password c)" and "\<bar>sint (us_ID r)\<bar> < 2 ^ 53"
  shows "\<exists>s row w'. Auth_Login L ev (AutherClient L S) email password w = (Inr (), w') \<and>
    signed_in L (au_jwtHelper (sv_auther S)) (us_ID r) s w' \<and>
    wd_device w' = (wd_device w)\<lparr>dv_session := Some row\<rparr> \<and> wd_skeeper w' = wd_skeeper w \<and>
    ad_Users (wd_auther w') = ad_Users (wd_auther w)"
proof -
  let ?h = "au_jwtHelper (sv_auther S)"
  let ?creds = "\<lparr>cr_Email = get_str (Some email), cr_Password = get_str (Some password)\<rparr>"
  have val: "ValidateForLogin L ?creds = Inr c" using assms(11) by simp
  obtain pair where pair: "NewTokenPair L ev ?h (us_ID r) = Inr pair"
    and run: "Uc_LoginUser L ev (sv_auther S) ?creds (wd_auther w) =
      (Inr \<lparr>lr_TokenPair = pair, lr_User = \<lparr>ui_ID = us_ID r, ui_Email = us_Email r, ui_PasswordHash = us_PasswordHash r\<rparr>\<rparr>,
       replaced L (us_ID r) pair (of_nat (Suc (ad_TokenSeq (wd_auther w)))) (wd_auther w))"
    using Uc_LoginUser_ok [OF assms(1) ok assms(7-10) val assms(12,13)] by (elim exE conjE)
  let ?db = "replaced L (us_ID r) pair (of_nat (Suc (ad_TokenSeq (wd_auther w)))) (wd_auther w)"
  let ?s = "pair_session pair (us_ID r)"
  have login: "ra_Login (AutherClient L S) ev email password w = (Inr (?s\<lparr>sn_UserID := None\<rparr>), w\<lparr>wd_auther := ?db\<rparr>)"
    by (simp add: AutherClient_def AutherClient_Login_def assms(1) on_auther_apply Rpc_Login_def bind_m_def map_err_def
        run [unfolded get_str_simps] ret_def of_result_def tokens_to_session_pair [where u = "us_ID r"])
  have uid: "UserIDFromAccessTokenUnverified L (sn_AccessToken ?s) = Inr (us_ID r)"
    using UserID_issued [OF assms(4) pair assms(14)] by (simp add: pair_session_def)
  have user: "?s\<lparr>sn_UserID := None, sn_UserID := Some (us_ID r)\<rparr> = ?s" "sn_UserID ?s = Some (us_ID r)"
    by (simp_all add: pair_session_def)
  obtain row where save: "SaveSession L ev ?s (wd_device w) = (Inr (), (wd_device w)\<lparr>dv_session := Some row\<rparr>)"
    and reads: "session_of L ((wd_device w)\<lparr>dv_session := Some row\<rparr>) = Inr (Some ?s)"
    by (rule SaveSession_signed [OF assms(1-3,5) user(2)])
  let ?w = "w\<lparr>wd_auther := ?db, wd_device := (wd_device w)\<lparr>dv_session := Some row\<rparr>\<rparr>"
  have "Auth_Login L ev (AutherClient L S) email password w = (Inr (), ?w)"
    using uid user(1) by (simp add: Auth_Login_def bind_m_def map_err_def of_result_def login on_device_apply save)
  moreover have "HashToken L (tk_Token (tp_RefreshToken pair)) \<notin> rt_Hash ` set (ad_Tokens (wd_auther w))"
    using assms(10) NewTokenPair_InrD [OF pair] by (metis refresh_fresh_def token.select_convs(1))
  then have "find_row rt_Hash (filter (\<lambda>t. rt_UserID t \<noteq> us_ID r) (ad_Tokens (wd_auther w)))
      (HashToken L (tk_Token (tp_RefreshToken pair))) = None"
    by (auto simp: find_row_None_iff)
  then have "signed_in L ?h (us_ID r) ?s ?w"
    unfolding signed_in_def
    by (intro conjI exI [of _ ev] exI [of _ pair]
        exI [of _ "new_token L (us_ID r) pair (of_nat (Suc (ad_TokenSeq (wd_auther w))))"])
      (use reads pair in \<open>simp_all add: pair_session_def replaced_def find_row_append_new\<close>)
  ultimately show ?thesis
    by (intro exI [of _ ?s] exI [of _ row] exI [of _ ?w]) (simp add: replaced_def)
qed

lemma Auth_Login_refused:
  assumes "no_faults ev"
    and "case ValidateForLogin L \<lparr>cr_Email = email, cr_Password = password\<rparr> of Inl e \<Rightarrow> True
      | Inr c \<Rightarrow> bad_credentials L c (wd_auther w)"
  shows "\<exists>st. Auth_Login L ev (AutherClient L S) email password w =
    (Inl (Wrap (Some (Wrap (Some st) ''login'')) ''remote sign in error''), w) \<and>
    st \<in> {StatusErr Unauthenticated ''invalid email or password''} \<union> range (StatusErr InvalidArgument)"
proof -
  let ?creds = "\<lparr>cr_Email = get_str (Some email), cr_Password = get_str (Some password)\<rparr>"
  have "\<exists>st. Rpc_Login L ev (sv_auther S) (Some email) (Some password) (wd_auther w) = (Inl st, wd_auther w) \<and>
    st \<in> {StatusErr Unauthenticated ''invalid email or password''} \<union> range (StatusErr InvalidArgument)"
  proof (cases "ValidateForLogin L ?creds")
    case (Inl e)
    from ValidateForLogin_InlD [OF Inl] obtain f m where e: "e = NewValidationError f m" by (elim exE)
    with Inl show ?thesis
      by (simp add: Rpc_Login_def Uc_LoginUser_def bind_m_def map_err_def raise_def login_status_def NewValidationError_def)
  next
    case (Inr c)
    with assms(2) have "bad_credentials L c (wd_auther w)" by simp
    from Uc_LoginUser_bad [OF assms(1) Inr this] show ?thesis
      by (simp add: Rpc_Login_def bind_m_def map_err_def login_status_def)
  qed
  then show ?thesis
    by (auto simp: Auth_Login_def AutherClient_def AutherClient_Login_def assms(1) on_auther_apply bind_m_def map_err_def)
qed

lemma Auth_Refresh_run:
  assumes "no_faults ev" and "crypto_ok L" and "sqlite_time_ok L" and "jwt_map_ok L"
    and "length (dv_sessionKey (wd_device w)) = 32"
    and ok: "auther_ok (wd_auther w)" and "Suc (ad_TokenSeq (wd_auther w)) < 2 ^ 63"
    and "jh_privateKey (au_jwtHelper (sv_auther S)) = Some k" and "jwt_pair_ok L k pub"
    and "refresh_fresh L ev (wd_auther w)" and "\<bar>sint u\<bar> < 2 ^ 53"
    and "signed_in L (au_jwtHelper (sv_auther S)) u s w"
    and "\<not> time_until ev NowUntilAccess (sn_ExpiresAt s) > minute"
    and "sn_RefreshExpiresAt s = zero_time \<or> time_now ev NowUntilRefresh < sn_RefreshExpiresAt s"
    and "time_now ev NowRotate < pg_timestamptz L (sn_RefreshExpiresAt s)"
  shows "\<exists>pair row w'. NewTokenPair L ev (au_jwtHelper (sv_auther S)) u = Inr pair \<and>
    Auth_GetValidToken L ev (AutherClient L S) w = (Inr (tk_Token (tp_AccessToken pair)), w') \<and>
    signed_in L (au_jwtHelper (sv_auther S)) u (pair_session pair u) w' \<and>
    wd_device w' = (wd_device w)\<lparr>dv_session := Some row\<rparr> \<and> wd_skeeper w' = wd_skeeper w \<and>
    ad_Users (wd_auther w') = ad_Users (wd_auther w)"
proof -
  let ?h = "au_jwtHelper (sv_auther S)"
  let ?hash = "HashToken L (sn_RefreshToken s)"
  let ?i = "of_nat (Suc (ad_TokenSeq (wd_auther w)))"
  from assms(12) obtain t where s: "session_of L (wd_device w) = Inr (Some s)"
    and t: "find_row rt_Hash (ad_Tokens (wd_auther w)) ?hash = Some t" "rt_UserID t = u"
      "rt_ExpiresAt t = pg_timestamptz L (sn_RefreshExpiresAt s)"
    by (auto simp: signed_in_def)
  obtain pair where pair: "NewTokenPair L ev ?h u = Inr pair"
    using NewTokenPair_total [OF assms(8,9)] by (rule exE)
  let ?s = "pair_session pair u"
  have fresh: "HashToken L (tk_Token (tp_RefreshToken pair)) \<notin> rt_Hash ` set (ad_Tokens (wd_auther w))"
    using assms(10) NewTokenPair_InrD [OF pair] by (metis refresh_fresh_def token.select_convs(1))
  let ?db = "rotated L ?hash t pair ?i (wd_auther w)"
  have "rotate_body L ev ?hash (NewTokenPair L ev ?h) (wd_auther w) = (Inr (RotateCommit, Inr pair), ?db)"
    by (rule rotate_body_live [OF assms(1) ok t(1)])
      (use assms(7,15) pair fresh in \<open>simp_all add: t next_id_def\<close>)
  from RotateRefreshToken_body [OF assms(1) this]
  have refresh: "ra_Refresh (AutherClient L S) ev (sn_RefreshToken s) w
      = (Inr (?s\<lparr>sn_UserID := None\<rparr>), w\<lparr>wd_auther := ?db\<rparr>)"
    by (simp add: AutherClient_def AutherClient_Refresh_def assms(1) on_auther_apply Rpc_ExchangeToken_def
        Uc_RotateToken_def bind_m_def map_err_def ret_def of_result_def tokens_to_session_pair [where u = u])
  have uid: "UserIDFromAccessTokenUnverified L (sn_AccessToken ?s) = Inr u"
    using UserID_issued [OF assms(4) pair assms(11)] by (simp add: pair_session_def)
  have user: "?s\<lparr>sn_UserID := None, sn_UserID := Some u\<rparr> = ?s" "sn_UserID ?s = Some u"
    "sn_AccessToken ?s = tk_Token (tp_AccessToken pair)"
    by (simp_all add: pair_session_def)
  obtain row where save: "SaveSession L ev ?s (wd_device w) = (Inr (), (wd_device w)\<lparr>dv_session := Some row\<rparr>)"
    and reads: "session_of L ((wd_device w)\<lparr>dv_session := Some row\<rparr>) = Inr (Some ?s)"
    by (rule SaveSession_signed [OF assms(1-3,5) user(2)])
  let ?w = "w\<lparr>wd_auther := ?db, wd_device := (wd_device w)\<lparr>dv_session := Some row\<rparr>\<rparr>"
  have alive: "\<not> (sn_RefreshExpiresAt s \<noteq> zero_time \<and> time_until ev NowUntilRefresh (sn_RefreshExpiresAt s) \<le> 0)"
    using assms(14) by (auto simp: time_until_def time_sub_def gotime_order)
  have run: "Auth_GetValidToken L ev (AutherClient L S) w = (Inr (tk_Token (tp_AccessToken pair)), ?w)"
    using uid user(1) assms(13)
    by (simp add: alive Auth_GetValidToken_def on_device_apply GetSession_reads [OF assms(1)] s bind_m_def map_err_def
        of_result_def refresh save ret_def user(3))
  have "find_row rt_Hash (filter (\<lambda>r. rt_Hash r \<noteq> ?hash) (ad_Tokens (wd_auther w)))
      (HashToken L (tk_Token (tp_RefreshToken pair))) = None"
    using fresh by (auto simp: find_row_None_iff)
  then have "signed_in L ?h u ?s ?w"
    unfolding signed_in_def
    by (intro conjI exI [of _ ev] exI [of _ pair] exI [of _ "new_token L u pair ?i"])
      (use reads pair in \<open>simp_all add: pair_session_def rotated_def find_row_append_new t(2)\<close>)
  with pair run show ?thesis
    by (intro exI [of _ pair] exI [of _ row] exI [of _ ?w]) (simp add: rotated_def)
qed

section \<open>What the account commands promise\<close>


text \<open>
  A device that is signed in stays signed in. As long as its refresh token has not expired,
  a request for an access token returns one that was minted for the same user, with more than a
  minute left or fresh from Auther, and leaves the device signed in as that user; only the
  session row may change.
\<close>

theorem session_survives_refresh:
  assumes "no_faults ev" and "crypto_ok L" and "sqlite_time_ok L" and "jwt_map_ok L"
    and "length (dv_sessionKey (wd_device w)) = 32"
    and "auther_ok (wd_auther w)" and "Suc (ad_TokenSeq (wd_auther w)) < 2 ^ 63"
    and "jh_privateKey (au_jwtHelper (sv_auther S)) = Some k" and "jwt_pair_ok L k pub"
    and "refresh_fresh L ev (wd_auther w)" and "\<bar>sint u\<bar> < 2 ^ 53"
    and "signed_in L (au_jwtHelper (sv_auther S)) u s w"
    and "sn_RefreshExpiresAt s = zero_time \<or> time_now ev NowUntilRefresh < sn_RefreshExpiresAt s"
    and "time_now ev NowRotate < pg_timestamptz L (sn_RefreshExpiresAt s)"
  shows "\<exists>s' row w'. Auth_GetValidToken L ev (AutherClient L S) w = (Inr (sn_AccessToken s'), w') \<and>
    signed_in L (au_jwtHelper (sv_auther S)) u s' w' \<and>
    (\<exists>ev0. issue_access (L, ev0, au_jwtHelper (sv_auther S)) u = Some (sn_AccessToken s')) \<and>
    (if time_until ev NowUntilAccess (sn_ExpiresAt s) > minute then s' = s \<and> w' = w
     else issue_access (L, ev, au_jwtHelper (sv_auther S)) u = Some (sn_AccessToken s') \<and>
       wd_device w' = (wd_device w)\<lparr>dv_session := Some row\<rparr> \<and> wd_skeeper w' = wd_skeeper w)"
proof (cases "time_until ev NowUntilAccess (sn_ExpiresAt s) > minute")
  case True
  from assms(12) obtain ev0 pair where pair: "NewTokenPair L ev0 (au_jwtHelper (sv_auther S)) u = Inr pair"
    and s: "s = pair_session pair u" and reads: "session_of L (wd_device w) = Inr (Some s)"
    by (auto simp: signed_in_def)
  have "Auth_GetValidToken L ev (AutherClient L S) w = (Inr (sn_AccessToken s), w)"
    using True by (simp add: Auth_GetValidToken_def on_device_apply GetSession_reads [OF assms(1)] reads bind_m_def ret_def)
  moreover have "issue_access (L, ev0, au_jwtHelper (sv_auther S)) u = Some (sn_AccessToken s)"
    by (simp add: issue_access_def right_value_def pair s pair_session_def)
  ultimately show ?thesis using True assms(12) by auto
next
  case False
  from Auth_Refresh_run [OF assms(1-12) False assms(13,14)] obtain pair row w'
    where pair: "NewTokenPair L ev (au_jwtHelper (sv_auther S)) u = Inr pair"
      and run: "Auth_GetValidToken L ev (AutherClient L S) w = (Inr (tk_Token (tp_AccessToken pair)), w')"
      and si: "signed_in L (au_jwtHelper (sv_auther S)) u (pair_session pair u) w'"
      and w': "wd_device w' = (wd_device w)\<lparr>dv_session := Some row\<rparr>" "wd_skeeper w' = wd_skeeper w"
    by (elim exE conjE)
  have tok: "sn_AccessToken (pair_session pair u) = tk_Token (tp_AccessToken pair)"
    by (simp add: pair_session_def)
  have iss: "issue_access (L, ev, au_jwtHelper (sv_auther S)) u = Some (tk_Token (tp_AccessToken pair))"
    by (simp add: issue_access_def right_value_def pair)
  show ?thesis
    using False iss run si w' by (intro exI [of _ "pair_session pair u"] exI [of _ row] exI [of _ w']) (auto simp: tok)
qed

text \<open>
  Whatever fails, asking for an access token and logging in write the session row of the
  device and Auther's tables, and nothing else: the vault entries, the vault parameters, the
  session key and the vault service stay as they are.
\<close>

theorem account_calls_keep_vault:
  "dv_entries (wd_device (snd (Auth_GetValidToken L ev (AutherClient L S) w))) = dv_entries (wd_device w) \<and>
   dv_crypto (wd_device (snd (Auth_GetValidToken L ev (AutherClient L S) w))) = dv_crypto (wd_device w) \<and>
   dv_sessionKey (wd_device (snd (Auth_GetValidToken L ev (AutherClient L S) w))) = dv_sessionKey (wd_device w) \<and>
   wd_skeeper (snd (Auth_GetValidToken L ev (AutherClient L S) w)) = wd_skeeper w \<and>
   dv_entries (wd_device (snd (Auth_Register L ev (AutherClient L S) e p w))) = dv_entries (wd_device w) \<and>
   wd_skeeper (snd (Auth_Register L ev (AutherClient L S) e p w)) = wd_skeeper w"
  using auther_client.token_keeps_vault [of L ev L S] auther_client.register_keeps_vault [of L ev L S e p]
  by (simp add: keeps_def)

text \<open>
  C39: \<^verbatim>\<open>TokenUseCase\<close> can never refresh. Once the access token is within 30 seconds of
  its expiry every call fails and leaves the device's session as it was, although Auther may
  already have exchanged the refresh token: the refreshed session carries no user id, which the
  session table requires.
\<close>

theorem token_usecase_cannot_refresh:
  assumes "session_of L (wd_device w) = Inr (Some s)" and "no_faults ev"
    and "time_until ev NowUntilAccess (sn_ExpiresAt s) \<le> 30 * second"
  shows "\<exists>e w'. Token_GetValidToken L ev (AutherClient L S) w = (Inl e, w') \<and> wd_device w' = wd_device w"
proof -
  obtain r w1 where ref: "ra_Refresh (AutherClient L S) ev (sn_RefreshToken s) w = (r, w1)"
    by (cases "ra_Refresh (AutherClient L S) ev (sn_RefreshToken s) w")
  have dev: "wd_device w1 = wd_device w"
    by (rule keepsD [OF auther_client.refresh_keeps(1) ref])
  have none: "sn_UserID s' = None" if "r = Inr s'" for s'
    using ref that
    by (auto simp: AutherClient_def AutherClient_Refresh_def tokens_to_session_def of_result_def
        elim!: bind_m_InrE split: option.splits)
  have late: "\<not> 30 * second < time_until ev NowUntilAccess (sn_ExpiresAt s)" using assms(3) by simp
  note run = Token_GetValidToken_def attempt_def on_device_apply GetSession_reads [OF assms(2)] assms(1)
    bind_m_def ref map_err_def raise_def ret_def
  show ?thesis
  proof (cases r)
    case (Inl e)
    with late dev show ?thesis by (auto simp: run)
  next
    case (Inr s')
    obtain x where "SaveSession L ev s' (wd_device w) = (Inl x, wd_device w)"
      using SaveSession_no_user [OF none [OF Inr]] by (rule exE)
    with Inr late dev show ?thesis by (auto simp: run)
  qed
qed

section \<open>A concrete account\<close>

text \<open>One registered user, and a device on which that user is signed in.\<close>

definition toy_services :: services where
  "toy_services = \<lparr>sv_auther = toy_uc, sv_jwt = toy_helper\<rparr>"

definition one_user :: auther_db where
  "one_user = \<lparr>ad_Users = [\<lparr>us_ID = 1, us_Email = ''a@b'', us_PasswordHash = ''longpass''\<rparr>], ad_UserSeq = 1,
     ad_Tokens = [], ad_TokenSeq = 0\<rparr>"

definition fresh_world :: world where
  "fresh_world = \<lparr>wd_auther = one_user, wd_skeeper = toy_db, wd_device = empty_device\<rparr>"

definition toy_pair :: token_pair where
  "toy_pair = \<lparr>tp_AccessToken = \<lparr>tk_Token = toy_sign ''k''
        (newClaims toy (calm (Unix_Ns 0)) toy_helper 1 (Unix_Ns (minute * 15))), tk_ExpiresAt = Unix_Ns (minute * 15)\<rparr>,
     tp_RefreshToken = \<lparr>tk_Token = generateRandomString (calm (Unix_Ns 0)), tk_ExpiresAt = Unix_Ns (hour * 24)\<rparr>\<rparr>"

definition signed_world :: world where
  "signed_world = \<lparr>wd_auther = replaced toy 1 toy_pair 1 one_user, wd_skeeper = toy_db,
     wd_device = snd (SaveSession toy (calm (Unix_Ns 0)) (pair_session toy_pair 1) empty_device)\<rparr>"

lemma toy_pair_minted: "NewTokenPair toy (calm (Unix_Ns 0)) toy_helper 1 = Inr toy_pair"
  by (simp add: NewTokenPair_def toy_helper_def toy_pair_def calm_in_rpc Let_def time_add_def toy_sel)

lemma one_user_ok: "auther_ok one_user"
  by (simp add: auther_ok_def one_user_def seq_ids_def)

lemma toy_services_key: "jh_privateKey (au_jwtHelper (sv_auther toy_services)) = Some ''k''"
  "au_jwtHelper (sv_auther toy_services) = toy_helper" "sv_jwt toy_services = toy_helper"
  by (simp_all add: toy_services_def toy_uc_def toy_helper_def)

lemma signed_world_ok: "auther_ok (wd_auther signed_world)"
  unfolding signed_world_def world.select_convs
  by (rule auther_ok_replaced [OF one_user_ok]) (simp_all add: one_user_def next_id_def)

lemma signed_device:
  obtains row where "wd_device signed_world = empty_device\<lparr>dv_session := Some row\<rparr>"
    and "session_of toy (wd_device signed_world) = Inr (Some (pair_session toy_pair 1))"
proof -
  have k: "length (dv_sessionKey empty_device) = 32" by (simp add: empty_device_def)
  have u: "sn_UserID (pair_session toy_pair 1) = Some 1" by (simp add: pair_session_def)
  obtain row where "SaveSession toy (calm (Unix_Ns 0)) (pair_session toy_pair 1) empty_device
      = (Inr (), empty_device\<lparr>dv_session := Some row\<rparr>)"
    and "session_of toy (empty_device\<lparr>dv_session := Some row\<rparr>) = Inr (Some (pair_session toy_pair 1))"
    by (rule SaveSession_signed [OF calm_no_faults [of "Unix_Ns 0"] toy_crypto_ok toy_sqlite_time_ok k u])
  then show thesis by (intro that [of row]) (simp_all add: signed_world_def)
qed

lemma signed_world_key: "length (dv_sessionKey (wd_device signed_world)) = 32"
  by (rule signed_device) (simp add: empty_device_def)

lemma signed_world_signed_in: "signed_in toy toy_helper 1 (pair_session toy_pair 1) signed_world"
  unfolding signed_in_def
proof (intro conjI)
  show "session_of toy (wd_device signed_world) = Inr (Some (pair_session toy_pair 1))"
    by (rule signed_device)
  show "\<exists>ev pair. NewTokenPair toy ev toy_helper 1 = Inr pair \<and> pair_session toy_pair 1 = pair_session pair 1"
    by (intro exI conjI, rule toy_pair_minted, rule refl)
  show "\<exists>t. find_row rt_Hash (ad_Tokens (wd_auther signed_world)) (HashToken toy (sn_RefreshToken (pair_session toy_pair 1)))
      = Some t \<and> rt_UserID t = 1 \<and> rt_ExpiresAt t = pg_timestamptz toy (sn_RefreshExpiresAt (pair_session toy_pair 1))"
    by (intro exI [of _ "new_token toy 1 toy_pair 1"]) (simp add: signed_world_def replaced_def one_user_def pair_session_def)
qed


text \<open>Other surroundings: other random bytes, and a later time.\<close>

definition later :: "gotime \<Rightarrow> env" where
  "later t = (calm t)\<lparr>rnd := (\<lambda>n d i. CHR 0x2B)\<rparr>"

lemma later_facts: "no_faults (later t)" "time_now (later t) r = t" "time_now (call_at n (later t)) r = t"
    "rand_bytes (later t) d k = replicate k CHR 0x2B" "fresh_uuid (later t) i = 7" "fresh_uuid (call_at n (later t)) i = 7"
  by (simp_all add: later_def no_faults_def calm_def time_now_def rand_bytes_def fresh_uuid_def call_at_def in_rpc_def
      map_replicate_const)

lemma toy_hashes_differ:
  "HashToken toy (hex_encode (replicate 32 CHR 0x2B)) \<noteq> HashToken toy (hex_encode (replicate 32 CHR 0x2A))"
proof -
  have shape: "hex_encode (replicate 32 c) = hex_digit (of_char c div 16) # hex_digit (of_char c mod 16) # hex_encode (replicate 31 c)" for c
    using replicate_Suc [of 31 c] by (simp add: hex_encode_def)
  have "sha256_Sum256 toy (x # y # zs) = x # y # take 30 (zs @ replicate 32 CHR 0x00)" for x y zs
    by (simp add: toy_def take_Cons')
  then have "sha256_Sum256 toy (hex_encode (replicate 32 c)) ! 1 = hex_digit (of_char c mod 16)" for c
    unfolding shape by simp
  from this [of "CHR 0x2B"] this [of "CHR 0x2A"] show ?thesis
    unfolding HashToken_def hex_encode_inj by (auto simp: hex_digit_def)
qed

theorem session_survives_refresh_witness:
  "\<exists>s' w'. Auth_GetValidToken toy (later (Unix_Ns (minute * 15))) (AutherClient toy toy_services) signed_world
      = (Inr (sn_AccessToken s'), w') \<and> signed_in toy toy_helper 1 s' w' \<and>
    issue_access (toy, later (Unix_Ns (minute * 15)), toy_helper) 1 = Some (sn_AccessToken s')"
proof -
  let ?ev = "later (Unix_Ns (minute * 15))"
  have fresh: "refresh_fresh toy ?ev (wd_auther signed_world)"
    using toy_hashes_differ
    by (simp add: refresh_fresh_def signed_world_def replaced_def one_user_def toy_pair_def generateRandomString_def
        calm_in_rpc later_facts)
  have t: "Suc (ad_TokenSeq (wd_auther signed_world)) < 2 ^ 63"
    "sn_RefreshExpiresAt (pair_session toy_pair 1) = zero_time \<or>
      time_now ?ev NowUntilRefresh < sn_RefreshExpiresAt (pair_session toy_pair 1)"
    "time_now ?ev NowRotate < pg_timestamptz toy (sn_RefreshExpiresAt (pair_session toy_pair 1))"
    "\<not> time_until ?ev NowUntilAccess (sn_ExpiresAt (pair_session toy_pair 1)) > minute"
    by (simp_all add: signed_world_def replaced_def one_user_def pair_session_def toy_pair_def later_facts
        gotime_order duration_defs toy_sel time_until_def time_sub_def)
  have si: "signed_in toy (au_jwtHelper (sv_auther toy_services)) 1 (pair_session toy_pair 1) signed_world"
    by (simp add: toy_services_key signed_world_signed_in)
  from session_survives_refresh [OF later_facts(1) [of "Unix_Ns (minute * 15)"] toy_crypto_ok toy_sqlite_time_ok toy_jwt_map_ok
      signed_world_key signed_world_ok t(1) toy_services_key(1) toy_jwt_pair_ok [of "''k''"] fresh _ si t(2,3)] t(4)
  show ?thesis by (auto simp: toy_services_key)
qed

theorem token_usecase_cannot_refresh_witness:
  "\<exists>e w'. Token_GetValidToken toy (calm (Unix_Ns (minute * 15))) (AutherClient toy toy_services) signed_world = (Inl e, w') \<and>
    wd_device w' = wd_device signed_world"
proof -
  have s: "session_of toy (wd_device signed_world) = Inr (Some (pair_session toy_pair 1))" by (rule signed_device)
  have t: "time_until (calm (Unix_Ns (minute * 15))) NowUntilAccess (sn_ExpiresAt (pair_session toy_pair 1)) \<le> 30 * second"
    by (simp add: pair_session_def toy_pair_def calm_in_rpc time_until_def time_sub_def duration_defs)
  from token_usecase_cannot_refresh [OF s calm_no_faults [of "Unix_Ns (minute * 15)"] t] show ?thesis .
qed

end
