(* ===== verification/Skeeper_Client.thy ===== *)
theory Skeeper_Client
  imports Client_Auth
begin

text \<open>
  The CLI's gRPC client of the vault service
  (\<^verbatim>\<open>internal/client/repository/skeeper/client.go\<close>). Its interceptor asks the token
  provider for an access token before every call, so a call may refresh the device's session.
\<close>

section \<open>Calls with a token\<close>

text \<open>The context Skeeper's interceptor sees for a call with one authorization header.\<close>

definition incoming :: "string \<Rightarrow> ctx" where
  "incoming header = \<lparr>cx_UserID = None, cx_RequestInfo = None,
     cx_Metadata = Some (\<lambda>key. if key = ''authorization'' then [header] else []), cx_Peer = None\<rparr>"

type_synonym token_provider = "env \<Rightarrow> (world, go_error, string) cmd"

definition newAuthInterceptor ::
  "token_provider \<Rightarrow> (string \<Rightarrow> (world, go_error, 'a) cmd) \<Rightarrow> env \<Rightarrow> (world, go_error, 'a) cmd" where
  "newAuthInterceptor provider invoker ev =
    bind_m (provider ev) (\<lambda>tok. invoker (''Bearer '' @ tok))"

text \<open>One unary call of the service: the token, then the request over the network.\<close>

definition skeeper_rpc ::
  "lib \<Rightarrow> env \<Rightarrow> services \<Rightarrow> token_provider \<Rightarrow> skeeper_call \<Rightarrow> (world, go_error, skeeper_reply) cmd" where
  "skeeper_rpc L ev S provider call =
    newAuthInterceptor provider
      (\<lambda>header. net_call (call_at 2 ev) (on_skeeper (serve L (call_at 2 ev) (sv_jwt S) call (incoming header))))
      (call_at 1 ev)"

section \<open>The client's methods\<close>

text \<open>The two loops over the response; the second wraps the error of \<^verbatim>\<open>uuid.Parse\<close>.\<close>

definition read_updates :: "lib \<Rightarrow> api_entry list \<Rightarrow> go_error + client_entry list" where
  "read_updates L = map_result (protoToClientEntry L)"

definition read_applied :: "lib \<Rightarrow> string list \<Rightarrow> go_error + uuid list" where
  "read_applied L = map_result (\<lambda>s. case uuid_Parse L s of
      None \<Rightarrow> Inl (Wrap (Some (LibErr ''invalid UUID'')) ''sync applied_update_uuids'')
    | Some i \<Rightarrow> Inr i)"

definition Client_Sync ::
  "lib \<Rightarrow> env \<Rightarrow> services \<Rightarrow> token_provider \<Rightarrow> client_entry list \<Rightarrow> gotime \<Rightarrow>
    (world, go_error, client_entry list \<times> uuid list) cmd" where
  "Client_Sync L ev S provider entries lastSyncAt =
    bind_m (skeeper_rpc L ev S provider (CallSync
      \<lparr>ps_Updates = map (clientEntryToProto L) entries, ps_LastSyncAt = Some (timestamp_new lastSyncAt)\<rparr>)) (\<lambda>reply.
      case reply of
        ReplySync resp \<Rightarrow>
          bind_m (of_result (read_updates L (pr_Updates resp))) (\<lambda>out.
          bind_m (of_result (read_applied L (pr_AppliedUpdateUuids resp))) (\<lambda>applied.
          ret (out, applied)))
      | _ \<Rightarrow> raise (LibErr ''unexpected message''))"

definition Client_GetVaultCrypto ::
  "lib \<Rightarrow> env \<Rightarrow> services \<Rightarrow> token_provider \<Rightarrow> (world, go_error, bytes \<times> bytes) cmd" where
  "Client_GetVaultCrypto L ev S provider =
    bind_m (map_err (\<lambda>e. if status_code e = NotFound then Sentinel ErrVaultCryptoNotFound else e)
      (skeeper_rpc L ev S provider CallGetVault)) (\<lambda>reply.
      case reply of
        ReplyVault (Some v) \<Rightarrow>
          if pv_KdfSalt v = [] \<or> pv_MasterVerifier v = [] then raise (Sentinel ErrVaultCryptoNotFound)
          else ret (pv_KdfSalt v, pv_MasterVerifier v)
      | ReplyVault None \<Rightarrow> raise (Sentinel ErrVaultCryptoNotFound)
      | _ \<Rightarrow> raise (LibErr ''unexpected message''))"

definition Client_PutVaultCrypto ::
  "lib \<Rightarrow> env \<Rightarrow> services \<Rightarrow> token_provider \<Rightarrow> bytes \<Rightarrow> bytes \<Rightarrow> (world, go_error, unit) cmd" where
  "Client_PutVaultCrypto L ev S provider kdfSalt masterVerifier =
    bind_m (skeeper_rpc L ev S provider
      (CallPutVault (Some \<lparr>pv_KdfSalt = kdfSalt, pv_MasterVerifier = masterVerifier\<rparr>))) (\<lambda>_. ret ())"

text \<open>The interfaces the vault and sync use cases call, as the program wires them.\<close>

record vault_remote =
  vr_GetVaultCrypto :: "env \<Rightarrow> (world, go_error, bytes \<times> bytes) cmd"
  vr_PutVaultCrypto :: "env \<Rightarrow> bytes \<Rightarrow> bytes \<Rightarrow> (world, go_error, unit) cmd"

definition wired_provider :: "lib \<Rightarrow> services \<Rightarrow> token_provider" where
  "wired_provider L S = (\<lambda>ev. Auth_GetValidToken L ev (AutherClient L S))"

definition wired_vault :: "lib \<Rightarrow> services \<Rightarrow> vault_remote" where
  "wired_vault L S = \<lparr>
     vr_GetVaultCrypto = \<lambda>ev. Client_GetVaultCrypto L ev S (wired_provider L S),
     vr_PutVaultCrypto = \<lambda>ev. Client_PutVaultCrypto L ev S (wired_provider L S)\<rparr>"

definition wired_sync :: "lib \<Rightarrow> services \<Rightarrow> env \<Rightarrow> client_entry list \<Rightarrow> gotime \<Rightarrow>
    (world, go_error, client_entry list \<times> uuid list) cmd" where
  "wired_sync L S ev = Client_Sync L ev S (wired_provider L S)"

section \<open>What a call can touch\<close>

lemma provider_keeps [cmd_frame]:
  "keeps (\<lambda>w. dv_entries (wd_device w)) (wired_provider L S ev)"
  "keeps (\<lambda>w. dv_crypto (wd_device w)) (wired_provider L S ev)"
  "keeps (\<lambda>w. dv_sessionKey (wd_device w)) (wired_provider L S ev)"
  "keeps wd_skeeper (wired_provider L S ev)"
  unfolding wired_provider_def by (rule auther_client.token_keeps_vault)+

lemma keeps_skeeper_rpc:
  assumes "keeps f (provider (call_at 1 ev))" and "\<And>c :: (skeeper_db, go_error, skeeper_reply) cmd. keeps f (on_skeeper c)"
  shows "keeps f (skeeper_rpc L ev S provider call)"
  unfolding skeeper_rpc_def newAuthInterceptor_def by (intro cmd_frame assms)

lemma rpc_keeps [cmd_frame]:
  "keeps (\<lambda>w. dv_entries (wd_device w)) (skeeper_rpc L ev S (wired_provider L S) call)"
  "keeps (\<lambda>w. dv_crypto (wd_device w)) (skeeper_rpc L ev S (wired_provider L S) call)"
  "keeps (\<lambda>w. dv_sessionKey (wd_device w)) (skeeper_rpc L ev S (wired_provider L S) call)"
  by (rule keeps_skeeper_rpc, rule provider_keeps, rule keeps_comp [of wd_device, OF keeps_on_others(5)])+

text \<open>
  The contract of the remote side of the vault: whatever it answers, it may write the session row
  of the device and the services' data, but not the vault of the device.
\<close>

locale remote_vault =
  fixes R :: vault_remote
  assumes get_keeps: "keeps (\<lambda>w. dv_entries (wd_device w)) (vr_GetVaultCrypto R ev)"
      "keeps (\<lambda>w. dv_crypto (wd_device w)) (vr_GetVaultCrypto R ev)"
      "keeps (\<lambda>w. dv_sessionKey (wd_device w)) (vr_GetVaultCrypto R ev)"
    and put_keeps: "keeps (\<lambda>w. dv_entries (wd_device w)) (vr_PutVaultCrypto R ev s v)"
      "keeps (\<lambda>w. dv_crypto (wd_device w)) (vr_PutVaultCrypto R ev s v)"
      "keeps (\<lambda>w. dv_sessionKey (wd_device w)) (vr_PutVaultCrypto R ev s v)"

lemma Client_vault_keeps:
  assumes "\<And>call. keeps f (skeeper_rpc L ev S (wired_provider L S) call)"
  shows "keeps f (Client_GetVaultCrypto L ev S (wired_provider L S))"
    and "keeps f (Client_PutVaultCrypto L ev S (wired_provider L S) s v)"
proof -
  have "keeps f (case reply of ReplyVault (Some v) \<Rightarrow>
          if pv_KdfSalt v = [] \<or> pv_MasterVerifier v = [] then raise (Sentinel ErrVaultCryptoNotFound)
          else ret (pv_KdfSalt v, pv_MasterVerifier v)
      | ReplyVault None \<Rightarrow> raise (Sentinel ErrVaultCryptoNotFound)
      | _ \<Rightarrow> raise (LibErr ''unexpected message''))" for reply
    by (simp split: skeeper_reply.split option.split)
  then show "keeps f (Client_GetVaultCrypto L ev S (wired_provider L S))"
    unfolding Client_GetVaultCrypto_def by (intro keeps_bind keeps_map_err assms)
  show "keeps f (Client_PutVaultCrypto L ev S (wired_provider L S) s v)"
    unfolding Client_PutVaultCrypto_def by (intro cmd_frame assms)
qed

interpretation skeeper_vault: remote_vault "wired_vault L S"
  by unfold_locales (simp_all add: wired_vault_def Client_vault_keeps rpc_keeps)

section \<open>Calls that are admitted\<close>

text \<open>
  The device is online as \<open>u\<close>: its access token has more than a minute left on the device's
  clock and is accepted by the service on its own.
\<close>

definition online :: "lib \<Rightarrow> env \<Rightarrow> services \<Rightarrow> int64 \<Rightarrow> world \<Rightarrow> bool" where
  "online L ev S u w \<longleftrightarrow> strings_ToLower L ''Bearer'' = ''bearer'' \<and>
    (\<exists>s. session_of L (wd_device w) = Inr (Some s) \<and> sn_UserID s = Some u \<and>
      CHR '' '' \<notin> set (sn_AccessToken s) \<and>
      (\<forall>n. time_sub (sn_ExpiresAt s) (clk ev n NowUntilAccess) > minute \<and>
        accept_access (L, in_rpc n ev, sv_jwt S) (sn_AccessToken s) = Some u))"

lemma in_rpc_in_rpc [simp]: "in_rpc n (in_rpc k ev) = in_rpc n ev"
  by (simp add: in_rpc_def)

lemma online_in_rpc [simp]: "online L (in_rpc n ev) S u w = online L ev S u w"
  by (simp add: online_def in_rpc_def)

lemma online_call_at [simp]: "online L (call_at n ev) S u w = online L ev S u w"
  by (simp add: call_at_def)

text \<open>Being online depends on the session row and the session key only.\<close>

lemma session_of_cong:
  "dv_session d = dv_session d' \<Longrightarrow> dv_sessionKey d = dv_sessionKey d' \<Longrightarrow> session_of L d = session_of L d'"
  by (simp add: session_of_def GetSession_def bind_m_def gets_def try_call_def ret_def of_result_def
      split: option.split sum.split)

lemma online_cong:
  "dv_session (wd_device w) = dv_session (wd_device w') \<Longrightarrow> dv_sessionKey (wd_device w) = dv_sessionKey (wd_device w') \<Longrightarrow>
    online L ev S u w = online L ev S u w'"
  unfolding online_def by (simp add: session_of_cong [of "wd_device w" "wd_device w'"])

text \<open>An online device's call reaches the handler as its user and leaves the device alone.\<close>

lemma skeeper_rpc_run:
  assumes "no_faults ev" and "online L ev S u w"
  shows "\<exists>cx. cx_UserID cx = Some u \<and> skeeper_rpc L ev S (wired_provider L S) call w =
    on_skeeper (handle_call L (call_at 2 ev) call cx) w"
proof -
  from assms(2) obtain s where low: "strings_ToLower L ''Bearer'' = ''bearer''"
    and s: "session_of L (wd_device w) = Inr (Some s)" "CHR '' '' \<notin> set (sn_AccessToken s)"
    and t: "time_sub (sn_ExpiresAt s) (clk (call_at 1 ev) (rpc (call_at 1 ev)) NowUntilAccess) > minute"
    and acc: "accept_access (L, call_at 2 ev, sv_jwt S) (sn_AccessToken s) = Some u"
    by (auto simp: online_def call_at_def) (simp add: in_rpc_def)
  let ?cx = "incoming (''Bearer '' @ sn_AccessToken s)"
  have "authorize L (call_at 2 ev) (sv_jwt S) ?cx = Inr (SetUserID ?cx u)"
    by (rule authorize_bearer [OF acc s(2) low, where rest = "[]" and
        md = "\<lambda>key. if key = ''authorization'' then [''Bearer '' @ sn_AccessToken s] else []"])
      (simp_all add: incoming_def cong: if_cong)
  moreover have "wired_provider L S (call_at 1 ev) w = (Inr (sn_AccessToken s), w)"
    using t by (simp add: wired_provider_def Auth_GetValidToken_def on_device_apply s(1) bind_m_def ret_def
        GetSession_reads [of "call_at (Suc 0) ev"] assms(1) time_until_def time_now_def)
  ultimately show ?thesis
    by (intro exI [of _ "SetUserID ?cx u"])
      (simp add: skeeper_rpc_def newAuthInterceptor_def bind_m_def assms(1) serve_def AuthInterceptor_def SetUserID_def)
qed

lemma Repo_GetVaultCrypto_answer:
  "no_faults ev \<Longrightarrow> Repo_GetVaultCrypto ev u db =
    (case db_vault db u of None \<Rightarrow> (Inl (Sentinel Vault_ErrNotFound), db) | Some sv \<Rightarrow> (Inr sv, db))"
  by (simp add: Repo_GetVaultCrypto_def vault_select_def cmd_defs split: option.split)

lemma Client_GetVaultCrypto_run:
  assumes "no_faults ev" and "online L ev S u w"
  shows "Client_GetVaultCrypto L ev S (wired_provider L S) w =
    ((case db_vault (wd_skeeper w) u of
        None \<Rightarrow> Inl (Sentinel ErrVaultCryptoNotFound)
      | Some (s, v) \<Rightarrow> if s = [] \<or> v = [] then Inl (Sentinel ErrVaultCryptoNotFound) else Inr (s, v)), w)"
proof -
  obtain cx where cx: "cx_UserID cx = Some u" and run: "skeeper_rpc L ev S (wired_provider L S) CallGetVault w =
      on_skeeper (handle_call L (call_at 2 ev) CallGetVault cx) w"
    using skeeper_rpc_run [OF assms] by blast
  show ?thesis
    by (auto simp: Client_GetVaultCrypto_def bind_m_def map_err_def run on_skeeper_apply handle_call_def
        Rpc_GetVaultCrypto_def Uc_GetVaultCrypto_def GetUserID_def cx Repo_GetVaultCrypto_answer assms(1)
        get_vault_status_def ret_def raise_def split: option.split)
qed

lemma Client_PutVaultCrypto_run:
  assumes "no_faults ev" and "online L ev S u w" and "length s = 16" and "length v = 32"
  shows "Client_PutVaultCrypto L ev S (wired_provider L S) s v w =
    (case db_vault (wd_skeeper w) u of
       None \<Rightarrow> (Inr (), w\<lparr>wd_skeeper := (wd_skeeper w)\<lparr>db_vault := (db_vault (wd_skeeper w))(u \<mapsto> (s, v))\<rparr>\<rparr>)
     | Some sv \<Rightarrow> (if sv = (s, v) then Inr ()
         else Inl (StatusErr AlreadyExists ''vault already initialized with different credentials''), w))"
proof -
  let ?m = "CallPutVault (Some \<lparr>pv_KdfSalt = s, pv_MasterVerifier = v\<rparr>)"
  obtain cx where cx: "cx_UserID cx = Some u" and run: "skeeper_rpc L ev S (wired_provider L S) ?m w =
      on_skeeper (handle_call L (call_at 2 ev) ?m cx) w"
    using skeeper_rpc_run [OF assms(1,2)] by blast
  have nf: "no_faults (call_at 2 ev)" using assms(1) by simp
  show ?thesis
    by (simp add: Client_PutVaultCrypto_def bind_m_def run on_skeeper_apply handle_call_def
        Rpc_PutVaultCrypto_answer [OF nf cx] assms(3,4) ret_def split: option.split)
qed

lemma read_updates_run: "uuid_ok L \<Longrightarrow> read_updates L (map (Entry_ToProto L) es) = Inr (map to_client es)"
  by (induction es) (simp_all add: read_updates_def protoToClientEntry_server)

lemma read_applied_run: "uuid_ok L \<Longrightarrow> read_applied L (map (uuid_String L) us) = Inr us"
  by (induction us) (simp_all add: read_applied_def uuid_Parse_String)

lemma Client_Sync_run:
  assumes "no_faults ev" and "online L ev S u w" and "uuid_ok L" and "distinct (map ce_UUID es)"
    and "\<forall>e\<in>set es. syncable e"
  shows "wired_sync L S ev es t w =
    (Inr (map to_client (pulled L u t (push_result L u (map to_server es) (wd_skeeper w))),
        accepted u (wd_skeeper w) (map to_server es)),
     w\<lparr>wd_skeeper := push_result L u (map to_server es) (wd_skeeper w)\<rparr>)"
proof -
  let ?m = "CallSync \<lparr>ps_Updates = map (clientEntryToProto L) es, ps_LastSyncAt = Some (timestamp_new t)\<rparr>"
  obtain cx where cx: "cx_UserID cx = Some u" and run: "skeeper_rpc L ev S (wired_provider L S) ?m w =
      on_skeeper (handle_call L (call_at 2 ev) ?m cx) w"
    using skeeper_rpc_run [OF assms(1,2)] by blast
  have nf: "no_faults (call_at 2 ev)" using assms(1) by simp
  show ?thesis
    by (simp add: wired_sync_def Client_Sync_def bind_m_def run on_skeeper_apply handle_call_def
        Rpc_Sync_answer [OF nf cx assms(3-5)] ret_def of_result_def SyncResponse_ToProto_def
        read_updates_run [OF assms(3)] read_applied_run [OF assms(3)])
qed

section \<open>What the client's calls promise\<close>

text \<open>
  The vault parameters of an account are published once. A device that is online reads
  exactly what the service stores for its user; publishing stores the first parameters, accepts
  the same ones again and reports different ones without storing them; the device stays as it is.
\<close>

theorem client_vault_answers:
  assumes "no_faults ev" and "online L ev S u w" and "length s = 16" and "length v = 32"
  shows "(case db_vault (wd_skeeper w) u of
      None \<Rightarrow> vr_GetVaultCrypto (wired_vault L S) ev w = (Inl (Sentinel ErrVaultCryptoNotFound), w) \<and>
        (\<exists>w'. vr_PutVaultCrypto (wired_vault L S) ev s v w = (Inr (), w') \<and>
          wd_device w' = wd_device w \<and> wd_auther w' = wd_auther w \<and>
          db_entries (wd_skeeper w') = db_entries (wd_skeeper w) \<and>
          vr_GetVaultCrypto (wired_vault L S) ev w' = (Inr (s, v), w'))
    | Some (s0, v0) \<Rightarrow>
        (s0 \<noteq> [] \<and> v0 \<noteq> [] \<longrightarrow> vr_GetVaultCrypto (wired_vault L S) ev w = (Inr (s0, v0), w)) \<and>
        vr_PutVaultCrypto (wired_vault L S) ev s v w =
          (if (s0, v0) = (s, v) then Inr ()
           else Inl (StatusErr AlreadyExists ''vault already initialized with different credentials''), w))"
proof -
  have on: "online L ev S u (w\<lparr>wd_skeeper := db\<rparr>)" for db
    using assms(2) online_cong [of "w\<lparr>wd_skeeper := db\<rparr>" w] by simp
  have "s \<noteq> []" "v \<noteq> []" using assms(3,4) by auto
  then show ?thesis
    by (auto simp: wired_vault_def Client_GetVaultCrypto_run [OF assms(1,2)]
        Client_GetVaultCrypto_run [OF assms(1) on]
        Client_PutVaultCrypto_run [OF assms(1,2)] assms(3,4) split: option.split)
qed

text \<open>
  A sync call exchanges entries exactly. What the device pushes is merged into its user's
  rows on the server; it gets back the uuids the server took and the user's rows newer than the
  cursor, each as the entry some device pushed; nothing else changes.
\<close>

theorem client_sync_exchanges:
  assumes "no_faults ev" and "online L ev S u w" and "uuid_ok L" and "distinct (map ce_UUID es)"
    and "\<forall>e\<in>set es. syncable e" and "entries_ok (wd_skeeper w)"
  shows "\<exists>updates applied w'. wired_sync L S ev es t w = (Inr (updates, applied), w') \<and>
    wd_device w' = wd_device w \<and> wd_auther w' = wd_auther w \<and> db_vault (wd_skeeper w') = db_vault (wd_skeeper w) \<and>
    (\<forall>k. look_entry (db_entries (wd_skeeper w')) k
      = lww (look_entry (db_entries (wd_skeeper w)) k) (look_entry (map (entry_row L u \<circ> to_server) es) k)) \<and>
    set applied = {ce_UUID e |e. e \<in> set es \<and> (case look_entry (db_entries (wd_skeeper w)) (u, ce_UUID e) of
        None \<Rightarrow> True | Some old \<Rightarrow> slt (er_Version old) (ce_Version e))} \<and>
    set updates = {to_client (toDomain r) |r. r \<in> set (db_entries (wd_skeeper w')) \<and> er_UserID r = u \<and>
        pg_timestamptz L t < er_UpdatedAt r}"
proof -
  have same: "map (se_UUID \<circ> to_server) es = map ce_UUID es"
    "se_UUID (to_server e) = ce_UUID e" "se_Version (to_server e) = ce_Version e" for e
    by (simp_all add: to_server_def)
  have "distinct (map entry_key (map (entry_row L u) (map to_server es)))"
    by (rule distinct_entry_rows [THEN iffD2]) (simp only: map_map same(1) assms(4))
  from look_fold_gate_distinct [OF entries_okD(1) [OF assms(6)] this]
  have look: "look_entry (db_entries (push_result L u (map to_server es) (wd_skeeper w))) k
    = lww (look_entry (db_entries (wd_skeeper w)) k) (look_entry (map (entry_row L u \<circ> to_server) es) k)" for k
    by (simp add: push_result_def o_assoc)
  have "accepted u (wd_skeeper w) (map to_server es) = map ce_UUID
      (filter (\<lambda>e. case look_entry (db_entries (wd_skeeper w)) (u, ce_UUID e) of
        None \<Rightarrow> True | Some old \<Rightarrow> slt (er_Version old) (ce_Version e)) es)"
    by (simp add: accepted_def filter_map o_def same cong: option.case_cong)
  then have app: "set (accepted u (wd_skeeper w) (map to_server es)) =
      {ce_UUID e |e. e \<in> set es \<and> (case look_entry (db_entries (wd_skeeper w)) (u, ce_UUID e) of
        None \<Rightarrow> True | Some old \<Rightarrow> slt (er_Version old) (ce_Version e))}"
    by auto
  show ?thesis
    unfolding Client_Sync_run [OF assms(1-5)]
    by (intro exI conjI, rule refl, simp_all add: app look) (simp add: push_result_def, auto simp: pulled_def)
qed

section \<open>A device that is online\<close>

lemma signed_world_online_at:
  assumes "0 \<le> t" and "t < minute"
  shows "online toy (calm (Unix_Ns t)) toy_services 1 signed_world"
  unfolding online_def
proof (intro conjI exI allI)
  show "strings_ToLower toy ''Bearer'' = ''bearer''"
    by (simp add: toy_sel toy_lower_def byte_in_def char_of_def bit_Suc_0_iff)
  show "session_of toy (wd_device signed_world) = Inr (Some (pair_session toy_pair 1))"
    by (rule signed_device)
  show "sn_UserID (pair_session toy_pair 1) = Some 1" by (simp add: pair_session_def)
  show "CHR '' '' \<notin> set (sn_AccessToken (pair_session toy_pair 1))"
    by (simp add: pair_session_def toy_pair_def toy_sign_def enc_strs_def enc_str_def claims_strs_def newClaims_def
        toy_helper_def toy_sel DefaultIssuer_def calm_in_rpc opt_time_text_def time_text_def duration_defs
        toy_uuid_text_def nat_bytes.simps char_of_def)
  fix n
  show "time_sub (sn_ExpiresAt (pair_session toy_pair 1)) (clk (calm (Unix_Ns t)) n NowUntilAccess) > minute"
    using assms by (simp add: pair_session_def toy_pair_def time_sub_def calm_def duration_defs)
  have "token_live (toy, calm (Unix_Ns 0), toy_helper) (toy, in_rpc n (calm (Unix_Ns t)), toy_helper)"
    using assms by (simp add: token_live_def toy_helper_def toy_ok issued_sec_def expiry_sec_def calm_in_rpc gotime_order duration_defs)
  moreover have "issue_access (toy, calm (Unix_Ns 0), toy_helper) 1 = Some (sn_AccessToken (pair_session toy_pair 1))"
    by (simp add: issue_access_def right_value_def toy_pair_minted pair_session_def)
  ultimately show "accept_access (toy, in_rpc n (calm (Unix_Ns t)), sv_jwt toy_services) (sn_AccessToken (pair_session toy_pair 1)) = Some 1"
    unfolding toy_services_key by (rule access_token.accept_issued)
qed

lemma signed_world_online: "online toy (calm (Unix_Ns 0)) toy_services 1 signed_world"
  by (rule signed_world_online_at) (simp_all add: duration_defs)

theorem client_vault_answers_witness:
  "\<exists>w'. vr_PutVaultCrypto (wired_vault toy toy_services) (calm (Unix_Ns 0)) (replicate 16 CHR ''s'') (replicate 32 CHR ''v'')
      signed_world = (Inr (), w') \<and>
    vr_GetVaultCrypto (wired_vault toy toy_services) (calm (Unix_Ns 0)) w'
      = (Inr (replicate 16 CHR ''s'', replicate 32 CHR ''v''), w')"
  using client_vault_answers [OF calm_no_faults [of "Unix_Ns 0"] signed_world_online,
      of "replicate 16 CHR ''s''" "replicate 32 CHR ''v''"]
  by (auto simp: signed_world_def toy_db_def)

theorem client_sync_exchanges_witness:
  "\<exists>updates applied w'. wired_sync toy toy_services (calm (Unix_Ns 0)) [client_sample 8 1] zero_time signed_world
      = (Inr (updates, applied), w') \<and> set applied = {8} \<and> wd_device w' = wd_device signed_world"
proof -
  have d: "distinct (map ce_UUID [client_sample 8 1])" by simp
  have fits: "\<forall>e\<in>set [client_sample 8 1]. syncable e" by (simp add: client_sample_syncable)
  have ok: "entries_ok (wd_skeeper signed_world)" by (simp add: signed_world_def toy_db_ok)
  have none: "look_entry (db_entries (wd_skeeper signed_world)) (1, 8) = None"
    by (simp add: signed_world_def toy_db_def sample_entry_def entry_row_def entry_key_def)
  have i: "ce_UUID (client_sample 8 1) = 8" by (simp add: client_sample_def sample_entry_def to_client_def)
  from client_sync_exchanges [OF calm_no_faults [of "Unix_Ns 0"] signed_world_online toy_uuid_ok d fits ok, of zero_time]
  show ?thesis by (auto simp: i none)
qed

end
