(* ===== verification/Secret_Usecase.thy ===== *)
theory Secret_Usecase
  imports Skeeper_Client
begin

text \<open>
  The vault use case of the CLI (\<^verbatim>\<open>internal/client/usecase/secret.go\<close>): entries are
  encrypted on the device under a data key of their own, which is encrypted under the key
  derived from the master password; the salt and the verifier of that key are shared with the
  user's other devices through the vault service. The payload, the metadata and the data key are
  AES-GCM blobs.
\<close>

section \<open>The use case\<close>

definition DefaultMaxFileBytes :: int where "DefaultMaxFileBytes = 10 * 2 ^ 20"

record secret_uc =
  su_remote :: "vault_remote option"
  su_maxFileBytes :: int

definition NewSecretUseCase :: "vault_remote option \<Rightarrow> int \<Rightarrow> secret_uc" where
  "NewSecretUseCase remote maxFileBytes = \<lparr>su_remote = remote,
     su_maxFileBytes = (if maxFileBytes \<le> 0 then DefaultMaxFileBytes else maxFileBytes)\<rparr>"

definition sanitizeOriginalFilename :: "string \<Rightarrow> string" where
  "sanitizeOriginalFilename name =
    (let base = filepath_base name
     in if base = ''.'' \<or> base = [slash] \<or> base = [] then ''file'' else base)"

section \<open>The user and the vault parameters\<close>

definition session_user :: "session option \<Rightarrow> int64 option" where
  "session_user s = Option.bind s sn_UserID"

definition activeAutherUserID :: "lib \<Rightarrow> env \<Rightarrow> (world, go_error, int64 option) cmd" where
  "activeAutherUserID L ev =
    bind_m (attempt (on_device (GetSession L ev))) (\<lambda>r.
    ret (case r of Inl _ \<Rightarrow> None | Inr s \<Rightarrow> session_user s))"

definition requireAutherUserID :: "lib \<Rightarrow> env \<Rightarrow> (world, go_error, int64) cmd" where
  "requireAutherUserID L ev =
    bind_m (attempt (on_device (GetSession L ev))) (\<lambda>r.
      case (case r of Inl _ \<Rightarrow> None | Inr s \<Rightarrow> session_user s) of
        None \<Rightarrow> raise (ErrNew ''log in required'')
      | Some u \<Rightarrow> ret u)"

definition pullRemoteVaultCrypto :: "env \<Rightarrow> secret_uc \<Rightarrow> int64 \<Rightarrow> (world, go_error, unit) cmd" where
  "pullRemoteVaultCrypto ev uc userID =
    (case su_remote uc of
       None \<Rightarrow> ret ()
     | Some remote \<Rightarrow>
         bind_m (attempt (vr_GetVaultCrypto remote ev)) (\<lambda>r.
           case r of
             Inl e \<Rightarrow> if errors_is e ErrVaultCryptoNotFound then ret ()
                      else raise (Wrap (Some e) ''fetch vault crypto'')
           | Inr (salt, verifier) \<Rightarrow>
               if salt = [] \<or> verifier = [] then ret ()
               else on_device (ReplaceLocalVaultCrypto ev userID salt verifier)))"

definition materializeVaultCrypto :: "lib \<Rightarrow> env \<Rightarrow> secret_uc \<Rightarrow> (world, go_error, bytes \<times> bytes) cmd" where
  "materializeVaultCrypto L ev uc =
    bind_m (requireAutherUserID L (call_at 1 ev)) (\<lambda>uid.
    bind_m (pullRemoteVaultCrypto (call_at 2 ev) uc uid) (\<lambda>_.
    on_device (EnsureLocalVaultCrypto ev uid)))"

definition deriveAndCheckMasterKey :: "lib \<Rightarrow> bytes \<Rightarrow> bytes \<Rightarrow> string \<Rightarrow> go_error + bytes" where
  "deriveAndCheckMasterKey L salt storedVerifier masterPass =
    (let masterKey = DeriveMasterKey L masterPass salt
     in if storedVerifier \<noteq> [] \<and> MasterKeyVerifier L masterKey \<noteq> storedVerifier
        then Inl (Sentinel ErrWrongMasterPassword)
        else Inr masterKey)"

definition publishVaultCrypto :: "lib \<Rightarrow> env \<Rightarrow> secret_uc \<Rightarrow> bytes \<Rightarrow> bytes \<Rightarrow> (world, go_error, unit) cmd" where
  "publishVaultCrypto L ev uc salt masterKey =
    (case su_remote uc of
       None \<Rightarrow> ret ()
     | Some remote \<Rightarrow>
         bind_m (activeAutherUserID L (call_at 1 ev)) (\<lambda>u.
           if u = None then ret ()
           else vr_PutVaultCrypto remote (call_at 2 ev) salt (MasterKeyVerifier L masterKey)))"

definition finalizeVaultVerifier ::
  "lib \<Rightarrow> env \<Rightarrow> secret_uc \<Rightarrow> int64 \<Rightarrow> bytes \<Rightarrow> bytes \<Rightarrow> bytes \<Rightarrow> (world, go_error, unit) cmd" where
  "finalizeVaultVerifier L ev uc userID salt storedVerifier masterKey =
    bind_m (if storedVerifier = []
            then map_err (\<lambda>e. Wrap (Some e) ''save master verifier'')
              (on_device (SetLocalMasterVerifier ev userID (MasterKeyVerifier L masterKey)))
            else ret ()) (\<lambda>_.
    publishVaultCrypto L ev uc salt masterKey)"

section \<open>Sealing and opening an entry\<close>

text \<open>\<^verbatim>\<open>json.Marshal\<close> of the metadata and reading random bytes cannot fail.\<close>

definition sealWithNewDEK ::
  "lib \<Rightarrow> env \<Rightarrow> client_entry \<Rightarrow> bytes \<Rightarrow> entry_metadata \<Rightarrow> bytes \<Rightarrow> int64 \<Rightarrow> go_error + client_entry" where
  "sealWithNewDEK L ev e plaintext meta masterKey uid =
    (let dek = rand_bytes ev DrawDEK 32
     in case EncryptAESGCM L ev DrawPayloadNonce plaintext dek of
          Inl x \<Rightarrow> Inl (Wrap (Some x) ''encrypt payload'')
        | Inr encPayload \<Rightarrow>
            (case EncryptAESGCM L ev DrawMetaNonce (json_Marshal_meta L meta) dek of
               Inl x \<Rightarrow> Inl (Wrap (Some x) ''encrypt meta'')
             | Inr encMeta \<Rightarrow>
                 (case EncryptAESGCM L ev DrawDekNonce dek masterKey of
                    Inl x \<Rightarrow> Inl (Wrap (Some x) ''encrypt dek'')
                  | Inr encDEK \<Rightarrow> Inr (e\<lparr>ce_Payload := encPayload, ce_Meta := encMeta, ce_EncryptedDek := encDEK,
                      ce_Version := ce_Version e + 1, ce_UpdatedAt := time_now ev NowSeal, ce_UserID := Some uid\<rparr>))))"

definition verifyPayloadAndMetaWithDEK :: "lib \<Rightarrow> client_entry \<Rightarrow> bytes \<Rightarrow> go_error + unit" where
  "verifyPayloadAndMetaWithDEK L e dek =
    (case DecryptAESGCM L (ce_Payload e) dek of
       Inl x \<Rightarrow> Inl (Wrap (Some x) ''decrypt payload'')
     | Inr _ \<Rightarrow>
         (case DecryptAESGCM L (ce_Meta e) dek of
            Inl x \<Rightarrow> Inl (Wrap (Some x) ''decrypt meta'')
          | Inr _ \<Rightarrow> Inr ()))"

definition decryptMetaWithDEK :: "lib \<Rightarrow> client_entry \<Rightarrow> bytes \<Rightarrow> go_error + entry_metadata" where
  "decryptMetaWithDEK L e dek =
    (case DecryptAESGCM L (ce_Meta e) dek of
       Inl x \<Rightarrow> Inl (Wrap (Some x) ''decrypt meta'')
     | Inr metaBytes \<Rightarrow>
         (case json_Unmarshal_meta L metaBytes of
            None \<Rightarrow> Inl (Wrap (Some (LibErr ''json'')) ''unmarshal meta'')
          | Some out \<Rightarrow> Inr out))"

definition encryptMetaOnly ::
  "lib \<Rightarrow> env \<Rightarrow> client_entry \<Rightarrow> entry_metadata \<Rightarrow> bytes \<Rightarrow> int64 \<Rightarrow> go_error + client_entry" where
  "encryptMetaOnly L ev e meta dek uid =
    (case EncryptAESGCM L ev DrawMetaNonce (json_Marshal_meta L meta) dek of
       Inl x \<Rightarrow> Inl (Wrap (Some x) ''encrypt meta'')
     | Inr encMeta \<Rightarrow> Inr (e\<lparr>ce_Meta := encMeta, ce_Version := ce_Version e + 1,
         ce_UpdatedAt := time_now ev NowMeta, ce_UserID := Some uid\<rparr>))"

section \<open>New entries\<close>

definition new_entry :: "uuid \<Rightarrow> string \<Rightarrow> client_entry" where
  "new_entry i typ = \<lparr>ce_UUID = i, ce_Type = typ, ce_EncryptedDek = [], ce_Payload = [], ce_Meta = [],
     ce_Version = 0, ce_IsDeleted = False, ce_UpdatedAt = zero_time, ce_IsDirty = False, ce_UserID = None\<rparr>"

definition insertEncryptedEntry ::
  "lib \<Rightarrow> env \<Rightarrow> secret_uc \<Rightarrow> string \<Rightarrow> entry_metadata \<Rightarrow> bytes \<Rightarrow> string \<Rightarrow> (world, go_error, unit) cmd" where
  "insertEncryptedEntry L ev uc typ meta plaintext masterPass =
    bind_m (requireAutherUserID L (call_at 1 ev)) (\<lambda>uid.
    bind_m (materializeVaultCrypto L (call_at 2 ev) uc) (\<lambda>(salt, storedVerifier).
    bind_m (of_result (deriveAndCheckMasterKey L salt storedVerifier masterPass)) (\<lambda>masterKey.
    bind_m (of_result (sealWithNewDEK L ev (new_entry (fresh_uuid ev IdEntry) typ) plaintext meta masterKey uid)) (\<lambda>entry.
    bind_m (on_device (SaveEntry L ev entry True)) (\<lambda>_.
    finalizeVaultVerifier L (call_at 3 ev) uc uid salt storedVerifier masterKey)))))"

definition SetPassword ::
  "lib \<Rightarrow> env \<Rightarrow> secret_uc \<Rightarrow> entry_metadata \<Rightarrow> string \<Rightarrow> string \<Rightarrow> (world, go_error, unit) cmd" where
  "SetPassword L ev uc meta password masterPass = insertEncryptedEntry L ev uc EntryTypePassword meta password masterPass"

definition SetText ::
  "lib \<Rightarrow> env \<Rightarrow> secret_uc \<Rightarrow> entry_metadata \<Rightarrow> string \<Rightarrow> string \<Rightarrow> (world, go_error, unit) cmd" where
  "SetText L ev uc meta txt masterPass = insertEncryptedEntry L ev uc EntryTypeText meta txt masterPass"

definition file_too_large :: "int \<Rightarrow> int \<Rightarrow> go_error" where
  "file_too_large n maxb = ErrNew (''file too large ('' @ fmt_d n @ '' bytes); max is '' @ fmt_d maxb @ '' bytes'')"

definition SetFile ::
  "lib \<Rightarrow> env \<Rightarrow> secret_uc \<Rightarrow> entry_metadata \<Rightarrow> string \<Rightarrow> bytes \<Rightarrow> string \<Rightarrow> (world, go_error, unit) cmd" where
  "SetFile L ev uc meta originalFilename data masterPass =
    (if su_maxFileBytes uc > 0 \<and> int (length data) > su_maxFileBytes uc
     then raise (file_too_large (int (length data)) (su_maxFileBytes uc))
     else insertEncryptedEntry L ev uc EntryTypeFile
       (meta\<lparr>md_OriginalFilename := sanitizeOriginalFilename originalFilename\<rparr>) data masterPass)"

definition SetCard ::
  "lib \<Rightarrow> env \<Rightarrow> secret_uc \<Rightarrow> entry_metadata \<Rightarrow> card_payload \<Rightarrow> string \<Rightarrow> (world, go_error, unit) cmd" where
  "SetCard L ev uc meta crd masterPass =
    insertEncryptedEntry L ev uc EntryTypeCard meta (json_Marshal_card L crd) masterPass"

section \<open>Existing entries\<close>

definition ListLocal :: "lib \<Rightarrow> env \<Rightarrow> (world, go_error, client_entry list) cmd" where
  "ListLocal L ev =
    bind_m (requireAutherUserID L (call_at 1 ev)) (\<lambda>uid.
    on_device (ListEntries L ev (Some uid)))"

definition not_found_err :: "go_error \<Rightarrow> go_error" where
  "not_found_err e = (if errors_is e Sql_ErrNoRows then Sentinel ErrEntryNotFound else e)"

text \<open>The common start of reading, deleting and unlocking: the user's entry, if it is not deleted.\<close>

definition live_entry :: "lib \<Rightarrow> env \<Rightarrow> uuid \<Rightarrow> int64 \<Rightarrow> (world, go_error, client_entry) cmd" where
  "live_entry L ev i uid =
    bind_m (map_err not_found_err (on_device (GetEntry L ev i (Some uid)))) (\<lambda>e.
      if ce_IsDeleted e then raise (Sentinel ErrEntryDeleted) else ret e)"

definition unlockEntry ::
  "lib \<Rightarrow> env \<Rightarrow> secret_uc \<Rightarrow> uuid \<Rightarrow> string \<Rightarrow> (world, go_error, client_entry \<times> int64 \<times> bytes \<times> bytes) cmd" where
  "unlockEntry L ev uc i masterPass =
    bind_m (requireAutherUserID L (call_at 1 ev)) (\<lambda>uid.
    bind_m (live_entry L ev i uid) (\<lambda>e.
    bind_m (materializeVaultCrypto L (call_at 2 ev) uc) (\<lambda>(salt, verifier).
    bind_m (of_result (deriveAndCheckMasterKey L salt verifier masterPass)) (\<lambda>masterKey.
    bind_m (map_err (\<lambda>x. Wrap (Some x) ''decrypt entry dek'')
      (of_result (DecryptAESGCM L (ce_EncryptedDek e) masterKey))) (\<lambda>dek.
    ret (e, uid, masterKey, dek))))))"

definition updateEntryReplaceContent ::
  "lib \<Rightarrow> env \<Rightarrow> secret_uc \<Rightarrow> uuid \<Rightarrow> string \<Rightarrow> entry_metadata \<Rightarrow> bytes \<Rightarrow> string \<Rightarrow> (world, go_error, unit) cmd" where
  "updateEntryReplaceContent L ev uc i wantType meta plaintext masterPass =
    bind_m (unlockEntry L ev uc i masterPass) (\<lambda>(e, uid, masterKey, dek).
      if ce_Type e \<noteq> wantType then raise (Sentinel ErrWrongEntryType)
      else
        bind_m (of_result (verifyPayloadAndMetaWithDEK L e dek)) (\<lambda>_.
        bind_m (of_result (sealWithNewDEK L ev e plaintext meta masterKey uid)) (\<lambda>e'.
        on_device (SaveEntry L ev e' True))))"

definition UpdatePassword ::
  "lib \<Rightarrow> env \<Rightarrow> secret_uc \<Rightarrow> uuid \<Rightarrow> entry_metadata \<Rightarrow> string \<Rightarrow> string \<Rightarrow> (world, go_error, unit) cmd" where
  "UpdatePassword L ev uc i meta password masterPass =
    updateEntryReplaceContent L ev uc i EntryTypePassword meta password masterPass"

definition UpdateText ::
  "lib \<Rightarrow> env \<Rightarrow> secret_uc \<Rightarrow> uuid \<Rightarrow> entry_metadata \<Rightarrow> string \<Rightarrow> string \<Rightarrow> (world, go_error, unit) cmd" where
  "UpdateText L ev uc i meta txt masterPass =
    updateEntryReplaceContent L ev uc i EntryTypeText meta txt masterPass"

definition UpdateCard ::
  "lib \<Rightarrow> env \<Rightarrow> secret_uc \<Rightarrow> uuid \<Rightarrow> entry_metadata \<Rightarrow> card_payload \<Rightarrow> string \<Rightarrow> (world, go_error, unit) cmd" where
  "UpdateCard L ev uc i meta crd masterPass =
    updateEntryReplaceContent L ev uc i EntryTypeCard meta (json_Marshal_card L crd) masterPass"

definition merge_file_meta :: "entry_metadata \<Rightarrow> entry_metadata \<Rightarrow> entry_metadata" where
  "merge_file_meta stored meta = stored\<lparr>md_Name := md_Name meta, md_Notes := md_Notes meta,
     md_ExtraTags := (if md_ExtraTags meta \<noteq> None then md_ExtraTags meta else md_ExtraTags stored)\<rparr>"

definition UpdateFile ::
  "lib \<Rightarrow> env \<Rightarrow> secret_uc \<Rightarrow> uuid \<Rightarrow> entry_metadata \<Rightarrow> string \<Rightarrow> bool \<Rightarrow> bytes \<Rightarrow> string \<Rightarrow> (world, go_error, unit) cmd" where
  "UpdateFile L ev uc i meta masterPass replacePayload newFile newOrigName =
    bind_m (unlockEntry L ev uc i masterPass) (\<lambda>(e, uid, masterKey, dek).
      if ce_Type e \<noteq> EntryTypeFile then raise (Sentinel ErrWrongEntryType)
      else
        bind_m (of_result (decryptMetaWithDEK L e dek)) (\<lambda>storedMeta.
        let storedMeta = merge_file_meta storedMeta meta
        in if \<not> replacePayload then
             bind_m (map_err (\<lambda>x. Wrap (Some x) ''decrypt payload'') (of_result (DecryptAESGCM L (ce_Payload e) dek))) (\<lambda>_.
             bind_m (of_result (encryptMetaOnly L ev e storedMeta dek uid)) (\<lambda>e'.
             on_device (SaveEntry L ev e' True)))
           else if su_maxFileBytes uc > 0 \<and> int (length newFile) > su_maxFileBytes uc
           then raise (file_too_large (int (length newFile)) (su_maxFileBytes uc))
           else
             bind_m (of_result (sealWithNewDEK L ev e newFile
               (storedMeta\<lparr>md_OriginalFilename := sanitizeOriginalFilename newOrigName\<rparr>) masterKey uid)) (\<lambda>e'.
             on_device (SaveEntry L ev e' True))))"

definition DeleteEntry :: "lib \<Rightarrow> env \<Rightarrow> secret_uc \<Rightarrow> uuid \<Rightarrow> string \<Rightarrow> (world, go_error, unit) cmd" where
  "DeleteEntry L ev uc i masterPass =
    bind_m (requireAutherUserID L (call_at 1 ev)) (\<lambda>uid.
    bind_m (live_entry L ev i uid) (\<lambda>e.
    bind_m (materializeVaultCrypto L (call_at 2 ev) uc) (\<lambda>(salt, verifier).
    bind_m (of_result (deriveAndCheckMasterKey L salt verifier masterPass)) (\<lambda>_.
    on_device (SaveEntry L ev (e\<lparr>ce_IsDeleted := True, ce_Version := ce_Version e + 1,
      ce_UpdatedAt := time_now ev NowDelete\<rparr>) True)))))"

definition open_entry :: "lib \<Rightarrow> client_entry \<Rightarrow> bytes \<Rightarrow> go_error + (bytes \<times> entry_metadata)" where
  "open_entry L entry masterKey =
    (case DecryptAESGCM L (ce_EncryptedDek entry) masterKey of
       Inl x \<Rightarrow> Inl (Wrap (Some x) ''decryption failed (wrong master pass?)'')
     | Inr dek \<Rightarrow>
         (case DecryptAESGCM L (ce_Payload entry) dek of
            Inl x \<Rightarrow> Inl (Wrap (Some x) ''decrypt payload'')
          | Inr payload \<Rightarrow>
              (case decryptMetaWithDEK L entry dek of
                 Inl x \<Rightarrow> Inl x
               | Inr meta \<Rightarrow> Inr (payload, meta))))"

definition decryptPayloadAndMeta ::
  "lib \<Rightarrow> env \<Rightarrow> secret_uc \<Rightarrow> client_entry \<Rightarrow> string \<Rightarrow> (world, go_error, bytes \<times> entry_metadata) cmd" where
  "decryptPayloadAndMeta L ev uc entry masterPass =
    bind_m (materializeVaultCrypto L ev uc) (\<lambda>(salt, storedVerifier).
    bind_m (of_result (deriveAndCheckMasterKey L salt storedVerifier masterPass)) (\<lambda>masterKey.
    of_result (open_entry L entry masterKey)))"

definition shown_meta :: "string \<Rightarrow> entry_metadata \<Rightarrow> entry_metadata" where
  "shown_meta typ meta =
    (if typ = EntryTypeFile \<and> md_OriginalFilename meta = [] then meta\<lparr>md_OriginalFilename := ''file''\<rparr> else meta)"

definition GetDecryptedEntry ::
  "lib \<Rightarrow> env \<Rightarrow> secret_uc \<Rightarrow> uuid \<Rightarrow> string \<Rightarrow> (world, go_error, decrypted_entry) cmd" where
  "GetDecryptedEntry L ev uc i masterPass =
    bind_m (requireAutherUserID L (call_at 1 ev)) (\<lambda>uid.
    bind_m (live_entry L ev i uid) (\<lambda>entry.
    bind_m (decryptPayloadAndMeta L (call_at 2 ev) uc entry masterPass) (\<lambda>(payload, meta).
    ret \<lparr>de_Payload = payload, de_Meta = shown_meta (ce_Type entry) meta, de_Type = ce_Type entry\<rparr>)))"

end
