(* ===== verification/Secret_Facts.thy ===== *)
theory Secret_Facts
  imports Secret_Usecase
begin

text \<open>
  How the operations of the vault use case behave: which rows of the device they can touch
  whatever fails, and what they compute when no call fails. The properties of the use case are
  in theory \<open>Secret_Properties\<close>.
\<close>

section \<open>Sealed entries open\<close>

text \<open>Metadata that JSON gives back as it was (see \<open>json_ok\<close>).\<close>

definition clean_meta :: "(string \<Rightarrow> bool) \<Rightarrow> entry_metadata \<Rightarrow> bool" where
  "clean_meta clean m \<longleftrightarrow> clean (md_Name m) \<and> clean (md_Notes m) \<and> clean (md_OriginalFilename m) \<and>
    md_ExtraTags m \<noteq> Some [] \<and>
    (\<forall>kvs. md_ExtraTags m = Some kvs \<longrightarrow> list_all (\<lambda>(k, v). clean k \<and> clean v) kvs)"

lemma json_meta_roundtrip:
  "json_ok L clean \<Longrightarrow> clean_meta clean m \<Longrightarrow> json_Unmarshal_meta L (json_Marshal_meta L m) = Some m"
  by (simp add: json_ok_def clean_meta_def)

text \<open>What sealing leaves of an entry: its uuid, type and tombstone, and the next version.\<close>

definition resealed :: "env \<Rightarrow> client_entry \<Rightarrow> reading \<Rightarrow> int64 \<Rightarrow> client_entry \<Rightarrow> bool" where
  "resealed ev e r uid e' \<longleftrightarrow> ce_UUID e' = ce_UUID e \<and> ce_Type e' = ce_Type e \<and> ce_IsDeleted e' = ce_IsDeleted e \<and>
    ce_Version e' = ce_Version e + 1 \<and> ce_UpdatedAt e' = time_now ev r \<and> ce_UserID e' = Some uid"

lemma seal_opens:
  assumes "crypto_ok L" and "json_ok L clean" and "clean_meta clean meta" and "length masterKey = 32"
  shows "\<exists>e' dek. sealWithNewDEK L ev e plaintext meta masterKey uid = Inr e' \<and> resealed ev e NowSeal uid e' \<and>
    DecryptAESGCM L (ce_EncryptedDek e') masterKey = Inr dek \<and> length dek = 32 \<and>
    DecryptAESGCM L (ce_Payload e') dek = Inr plaintext \<and> decryptMetaWithDEK L e' dek = Inr meta \<and>
    open_entry L e' masterKey = Inr (plaintext, meta)"
proof -
  let ?dek = "rand_bytes ev DrawDEK 32"
  have enc: "\<exists>c. EncryptAESGCM L ev d x k = Inr c \<and> DecryptAESGCM L c k = Inr x" if "length k = 32" for d x k
    by (intro exI conjI, rule EncryptAESGCM_32 [OF that])
      (simp add: DecryptAESGCM_blob assms(1) aes_NewCipher_32 that)
  obtain p where p: "EncryptAESGCM L ev DrawPayloadNonce plaintext ?dek = Inr p" "DecryptAESGCM L p ?dek = Inr plaintext"
    using enc [of ?dek] by auto
  obtain m where m: "EncryptAESGCM L ev DrawMetaNonce (json_Marshal_meta L meta) ?dek = Inr m"
      "DecryptAESGCM L m ?dek = Inr (json_Marshal_meta L meta)"
    using enc [of ?dek] by auto
  obtain k where k: "EncryptAESGCM L ev DrawDekNonce ?dek masterKey = Inr k" "DecryptAESGCM L k masterKey = Inr ?dek"
    using enc [OF assms(4)] by auto
  show ?thesis
    by (simp add: sealWithNewDEK_def Let_def p m k resealed_def decryptMetaWithDEK_def open_entry_def
        json_meta_roundtrip [OF assms(2,3)])
qed

lemma sealWithNewDEK_InrD:
  "sealWithNewDEK L ev e plaintext meta masterKey uid = Inr e' \<Longrightarrow> resealed ev e NowSeal uid e'"
  by (auto simp: sealWithNewDEK_def Let_def resealed_def split: sum.splits)

lemma encryptMetaOnly_InrD:
  "encryptMetaOnly L ev e meta dek uid = Inr e' \<Longrightarrow>
    resealed ev e NowMeta uid e' \<and> ce_Payload e' = ce_Payload e \<and> ce_EncryptedDek e' = ce_EncryptedDek e"
  by (auto simp: encryptMetaOnly_def resealed_def split: sum.splits)

text \<open>An entry that opens has a wrapped key and a payload: no blob is empty.\<close>

lemma DecryptAESGCM_empty: "DecryptAESGCM L [] key \<noteq> Inr data"
  by (simp add: DecryptAESGCM_def gcm_NonceSize_def split: sum.split)

lemma open_entry_sealed: "open_entry L e mk = Inr x \<Longrightarrow> sealed e"
  by (auto simp: open_entry_def sealed_def DecryptAESGCM_empty split: sum.splits)

section \<open>File names\<close>

lemma sanitize_safe:
  "sanitizeOriginalFilename n \<noteq> []" "slash \<notin> set (sanitizeOriginalFilename n)" "sanitizeOriginalFilename n \<noteq> ''.''"
  using filepath_base_no_slash [of n] by (auto simp: sanitizeOriginalFilename_def Let_def slash_def)

text \<open>Sanitising is idempotent: the stored name is shown as it is.\<close>

lemma sanitize_idem: "sanitizeOriginalFilename (sanitizeOriginalFilename n) = sanitizeOriginalFilename n"
proof -
  have "filepath_base (sanitizeOriginalFilename n) = sanitizeOriginalFilename n"
    by (rule filepath_base_id) (rule sanitize_safe)+
  with sanitize_safe [of n] show ?thesis
    by (subst sanitizeOriginalFilename_def) (auto simp: Let_def)
qed

section \<open>What an operation can touch, whatever fails\<close>

abbreviation entries_of :: "world \<Rightarrow> local_row list" where
  "entries_of w \<equiv> dv_entries (wd_device w)"

lemma keeps_on_device_all: "keeps id c \<Longrightarrow> keeps f (on_device c)"
proof -
  assume "keeps id c"
  then have "snd (c d) = d" for d by (simp add: keeps_def)
  moreover have "w\<lparr>wd_device := wd_device w\<rparr> = w" for w :: world by (cases w) simp
  ultimately show ?thesis by (simp add: keeps_def on_device_apply)
qed

lemma keeps_session_reads [cmd_frame]:
  "keeps f (on_device (GetSession L ev))" "keeps f (requireAutherUserID L ev)" "keeps f (activeAutherUserID L ev)"
proof -
  show g: "keeps f (on_device (GetSession L ev))" for ev by (rule keeps_on_device_all) (rule keeps_GetSession)
  show "keeps f (requireAutherUserID L ev)" "keeps f (activeAutherUserID L ev)"
    unfolding requireAutherUserID_def activeAutherUserID_def
    by (intro keeps_bind keeps_attempt g keeps_case_option keeps_raise keeps_ret)+
qed

lemma keeps_GetEntry_world [cmd_frame]: "keeps f (on_device (GetEntry L ev i u))"
  by (rule keeps_on_device_all) (rule keeps_GetEntry)

lemma keeps_ListEntries_world [cmd_frame]: "keeps f (on_device (ListEntries L ev u))"
  by (rule keeps_on_device_all) (simp add: ListEntries_def keeps_bind keeps_read_rows)

lemma keeps_live_entry [cmd_frame]: "keeps f (live_entry L ev i u)"
  unfolding live_entry_def by (intro cmd_frame)

lemma keeps_entries_crypto [cmd_frame]:
  "keeps dv_entries (ReplaceLocalVaultCrypto ev u s v)" "keeps dv_entries (SetLocalMasterVerifier ev u v)"
  "keeps dv_entries (EnsureLocalVaultCrypto ev u)"
proof -
  have k: "keeps dv_entries (\<lambda>d. (Inr x, d\<lparr>dv_crypto := f d\<rparr>))" for x f by (simp add: keeps_def)
  show "keeps dv_entries (ReplaceLocalVaultCrypto ev u s v)" "keeps dv_entries (SetLocalMasterVerifier ev u v)"
    "keeps dv_entries (EnsureLocalVaultCrypto ev u)"
    unfolding ReplaceLocalVaultCrypto_def SetLocalMasterVerifier_def EnsureLocalVaultCrypto_def Let_def
    by (intro cmd_frame k)+
qed

context remote_vault
begin

lemma pull_keeps: "su_remote uc = Some R \<Longrightarrow> keeps entries_of (pullRemoteVaultCrypto ev uc u)"
  unfolding pullRemoteVaultCrypto_def by (simp, intro cmd_frame get_keeps)

lemma publish_keeps: "su_remote uc = Some R \<Longrightarrow> keeps entries_of (publishVaultCrypto L ev uc s k)"
  unfolding publishVaultCrypto_def by (simp, intro cmd_frame put_keeps)

end

text \<open>The use case as the program builds it, or without a remote side.\<close>

definition wired :: "lib \<Rightarrow> services \<Rightarrow> secret_uc \<Rightarrow> bool" where
  "wired L S uc \<longleftrightarrow> su_remote uc = None \<or> su_remote uc = Some (wired_vault L S)"

lemma keeps_pull [cmd_frame]: "wired L S uc \<Longrightarrow> keeps entries_of (pullRemoteVaultCrypto ev uc u)"
  unfolding wired_def by (erule disjE, simp add: pullRemoteVaultCrypto_def, rule skeeper_vault.pull_keeps)

lemma keeps_publish [cmd_frame]: "wired L S uc \<Longrightarrow> keeps entries_of (publishVaultCrypto L ev uc s k)"
  unfolding wired_def by (erule disjE, simp add: publishVaultCrypto_def, rule skeeper_vault.publish_keeps)

lemma keeps_materialize [cmd_frame]: "wired L S uc \<Longrightarrow> keeps entries_of (materializeVaultCrypto L ev uc)"
  unfolding materializeVaultCrypto_def by (intro cmd_frame)

lemma keeps_finalize [cmd_frame]: "wired L S uc \<Longrightarrow> keeps entries_of (finalizeVaultVerifier L ev uc u s v k)"
  unfolding finalizeVaultVerifier_def by (intro cmd_frame)

lemma keeps_unlock [cmd_frame]: "wired L S uc \<Longrightarrow> keeps entries_of (unlockEntry L ev uc i mp)"
  unfolding unlockEntry_def by (intro cmd_frame)

text \<open>One step of a command that has not touched the entries yet.\<close>

lemma step_cases:
  assumes "keeps entries_of c" and "bind_m c g w = (r, w')"
  obtains (err) "entries_of w' = entries_of w"
    | (ok) x w1 where "c w = (Inr x, w1)" and "entries_of w1 = entries_of w" and "g x w1 = (r, w')"
  using assms(2)
proof (cases rule: bind_m_cases)
  case (err e)
  with keepsD [OF assms(1) err(1)] show thesis by (intro that(1))
next
  case (ok x w1)
  with keepsD [OF assms(1) ok(1)] show thesis by (intro that(2))
qed

lemma of_result_step:
  assumes "bind_m (of_result res) g w = (r, w')"
  obtains (err) "entries_of w' = entries_of w" | (ok) x where "res = Inr x" and "g x w = (r, w')"
  using assms by (cases res) (auto simp: bind_m_def of_result_def)

lemma save_step:
  assumes "on_device (SaveEntry L ev e b) w = (r, w')"
  obtains (unsaved) "entries_of w' = entries_of w"
    | (saved) u where "ce_UserID e = Some u" and "entries_of w' = put_row le_UUID (entry_to_row L e b u) (entries_of w)"
proof -
  from assms obtain r1 d1 where run: "SaveEntry L ev e b (wd_device w) = (r1, d1)" and w': "w' = w\<lparr>wd_device := d1\<rparr>"
    by (cases "SaveEntry L ev e b (wd_device w)") (simp add: on_device_apply)
  obtain x d where saved: "saveEntry L e b (wd_device w) = (x, d)" by (cases "saveEntry L e b (wd_device w)")
  with run have d1: "d1 = wd_device w \<or> d1 = d"
    by (auto simp: SaveEntry_def ack_call_def bind_m_def try_call_def ret_def raise_def split: option.splits sum.splits)
  from saved show thesis
    by (cases rule: saveEntry_cases) (use d1 w' that in auto)
qed

section \<open>The row an operation is about\<close>

text \<open>\<open>e\<close> is the scan of the row of uuid \<open>i\<close>, which belongs to \<open>uid\<close> and is not a tombstone.\<close>

definition live_row :: "lib \<Rightarrow> uuid \<Rightarrow> int64 \<Rightarrow> world \<Rightarrow> client_entry \<Rightarrow> bool" where
  "live_row L i uid w e \<longleftrightarrow> (\<exists>row t b. look_local (entries_of w) (uuid_String L i) = Some row \<and>
    le_UserID row = uid \<and> \<not> le_IsDeleted row \<and> e = row_entry row i t b)"

lemma whole_state: "keeps id c \<Longrightarrow> c w = (r, w') \<Longrightarrow> w' = w"
  using keepsD [of id c w r w'] by simp

lemma live_entry_InrD:
  assumes "uuid_ok L" and "local_ok (wd_device w)" and "live_entry L ev i uid w = (Inr e, w1)"
  shows "live_row L i uid w e" and "w1 = w"
proof -
  show "w1 = w" by (rule whole_state [OF keeps_live_entry assms(3)])
  from assms(3) obtain w2 where get: "on_device (GetEntry L ev i (Some uid)) w = (Inr e, w2)" and live: "\<not> ce_IsDeleted e"
    unfolding live_entry_def by (auto elim!: bind_m_InrE dest!: map_err_InrD simp: raise_def ret_def split: if_splits)
  from get obtain r where row: "select_entry L i (Some uid) (wd_device w) = Some r" and scan: "scan_entry L r = Inr e"
    by (auto simp: on_device_apply GetEntry_def gets_def of_result_def raise_def
        elim!: bind_m_InrE dest!: try_call_state split: option.splits prod.splits)
      (auto simp: bind_m_def try_call_def ret_def raise_def of_result_def split: option.splits sum.splits)
  from row have look: "look_local (entries_of w) (uuid_String L i) = Some r" "le_UserID r = uid"
    unfolding select_entry_eq [OF assms(2)] by (auto split: option.splits if_splits)
  from find_row_key [OF look(1)] have "uuid_Parse L (le_UUID r) = Some i"
    by (simp add: uuid_Parse_String [OF assms(1)])
  with scan obtain t where "e = row_entry r i t (le_IsDirty r)"
    by (auto simp: scan_entry_def split: sum.splits)
  with look live show "live_row L i uid w e"
    by (auto simp: live_row_def row_entry_def)
qed

lemma unlock_InrD:
  assumes "uuid_ok L" and "local_ok (wd_device w)" and "unlockEntry L ev uc i mp w = (Inr (e, uid, mk, dek), w1)"
  shows "live_row L i uid w e"
proof -
  from assms(3) obtain w0 w2 where uid: "requireAutherUserID L (call_at 1 ev) w = (Inr uid, w0)"
    and live: "live_entry L ev i uid w0 = (Inr e, w2)"
    unfolding unlockEntry_def by (auto elim!: bind_m_InrE simp: ret_def split: prod.splits)
  have "w0 = w" by (rule whole_state [OF keeps_session_reads(2) uid])
  with live_entry_InrD(1) [OF assms(1) _ live] assms(2) show ?thesis by simp
qed

text \<open>
  The outcomes of an operation on the entry \<open>i\<close>: no change of the entries, or the row of \<open>i\<close>
  replaced by its next version, dirty, with the same uuid, owner and type.
\<close>

definition next_version :: "lib \<Rightarrow> uuid \<Rightarrow> world \<Rightarrow> world \<Rightarrow> client_entry \<Rightarrow> bool" where
  "next_version L i w w' e' \<longleftrightarrow> (\<exists>row. look_local (entries_of w) (uuid_String L i) = Some row \<and> \<not> le_IsDeleted row \<and>
    ce_UUID e' = i \<and> ce_Type e' = le_Type row \<and> ce_Version e' = le_Version row + 1 \<and>
    entries_of w' = put_row le_UUID (entry_to_row L e' True (le_UserID row)) (entries_of w))"

lemma resealed_next:
  assumes "live_row L i uid w e" and "resealed ev e r uid e'" and "entries_of w1 = entries_of w"
    and "on_device (SaveEntry L ev' e' True) w1 = (x, w')"
  shows "entries_of w' = entries_of w \<or> next_version L i w w' e'"
  using assms(4)
proof (cases rule: save_step)
  case unsaved
  then show ?thesis using assms(3) by simp
next
  case (saved u)
  then show ?thesis
    using assms(1-3) by (auto simp: next_version_def live_row_def resealed_def row_entry_def)
qed

lemma update_outcome:
  assumes "uuid_ok L" and "local_ok (wd_device w)" and "wired L S uc"
    and "updateEntryReplaceContent L ev uc i typ meta plaintext mp w = (r, w')"
  shows "entries_of w' = entries_of w \<or> (\<exists>e'. next_version L i w w' e' \<and> ce_Type e' = typ \<and> ce_IsDeleted e' = False)"
  using keeps_unlock [OF assms(3)] assms(4) [unfolded updateEntryReplaceContent_def]
proof (cases rule: step_cases)
  case (ok x w1)
  obtain e uid mk dek where x: "x = (e, uid, mk, dek)" by (cases x) auto
  note live = unlock_InrD [OF assms(1,2) ok(1) [unfolded x]]
  show ?thesis
  proof (cases "ce_Type e = typ")
    case False
    with ok show ?thesis by (simp add: x raise_def)
  next
    case True
    with ok(3) have "bind_m (of_result (verifyPayloadAndMetaWithDEK L e dek)) (\<lambda>_.
        bind_m (of_result (sealWithNewDEK L ev e plaintext meta mk uid)) (\<lambda>e'.
        on_device (SaveEntry L ev e' True))) w1 = (r, w')" by (simp add: x)
    then show ?thesis
    proof (cases rule: of_result_step)
      case (ok y)
      from ok(2) show ?thesis
      proof (cases rule: of_result_step)
        case (ok e')
        note re = sealWithNewDEK_InrD [OF ok(1)]
        from resealed_next [OF live re \<open>entries_of w1 = entries_of w\<close> ok(2)] re True live show ?thesis
          by (auto simp: resealed_def live_row_def row_entry_def)
      qed (use \<open>entries_of w1 = entries_of w\<close> in simp)
    qed (use ok(2) in simp)
  qed
qed simp

lemma update_file_outcome:
  assumes "uuid_ok L" and "local_ok (wd_device w)" and "wired L S uc"
    and "UpdateFile L ev uc i meta mp replace newFile newName w = (r, w')"
  shows "entries_of w' = entries_of w \<or> (\<exists>e'. next_version L i w w' e' \<and> ce_Type e' = EntryTypeFile \<and> ce_IsDeleted e' = False)"
  using keeps_unlock [OF assms(3)] assms(4) [unfolded UpdateFile_def]
proof (cases rule: step_cases)
  case (ok x w1)
  obtain e uid mk dek where x: "x = (e, uid, mk, dek)" by (cases x) auto
  note live = unlock_InrD [OF assms(1,2) ok(1) [unfolded x]]
  have fin: "entries_of w' = entries_of w \<or> (\<exists>e'. next_version L i w w' e' \<and> ce_Type e' = EntryTypeFile \<and> ce_IsDeleted e' = False)"
    if "resealed ev e rd uid e'" "ce_Type e = EntryTypeFile" "on_device (SaveEntry L ev e' True) w1 = (r, w')" for e' rd
    using resealed_next [OF live that(1) ok(2) that(3)] that(1,2) live
    by (auto simp: resealed_def live_row_def row_entry_def)
  show ?thesis
  proof (cases "ce_Type e = EntryTypeFile")
    case False
    with ok show ?thesis by (simp add: x raise_def)
  next
    case True
    from ok(3) True show ?thesis
      unfolding x prod.case
      using ok(2) fin [OF sealWithNewDEK_InrD] fin [OF conjunct1 [OF encryptMetaOnly_InrD]]
      by (auto simp: Let_def raise_def map_err_def of_result_def split: if_splits sum.splits prod.splits elim!: bind_m_cases)
  qed
qed simp

lemma delete_outcome:
  assumes "uuid_ok L" and "local_ok (wd_device w)" and "wired L S uc"
    and "DeleteEntry L ev uc i mp w = (r, w')"
  shows "entries_of w' = entries_of w \<or> (\<exists>e'. next_version L i w w' e' \<and> ce_IsDeleted e')"
  using keeps_session_reads(2) assms(4) [unfolded DeleteEntry_def]
proof (cases rule: step_cases)
  case (ok uid w0)
  have w0: "w0 = w" by (rule whole_state [OF keeps_session_reads(2) ok(1)])
  from keeps_live_entry ok(3) show ?thesis
  proof (cases rule: step_cases)
    case (ok e w1)
    note live = live_entry_InrD [OF assms(1) _ ok(1), unfolded w0, OF assms(2)]
    from keeps_materialize [OF assms(3)] ok(3) show ?thesis
    proof (cases rule: step_cases)
      case (ok sv w2)
      have same: "entries_of w2 = entries_of w" using ok(2) live(2) by simp
      obtain s v where sv: "sv = (s, v)" by (cases sv)
      from ok(3) [unfolded sv prod.case] show ?thesis
      proof (cases rule: of_result_step)
        case (ok k)
        from ok(2) show ?thesis
        proof (cases rule: save_step)
          case (saved u)
          with live(1) same show ?thesis
            by (auto simp: next_version_def live_row_def row_entry_def intro!: exI)
        qed (use same in simp)
      qed (use same in simp)
    qed (use live(2) in simp)
  qed (use w0 in simp)
qed simp

lemma insert_outcome:
  assumes "wired L S uc" and "insertEncryptedEntry L ev uc typ meta plaintext mp w = (r, w')"
  shows "entries_of w' = entries_of w \<or> (\<exists>e' u. ce_UUID e' = fresh_uuid ev IdEntry \<and> ce_Type e' = typ \<and>
    ce_Version e' = 1 \<and> ce_IsDeleted e' = False \<and>
    entries_of w' = put_row le_UUID (entry_to_row L e' True u) (entries_of w))"
  using keeps_session_reads(2) assms(2) [unfolded insertEncryptedEntry_def]
proof (cases rule: step_cases)
  case (ok uid w0)
  have w0: "w0 = w" by (rule whole_state [OF keeps_session_reads(2) ok(1)])
  from keeps_materialize [OF assms(1)] ok(3) show ?thesis
  proof (cases rule: step_cases)
    case (ok sv w1)
    obtain s v where sv: "sv = (s, v)" by (cases sv)
    note same = ok(2) [unfolded w0]
    from ok(3) [unfolded sv prod.case] show ?thesis
    proof (cases rule: of_result_step)
      case (ok mk)
      from ok(2) show ?thesis
      proof (cases rule: of_result_step)
        case (ok e')
        note re = sealWithNewDEK_InrD [OF ok(1)]
        have fin: "entries_of w' = entries_of w \<or> ?thesis" if "on_device (SaveEntry L ev e' True) w1 = (x, w2)"
          "entries_of w' = entries_of w2" for x w2
          using that(1)
        proof (cases rule: save_step)
          case (saved u)
          with re same that(2) show ?thesis
            by (intro disjI2 disjI2 exI [of _ e'] exI [of _ u]) (simp add: resealed_def new_entry_def)
        qed (use same that(2) in simp)
        from ok(2) show ?thesis
        proof (cases rule: bind_m_cases)
          case (err x)
          from fin [OF err(1) refl] show ?thesis by blast
        next
          case (ok x w2)
          from fin [OF ok(1) keepsD [OF keeps_finalize [OF assms(1)] ok(2)]] show ?thesis by blast
        qed
      qed (use same in simp)
    qed (use same in simp)
  qed (use w0 in simp)
qed simp

lemma keeps_read_ops:
  assumes "wired L S uc"
  shows "keeps entries_of (GetDecryptedEntry L ev uc i mp)" and "keeps entries_of (ListLocal L ev)"
  using assms unfolding GetDecryptedEntry_def decryptPayloadAndMeta_def ListLocal_def
  by (intro cmd_frame; assumption)+

section \<open>What the operations compute when no call fails\<close>

definition signed_as :: "lib \<Rightarrow> int64 \<Rightarrow> world \<Rightarrow> bool" where
  "signed_as L u w \<longleftrightarrow> (\<exists>s. session_of L (wd_device w) = Inr (Some s) \<and> sn_UserID s = Some u)"

lemma requireAutherUserID_run:
  "no_faults ev \<Longrightarrow> signed_as L u w \<Longrightarrow> requireAutherUserID L ev w = (Inr u, w)"
  by (auto simp: signed_as_def requireAutherUserID_def attempt_def on_device_apply GetSession_reads bind_m_def
      session_user_def ret_def)

lemma activeAutherUserID_run:
  "no_faults ev \<Longrightarrow> signed_as L u w \<Longrightarrow> activeAutherUserID L ev w = (Inr (Some u), w)"
  by (auto simp: signed_as_def activeAutherUserID_def attempt_def on_device_apply GetSession_reads bind_m_def
      session_user_def ret_def)

text \<open>
  Parameters of the right sizes: a salt of 16 bytes, and on the device a verifier that is empty
  until the first entry was made, or 32 bytes.
\<close>

definition params_ok :: "world \<Rightarrow> bool" where
  "params_ok w \<longleftrightarrow>
    (\<forall>u s v. dv_crypto (wd_device w) u = Some (s, v) \<longrightarrow> length s = 16 \<and> (v = [] \<or> length v = 32)) \<and>
    (\<forall>u s v. db_vault (wd_skeeper w) u = Some (s, v) \<longrightarrow> length s = 16 \<and> length v = 32)"

text \<open>The commands of \<open>u\<close> can run: without a remote side, or with one that is reachable.\<close>

definition ready :: "lib \<Rightarrow> env \<Rightarrow> services \<Rightarrow> secret_uc \<Rightarrow> int64 \<Rightarrow> world \<Rightarrow> bool" where
  "ready L ev S uc u w \<longleftrightarrow> no_faults ev \<and> signed_as L u w \<and> params_ok w \<and>
    (su_remote uc = None \<or> su_remote uc = Some (wired_vault L S) \<and> online L ev S u w)"

lemma ready_call_at [simp]: "ready L (call_at n ev) S uc u w = ready L ev S uc u w"
  by (simp add: ready_def)

lemma online_signed: "online L ev S u w \<Longrightarrow> signed_as L u w"
  by (auto simp: online_def signed_as_def)

text \<open>What the remote side publishes, and the parameters a command works with.\<close>

definition remote_params :: "secret_uc \<Rightarrow> int64 \<Rightarrow> world \<Rightarrow> (bytes \<times> bytes) option" where
  "remote_params uc u w = (if su_remote uc = None then None else db_vault (wd_skeeper w) u)"

definition params :: "env \<Rightarrow> secret_uc \<Rightarrow> int64 \<Rightarrow> world \<Rightarrow> bytes \<times> bytes" where
  "params ev uc u w = (case remote_params uc u w of
      Some sv \<Rightarrow> sv
    | None \<Rightarrow> (case dv_crypto (wd_device w) u of Some sv \<Rightarrow> sv | None \<Rightarrow> (rand_bytes ev DrawSalt 16, [])))"

definition set_params :: "int64 \<Rightarrow> bytes \<times> bytes \<Rightarrow> world \<Rightarrow> world" where
  "set_params u sv w = w\<lparr>wd_device := (wd_device w)\<lparr>dv_crypto := (dv_crypto (wd_device w))(u \<mapsto> sv)\<rparr>\<rparr>"

lemma set_params_sel [simp]:
  "entries_of (set_params u sv w) = entries_of w" "wd_skeeper (set_params u sv w) = wd_skeeper w"
  "wd_auther (set_params u sv w) = wd_auther w" "dv_session (wd_device (set_params u sv w)) = dv_session (wd_device w)"
  "dv_sessionKey (wd_device (set_params u sv w)) = dv_sessionKey (wd_device w)"
  "dv_crypto (wd_device (set_params u sv w)) = (dv_crypto (wd_device w))(u \<mapsto> sv)"
  by (simp_all add: set_params_def)

lemma set_params_same: "dv_crypto (wd_device w) u = Some sv \<Longrightarrow> set_params u sv w = w"
  by (cases w, cases "wd_device w") (auto simp: set_params_def fun_upd_idem)

lemma pull_run:
  assumes "ready L ev S uc u w"
  shows "pullRemoteVaultCrypto ev uc u w =
    (Inr (), case remote_params uc u w of None \<Rightarrow> w | Some sv \<Rightarrow> set_params u sv w)"
proof (cases "su_remote uc")
  case None
  then show ?thesis by (simp add: pullRemoteVaultCrypto_def remote_params_def ret_def)
next
  case (Some R)
  with assms have R: "R = wired_vault L S" and on: "online L ev S u w" and nf: "no_faults ev" and p: "params_ok w"
    by (auto simp: ready_def)
  have "s \<noteq> [] \<and> v \<noteq> []" if "db_vault (wd_skeeper w) u = Some (s, v)" for s v
    using p that by (force simp: params_ok_def)
  then show ?thesis
    by (auto simp: pullRemoteVaultCrypto_def Some R wired_vault_def attempt_def bind_m_def ret_def
        Client_GetVaultCrypto_run [OF nf on] remote_params_def on_device_apply ReplaceLocalVaultCrypto_def nf
        set_params_def split: option.split)
qed

lemma materialize_run:
  assumes "ready L ev S uc u w"
  shows "materializeVaultCrypto L ev uc w = (Inr (params ev uc u w), set_params u (params ev uc u w) w)"
proof -
  have nf: "no_faults ev" "no_faults (call_at n ev)" for n using assms by (simp_all add: ready_def)
  have uid: "requireAutherUserID L (call_at 1 ev) w = (Inr u, w)"
    using assms by (intro requireAutherUserID_run) (simp_all add: ready_def)
  have pull: "pullRemoteVaultCrypto (call_at 2 ev) uc u w =
      (Inr (), case remote_params uc u w of None \<Rightarrow> w | Some sv \<Rightarrow> set_params u sv w)"
    by (rule pull_run [of L _ S]) (simp add: assms)
  show ?thesis
    unfolding materializeVaultCrypto_def bind_m_def uid prod.case sum.case pull
    by (auto simp: params_def on_device_apply EnsureLocalVaultCrypto_def nf gets_def bind_m_def ret_def
        set_params_same [unfolded set_params_def] kdfSaltSize_def Let_def set_params_def split: option.split)
qed

lemma params_sizes:
  assumes "ready L ev S uc u w"
  shows "length (fst (params ev' uc u w)) = 16"
    and "snd (params ev' uc u w) = [] \<or> length (snd (params ev' uc u w)) = 32"
    and "remote_params uc u w = Some sv \<Longrightarrow> snd sv \<noteq> []"
proof -
  from assms have server: "\<And>s v. db_vault (wd_skeeper w) u = Some (s, v) \<Longrightarrow> length s = 16 \<and> length v = 32"
    and device: "\<And>s v. dv_crypto (wd_device w) u = Some (s, v) \<Longrightarrow> length s = 16 \<and> (v = [] \<or> length v = 32)"
    by (auto simp: ready_def params_ok_def)
  show "length (fst (params ev' uc u w)) = 16"
    and "snd (params ev' uc u w) = [] \<or> length (snd (params ev' uc u w)) = 32"
    by (auto simp: params_def remote_params_def server device split: option.split)
  show "remote_params uc u w = Some sv \<Longrightarrow> snd sv \<noteq> []"
    using server by (cases sv) (auto simp: remote_params_def split: if_splits)
qed

text \<open>The state changes of a successful command.\<close>

definition put_entry :: "lib \<Rightarrow> client_entry \<Rightarrow> int64 \<Rightarrow> world \<Rightarrow> world" where
  "put_entry L e u w = w\<lparr>wd_device := (wd_device w)\<lparr>dv_entries :=
     put_row le_UUID (entry_to_row L e True u) (entries_of w)\<rparr>\<rparr>"

definition publish :: "secret_uc \<Rightarrow> int64 \<Rightarrow> bytes \<times> bytes \<Rightarrow> world \<Rightarrow> world" where
  "publish uc u sv w = (if su_remote uc = None then w
     else w\<lparr>wd_skeeper := (wd_skeeper w)\<lparr>db_vault := (db_vault (wd_skeeper w))(u \<mapsto> sv)\<rparr>\<rparr>)"

lemma put_entry_sel [simp]:
  "entries_of (put_entry L e u w) = put_row le_UUID (entry_to_row L e True u) (entries_of w)"
  "wd_skeeper (put_entry L e u w) = wd_skeeper w" "wd_auther (put_entry L e u w) = wd_auther w"
  "dv_session (wd_device (put_entry L e u w)) = dv_session (wd_device w)"
  "dv_sessionKey (wd_device (put_entry L e u w)) = dv_sessionKey (wd_device w)"
  "dv_crypto (wd_device (put_entry L e u w)) = dv_crypto (wd_device w)"
  by (simp_all add: put_entry_def)

lemma publish_sel [simp]:
  "wd_device (publish uc u sv w) = wd_device w" "wd_auther (publish uc u sv w) = wd_auther w"
  "db_entries (wd_skeeper (publish uc u sv w)) = db_entries (wd_skeeper w)"
  "db_vault (wd_skeeper (publish uc u sv w)) = (if su_remote uc = None then db_vault (wd_skeeper w) else (db_vault (wd_skeeper w))(u \<mapsto> sv))"
  by (simp_all add: publish_def)

lemma remote_params_after [simp]:
  "remote_params uc u (set_params u' sv w) = remote_params uc u w"
  "remote_params uc u (put_entry L e u' w) = remote_params uc u w"
  "remote_params uc u (publish uc u sv w) = (if su_remote uc = None then None else Some sv)"
  by (simp_all add: remote_params_def)

lemma ready_cong:
  assumes "ready L ev S uc u w" and "dv_session (wd_device w') = dv_session (wd_device w)"
    and "dv_sessionKey (wd_device w') = dv_sessionKey (wd_device w)" and "params_ok w'"
  shows "ready L ev S uc u w'"
  using assms session_of_cong [OF assms(2,3), of L] online_cong [OF assms(2,3)]
  by (auto simp: ready_def signed_as_def)

lemma finalize_run:
  assumes "ready L ev S uc u w" and "crypto_ok L" and "dv_crypto (wd_device w) u = Some (s, v)"
    and "v = [] \<or> v = MasterKeyVerifier L mk" and "length s = 16"
    and "remote_params uc u w = None \<or> remote_params uc u w = Some (s, MasterKeyVerifier L mk)"
  shows "finalizeVaultVerifier L ev uc u s v mk w =
    (Inr (), publish uc u (s, MasterKeyVerifier L mk) (set_params u (s, MasterKeyVerifier L mk) w))"
proof -
  let ?V = "MasterKeyVerifier L mk"
  let ?w = "set_params u (s, ?V) w"
  have len: "length ?V = 32" "?V \<noteq> []" using assms(2) by simp_all
  have nf: "no_faults ev" using assms(1) by (simp add: ready_def)
  have upd: "(\<lambda>x. if x = u then map_option (\<lambda>(salt, _). (salt, ?V)) (dv_crypto (wd_device w) x) else dv_crypto (wd_device w) x)
      = (dv_crypto (wd_device w))(u \<mapsto> (s, ?V))"
    using assms(3) by auto
  have first: "(if v = [] then map_err (\<lambda>e. Wrap (Some e) ''save master verifier'')
        (on_device (SetLocalMasterVerifier ev u ?V)) else ret ()) w = (Inr (), ?w)"
    using assms(3,4) len(2) upd
    by (auto simp: map_err_def on_device_apply SetLocalMasterVerifier_def nf ret_def set_params_same
        set_params_def [of u "(s, ?V)" w, symmetric])
  have rdy: "ready L ev S uc u ?w"
    by (rule ready_cong [OF assms(1)]) (use assms(1,5) len in \<open>auto simp: ready_def params_ok_def\<close>)
  have second: "publishVaultCrypto L ev uc s mk ?w = (Inr (), publish uc u (s, ?V) ?w)"
  proof (cases "su_remote uc")
    case None
    then show ?thesis by (simp add: publishVaultCrypto_def publish_def ret_def)
  next
    case (Some R)
    with rdy have R: "R = wired_vault L S" and on: "online L (call_at 2 ev) S u ?w" and nf2: "no_faults (call_at 2 ev)"
      by (auto simp: ready_def)
    have act: "activeAutherUserID L (call_at (Suc 0) ev) ?w = (Inr (Some u), ?w)"
      by (rule activeAutherUserID_run) (use rdy in \<open>simp_all add: ready_def\<close>)
    have idem: "w\<lparr>wd_skeeper := (wd_skeeper w)\<lparr>db_vault := (db_vault (wd_skeeper w))(u \<mapsto> sv)\<rparr>\<rparr> = w"
      if "db_vault (wd_skeeper w) u = Some sv" for sv and w :: world
      using that by (cases w, cases "wd_skeeper w") (auto simp: fun_upd_idem)
    show ?thesis
      using assms(6) idem [of ?w]
      by (auto simp: publishVaultCrypto_def Some R wired_vault_def bind_m_def act remote_params_def publish_def
          Client_PutVaultCrypto_run [OF nf2 on assms(5) len(1)] split: option.split)
  qed
  show ?thesis
    unfolding finalizeVaultVerifier_def by (subst bind_m_def) (simp only: first second prod.case sum.case)
qed

text \<open>Which master passwords the parameters of a command accept, and the key they give.\<close>

definition accepts :: "lib \<Rightarrow> bytes \<times> bytes \<Rightarrow> string \<Rightarrow> bool" where
  "accepts L sv mp \<longleftrightarrow> snd sv = [] \<or> MasterKeyVerifier L (DeriveMasterKey L mp (fst sv)) = snd sv"

lemma derive_run:
  "deriveAndCheckMasterKey L (fst sv) (snd sv) mp =
    (if accepts L sv mp then Inr (DeriveMasterKey L mp (fst sv)) else Inl (Sentinel ErrWrongMasterPassword))"
  by (simp add: deriveAndCheckMasterKey_def accepts_def Let_def)

lemma insert_refused:
  assumes "ready L ev S uc u w" and "\<not> accepts L (params (call_at 2 ev) uc u w) mp"
  shows "insertEncryptedEntry L ev uc typ meta plaintext mp w =
    (Inl (Sentinel ErrWrongMasterPassword), set_params u (params (call_at 2 ev) uc u w) w)"
proof -
  have uid: "requireAutherUserID L (call_at 1 ev) w = (Inr u, w)"
    using assms(1) by (intro requireAutherUserID_run) (simp_all add: ready_def)
  have mat: "materializeVaultCrypto L (call_at 2 ev) uc w =
      (Inr (params (call_at 2 ev) uc u w), set_params u (params (call_at 2 ev) uc u w) w)"
    by (rule materialize_run [of L _ S]) (simp add: assms(1))
  show ?thesis
    unfolding insertEncryptedEntry_def bind_m_def uid mat prod.case sum.case
    by (simp add: case_prod_beta derive_run assms(2) of_result_def)
qed

lemma insert_run:
  assumes "ready L ev S uc u w" and "crypto_ok L" and "json_ok L clean" and "clean_meta clean meta"
    and "accepts L (params (call_at 2 ev) uc u w) mp"
  shows "\<exists>e. resealed ev (new_entry (fresh_uuid ev IdEntry) typ) NowSeal u e \<and>
    open_entry L e (DeriveMasterKey L mp (fst (params (call_at 2 ev) uc u w))) = Inr (plaintext, meta) \<and>
    (let sv = (fst (params (call_at 2 ev) uc u w),
         MasterKeyVerifier L (DeriveMasterKey L mp (fst (params (call_at 2 ev) uc u w))))
     in insertEncryptedEntry L ev uc typ meta plaintext mp w =
      (Inr (), publish uc u sv (set_params u sv (put_entry L e u w))))"
proof -
  obtain s v where sv: "params (call_at 2 ev) uc u w = (s, v)" by (cases "params (call_at 2 ev) uc u w")
  let ?mk = "DeriveMasterKey L mp s"
  let ?V = "MasterKeyVerifier L ?mk"
  have nf: "no_faults ev" using assms(1) by (simp add: ready_def)
  have uid: "requireAutherUserID L (call_at 1 ev) w = (Inr u, w)"
    using assms(1) by (intro requireAutherUserID_run) (simp_all add: ready_def)
  have mat: "materializeVaultCrypto L (call_at 2 ev) uc w = (Inr (s, v), set_params u (s, v) w)"
    using materialize_run [of L "call_at 2 ev" S uc u w] assms(1) by (simp add: sv)
  have der: "deriveAndCheckMasterKey L s v mp = Inr ?mk"
    using derive_run [of L "(s, v)" mp] assms(5) by (simp add: sv)
  have "length ?mk = 32" using assms(2) by simp
  from seal_opens [OF assms(2-4) this] obtain e
    where seal: "sealWithNewDEK L ev (new_entry (fresh_uuid ev IdEntry) typ) plaintext meta ?mk u = Inr e"
      and re: "resealed ev (new_entry (fresh_uuid ev IdEntry) typ) NowSeal u e"
      and op: "open_entry L e ?mk = Inr (plaintext, meta)" by blast
  let ?w = "put_entry L e u (set_params u (s, v) w)"
  have save: "on_device (SaveEntry L ev e True) (set_params u (s, v) w) = (Inr (), ?w)"
    using re by (simp add: on_device_apply SaveEntry_ok [OF nf, of e u, OF _ open_entry_sealed [OF op]] resealed_def put_entry_def)
  have sizes: "length s = 16" "v = [] \<or> length v = 32"
    using params_sizes(1,2) [OF assms(1), of "call_at 2 ev"] by (simp_all add: sv)
  have rdy: "ready L (call_at 3 ev) S uc u ?w"
    by (simp, rule ready_cong [OF assms(1)]) (use assms(1) sizes in \<open>auto simp: ready_def params_ok_def\<close>)
  have acc: "v = [] \<or> v = ?V" using assms(5) by (auto simp: accepts_def sv)
  have rem: "remote_params uc u w = None \<or> remote_params uc u w = Some (s, ?V)"
    using acc sv params_sizes(3) [OF assms(1)] by (cases "remote_params uc u w") (auto simp: params_def)
  have fin: "finalizeVaultVerifier L (call_at 3 ev) uc u s v ?mk ?w =
      (Inr (), publish uc u (s, ?V) (set_params u (s, ?V) ?w))"
    by (rule finalize_run [OF rdy assms(2) _ acc sizes(1)]) (use rem in simp_all)
  have comm: "set_params u (s, ?V) ?w = set_params u (s, ?V) (put_entry L e u w)"
    by (simp add: set_params_def put_entry_def)
  have "insertEncryptedEntry L ev uc typ meta plaintext mp w =
      (Inr (), publish uc u (s, ?V) (set_params u (s, ?V) (put_entry L e u w)))"
    unfolding insertEncryptedEntry_def bind_m_def uid mat prod.case sum.case of_result_def der seal save fin comm ..
  with re op show ?thesis by (simp add: sv Let_def) blast
qed

text \<open>Reading an entry.\<close>

lemma live_entry_run:
  assumes "no_faults ev" and "local_ok (wd_device w)"
  shows "live_entry L ev i u w =
    ((case look_local (entries_of w) (uuid_String L i) of
        None \<Rightarrow> Inl (Sentinel ErrEntryNotFound)
      | Some r \<Rightarrow> if le_UserID r \<noteq> u then Inl (Sentinel ErrEntryNotFound)
          else (case scan_entry L r of
             Inl e \<Rightarrow> Inl (not_found_err e)
           | Inr e \<Rightarrow> if ce_IsDeleted e then Inl (Sentinel ErrEntryDeleted) else Inr e)), w)"
  by (auto simp: live_entry_def map_err_def bind_m_def on_device_apply GetEntry_answer [OF assms(1)]
      select_entry_eq [OF assms(2)] not_found_err_def raise_def ret_def split: option.split sum.split)

text \<open>Opening does not look at the two local fields.\<close>

lemma open_entry_local:
  "decryptMetaWithDEK L (e\<lparr>ce_IsDirty := b, ce_UserID := u\<rparr>) dek = decryptMetaWithDEK L e dek"
  "open_entry L (e\<lparr>ce_IsDirty := b, ce_UserID := u\<rparr>) k = open_entry L e k"
  by (simp_all add: open_entry_def decryptMetaWithDEK_def cong: sum.case_cong)

lemma get_run:
  assumes "ready L ev S uc u w" and "local_ok (wd_device w)" and "uuid_ok L" and "sqlite_time_ok L"
    and "look_local (entries_of w) (uuid_String L i) = Some (entry_to_row L e b u)"
    and "ce_UUID e = i" and "ce_IsDeleted e = False"
  shows "GetDecryptedEntry L ev uc i mp w =
    (if accepts L (params (call_at 2 ev) uc u w) mp
     then (case open_entry L e (DeriveMasterKey L mp (fst (params (call_at 2 ev) uc u w))) of
             Inl x \<Rightarrow> Inl x
           | Inr (payload, meta) \<Rightarrow> Inr \<lparr>de_Payload = payload, de_Meta = shown_meta (ce_Type e) meta, de_Type = ce_Type e\<rparr>)
     else Inl (Sentinel ErrWrongMasterPassword), set_params u (params (call_at 2 ev) uc u w) w)"
proof -
  have nf: "no_faults ev" using assms(1) by (simp add: ready_def)
  have uid: "requireAutherUserID L (call_at 1 ev) w = (Inr u, w)"
    using assms(1) by (intro requireAutherUserID_run) (simp_all add: ready_def)
  let ?e = "e\<lparr>ce_IsDirty := b, ce_UserID := Some u\<rparr>"
  have live: "live_entry L ev i u w = (Inr ?e, w)"
    by (simp add: live_entry_run [OF nf assms(2)] assms(5) scan_entry_to_row [OF assms(3,4)] assms(7))
  have mat: "materializeVaultCrypto L (call_at 2 ev) uc w =
      (Inr (params (call_at 2 ev) uc u w), set_params u (params (call_at 2 ev) uc u w) w)"
    by (rule materialize_run [of L _ S]) (simp add: assms(1))
  have op: "open_entry L ?e k = open_entry L e k" for k
    by (simp add: open_entry_local)
  show ?thesis
    unfolding GetDecryptedEntry_def decryptPayloadAndMeta_def bind_m_def uid live mat prod.case sum.case of_result_def
    by (simp add: case_prod_beta derive_run op ret_def split: sum.split)
qed

text \<open>Unlocking an entry that was sealed under the key of the parameters.\<close>

lemma unlock_run:
  assumes "ready L ev S uc u w" and "local_ok (wd_device w)" and "uuid_ok L" and "sqlite_time_ok L"
    and "look_local (entries_of w) (uuid_String L i) = Some (entry_to_row L e b u)" and "ce_IsDeleted e = False"
  shows "unlockEntry L ev uc i mp w =
    (if accepts L (params (call_at 2 ev) uc u w) mp
     then (case DecryptAESGCM L (ce_EncryptedDek e) (DeriveMasterKey L mp (fst (params (call_at 2 ev) uc u w))) of
             Inl x \<Rightarrow> Inl (Wrap (Some x) ''decrypt entry dek'')
           | Inr dek \<Rightarrow> Inr (e\<lparr>ce_IsDirty := b, ce_UserID := Some u\<rparr>, u,
               DeriveMasterKey L mp (fst (params (call_at 2 ev) uc u w)), dek))
     else Inl (Sentinel ErrWrongMasterPassword), set_params u (params (call_at 2 ev) uc u w) w)"
proof -
  have nf: "no_faults ev" using assms(1) by (simp add: ready_def)
  have uid: "requireAutherUserID L (call_at 1 ev) w = (Inr u, w)"
    using assms(1) by (intro requireAutherUserID_run) (simp_all add: ready_def)
  have live: "live_entry L ev i u w = (Inr (e\<lparr>ce_IsDirty := b, ce_UserID := Some u\<rparr>), w)"
    by (simp add: live_entry_run [OF nf assms(2)] assms(5) scan_entry_to_row [OF assms(3,4)] assms(6))
  have mat: "materializeVaultCrypto L (call_at 2 ev) uc w =
      (Inr (params (call_at 2 ev) uc u w), set_params u (params (call_at 2 ev) uc u w) w)"
    by (rule materialize_run [of L _ S]) (simp add: assms(1))
  show ?thesis
    unfolding unlockEntry_def bind_m_def uid live mat prod.case sum.case of_result_def
    by (simp add: case_prod_beta derive_run ret_def map_err_def split: sum.split)
qed

lemma open_entry_InrD:
  assumes "open_entry L e mk = Inr (payload, meta)"
  obtains dek where "DecryptAESGCM L (ce_EncryptedDek e) mk = Inr dek" and "DecryptAESGCM L (ce_Payload e) dek = Inr payload"
    and "decryptMetaWithDEK L e dek = Inr meta"
  using assms by (auto simp: open_entry_def split: sum.splits)

lemma update_run:
  assumes "ready L ev S uc u w" and "local_ok (wd_device w)" and "uuid_ok L" and "sqlite_time_ok L"
    and "look_local (entries_of w) (uuid_String L i) = Some (entry_to_row L e b u)" and "ce_IsDeleted e = False"
    and "accepts L (params (call_at 2 ev) uc u w) mp"
    and "open_entry L e (DeriveMasterKey L mp (fst (params (call_at 2 ev) uc u w))) = Inr old"
    and "crypto_ok L" and "json_ok L clean" and "clean_meta clean meta"
  shows "(if ce_Type e \<noteq> typ
    then updateEntryReplaceContent L ev uc i typ meta plaintext mp w =
      (Inl (Sentinel ErrWrongEntryType), set_params u (params (call_at 2 ev) uc u w) w)
    else \<exists>e'. resealed ev e NowSeal u e' \<and>
      open_entry L e' (DeriveMasterKey L mp (fst (params (call_at 2 ev) uc u w))) = Inr (plaintext, meta) \<and>
      updateEntryReplaceContent L ev uc i typ meta plaintext mp w =
        (Inr (), set_params u (params (call_at 2 ev) uc u w) (put_entry L e' u w)))"
proof -
  let ?sv = "params (call_at 2 ev) uc u w"
  let ?mk = "DeriveMasterKey L mp (fst ?sv)"
  let ?e = "e\<lparr>ce_IsDirty := b, ce_UserID := Some u\<rparr>"
  have nf: "no_faults ev" using assms(1) by (simp add: ready_def)
  obtain p m where old: "old = (p, m)" by (cases old)
  from assms(8) [unfolded old] obtain dek where dek: "DecryptAESGCM L (ce_EncryptedDek e) ?mk = Inr dek"
    "DecryptAESGCM L (ce_Payload e) dek = Inr p" "decryptMetaWithDEK L e dek = Inr m" by (rule open_entry_InrD)
  have unl: "unlockEntry L ev uc i mp w = (Inr (?e, u, ?mk, dek), set_params u ?sv w)"
    by (simp add: unlock_run [OF assms(1-6)] assms(7) dek(1))
  show ?thesis
  proof (cases "ce_Type e = typ")
    case False
    then show ?thesis by (simp add: updateEntryReplaceContent_def bind_m_def unl raise_def)
  next
    case True
    from dek(2,3) have ver: "verifyPayloadAndMetaWithDEK L ?e dek = Inr ()"
      by (auto simp: verifyPayloadAndMetaWithDEK_def decryptMetaWithDEK_def split: sum.splits)
    have "length ?mk = 32" using assms(9) by simp
    from seal_opens [OF assms(9-11) this] obtain e' where seal: "sealWithNewDEK L ev ?e plaintext meta ?mk u = Inr e'"
      and re: "resealed ev ?e NowSeal u e'" and op: "open_entry L e' ?mk = Inr (plaintext, meta)" by blast
    have save: "on_device (SaveEntry L ev e' True) (set_params u ?sv w) = (Inr (), set_params u ?sv (put_entry L e' u w))"
      using re by (simp add: on_device_apply SaveEntry_ok [OF nf, of e' u, OF _ open_entry_sealed [OF op]]
        resealed_def put_entry_def set_params_def)
    have "updateEntryReplaceContent L ev uc i typ meta plaintext mp w = (Inr (), set_params u ?sv (put_entry L e' u w))"
      using True by (simp add: updateEntryReplaceContent_def bind_m_def unl of_result_def ver seal save)
    moreover have "resealed ev e NowSeal u e'" using re by (simp add: resealed_def)
    ultimately show ?thesis using True op by auto
  qed
qed

lemma update_file_run:
  assumes "ready L ev S uc u w" and "local_ok (wd_device w)" and "uuid_ok L" and "sqlite_time_ok L"
    and "look_local (entries_of w) (uuid_String L i) = Some (entry_to_row L e b u)" and "ce_IsDeleted e = False"
    and "accepts L (params (call_at 2 ev) uc u w) mp"
    and "open_entry L e (DeriveMasterKey L mp (fst (params (call_at 2 ev) uc u w))) = Inr (payload, stored)"
    and "crypto_ok L" and "json_ok L clean" and "ce_Type e = EntryTypeFile"
    and "clean_meta clean (merge_file_meta stored meta)"
  shows "\<exists>e' rd. resealed ev e rd u e' \<and>
      open_entry L e' (DeriveMasterKey L mp (fst (params (call_at 2 ev) uc u w))) = Inr (payload, merge_file_meta stored meta) \<and>
      ce_Payload e' = ce_Payload e \<and>
      UpdateFile L ev uc i meta mp False newFile newName w =
        (Inr (), set_params u (params (call_at 2 ev) uc u w) (put_entry L e' u w))"
proof -
  let ?sv = "params (call_at 2 ev) uc u w"
  let ?mk = "DeriveMasterKey L mp (fst ?sv)"
  let ?e = "e\<lparr>ce_IsDirty := b, ce_UserID := Some u\<rparr>"
  let ?meta = "merge_file_meta stored meta"
  have nf: "no_faults ev" using assms(1) by (simp add: ready_def)
  from assms(8) obtain dek where dek: "DecryptAESGCM L (ce_EncryptedDek e) ?mk = Inr dek"
    "DecryptAESGCM L (ce_Payload e) dek = Inr payload" "decryptMetaWithDEK L e dek = Inr stored" by (rule open_entry_InrD)
  have unl: "unlockEntry L ev uc i mp w = (Inr (?e, u, ?mk, dek), set_params u ?sv w)"
    by (simp add: unlock_run [OF assms(1-6)] assms(7) dek(1))
  have key: "aes_NewCipher dek = Inr dek"
    using dek(2) by (auto simp: DecryptAESGCM_def aes_NewCipher_def split: sum.splits if_splits)
  then obtain c where c: "EncryptAESGCM L ev DrawMetaNonce (json_Marshal_meta L ?meta) dek = Inr c"
    by (simp add: EncryptAESGCM_def Let_def)
  from EncryptAESGCM_InrD [OF c] have "DecryptAESGCM L c dek = Inr (json_Marshal_meta L ?meta)"
    using assms(9) by (auto simp: DecryptAESGCM_blob)
  then have reads: "ce_Meta e0 = c \<Longrightarrow> decryptMetaWithDEK L e0 dek = Inr ?meta" for e0
    by (simp add: decryptMetaWithDEK_def json_meta_roundtrip [OF assms(10,12)])
  obtain e' where seal: "encryptMetaOnly L ev ?e ?meta dek u = Inr e'" and m: "ce_Meta e' = c"
    by (simp add: encryptMetaOnly_def c)
  from encryptMetaOnly_InrD [OF seal] have re: "resealed ev ?e NowMeta u e'"
    and keep: "ce_Payload e' = ce_Payload e" "ce_EncryptedDek e' = ce_EncryptedDek e" by simp_all
  have op: "open_entry L e' ?mk = Inr (payload, ?meta)"
    using reads [OF m] by (simp add: open_entry_def keep dek)
  have save: "on_device (SaveEntry L ev e' True) (set_params u ?sv w) = (Inr (), set_params u ?sv (put_entry L e' u w))"
    using re by (simp add: on_device_apply SaveEntry_ok [OF nf, of e' u, OF _ open_entry_sealed [OF op]]
        resealed_def put_entry_def set_params_def)
  have "UpdateFile L ev uc i meta mp False newFile newName w = (Inr (), set_params u ?sv (put_entry L e' u w))"
    by (simp add: UpdateFile_def bind_m_def unl of_result_def open_entry_local dek map_err_def seal save assms(11))
  moreover have "resealed ev e NowMeta u e'" using re by (simp add: resealed_def)
  ultimately show ?thesis using op keep(1) by blast
qed

lemma delete_run:
  assumes "ready L ev S uc u w" and "local_ok (wd_device w)" and "uuid_ok L" and "sqlite_time_ok L"
    and "look_local (entries_of w) (uuid_String L i) = Some (entry_to_row L e b u)" and "ce_IsDeleted e = False"
  shows "DeleteEntry L ev uc i mp w =
    (if accepts L (params (call_at 2 ev) uc u w) mp
     then (Inr (), set_params u (params (call_at 2 ev) uc u w)
       (put_entry L (e\<lparr>ce_IsDeleted := True, ce_Version := ce_Version e + 1, ce_UpdatedAt := time_now ev NowDelete\<rparr>) u w))
     else (Inl (Sentinel ErrWrongMasterPassword), set_params u (params (call_at 2 ev) uc u w) w))"
proof -
  have nf: "no_faults ev" using assms(1) by (simp add: ready_def)
  have uid: "requireAutherUserID L (call_at 1 ev) w = (Inr u, w)"
    using assms(1) by (intro requireAutherUserID_run) (simp_all add: ready_def)
  have live: "live_entry L ev i u w = (Inr (e\<lparr>ce_IsDirty := b, ce_UserID := Some u\<rparr>), w)"
    by (simp add: live_entry_run [OF nf assms(2)] assms(5) scan_entry_to_row [OF assms(3,4)] assms(6))
  have mat: "materializeVaultCrypto L (call_at 2 ev) uc w =
      (Inr (params (call_at 2 ev) uc u w), set_params u (params (call_at 2 ev) uc u w) w)"
    by (rule materialize_run [of L _ S]) (simp add: assms(1))
  have sealed: "sealed e" using local_ok_sealed [OF assms(2,5)] .
  show ?thesis
    unfolding DeleteEntry_def bind_m_def uid live mat prod.case sum.case of_result_def
    by (simp add: case_prod_beta derive_run on_device_apply SaveEntry_ok [OF nf, where u = u] sealed put_entry_def set_params_def)
      (simp add: entry_to_row_def)
qed

end
