(* ===== verification/Sync_Usecase.thy ===== *)
theory Sync_Usecase
  imports Secret_Facts
begin

text \<open>
  The sync use case of the CLI (\<^verbatim>\<open>internal/client/usecase/sync.go\<close>): one round pushes the
  user's dirty entries, pulls what is newer than the newest local entry, and merges the answer
  into the vault of the device.
\<close>

section \<open>The use case\<close>

record sync_uc =
  sy_remote :: "env \<Rightarrow> client_entry list \<Rightarrow> gotime \<Rightarrow> (world, go_error, client_entry list \<times> uuid list) cmd"

definition NewSyncUseCase ::
  "(env \<Rightarrow> client_entry list \<Rightarrow> gotime \<Rightarrow> (world, go_error, client_entry list \<times> uuid list) cmd) \<Rightarrow> sync_uc" where
  "NewSyncUseCase remote = \<lparr>sy_remote = remote\<rparr>"

definition Sync_requireAutherUserID :: "lib \<Rightarrow> env \<Rightarrow> (world, go_error, int64) cmd" where
  "Sync_requireAutherUserID L ev =
    bind_m (attempt (on_device (GetSession L ev))) (\<lambda>r.
      case (case r of Inl _ \<Rightarrow> None | Inr s \<Rightarrow> session_user s) of
        None \<Rightarrow> raise (ErrNew ''sync requires an active session; log in first'')
      | Some u \<Rightarrow> ret u)"

definition SyncUseCase_Sync :: "lib \<Rightarrow> env \<Rightarrow> sync_uc \<Rightarrow> (world, go_error, unit) cmd" where
  "SyncUseCase_Sync L ev uc =
    bind_m (Sync_requireAutherUserID L (call_at 1 ev)) (\<lambda>uid.
    bind_m (map_err (\<lambda>e. Wrap (Some e) ''read local dirty'') (on_device (GetDirtyEntries L ev (Some uid)))) (\<lambda>dirty.
    bind_m (on_device (GetLastUpdate L ev (Some uid))) (\<lambda>lastUpdate.
    bind_m (map_err (\<lambda>e. Wrap (Some e) ''grpc sync call'') (sy_remote uc (call_at 2 ev) dirty lastUpdate)) (\<lambda>(updates, applied).
    map_err (\<lambda>e. Wrap (Some e) ''persist sync'')
      (on_device (PersistSyncResult L ev uid updates dirty (set applied)))))))"

section \<open>What a device has to push\<close>

text \<open>Every row of the vault was written by \<open>saveEntry\<close>, with a type the server has room for.\<close>

definition written :: "lib \<Rightarrow> local_row list \<Rightarrow> bool" where
  "written L rows \<longleftrightarrow> (\<forall>r\<in>set rows. \<exists>e b u. r = entry_to_row L e b u \<and> type_fits (ce_Type e))"

text \<open>A row as the entry that is pushed for it, and the cursor of a user's rows.\<close>

definition scanned :: "lib \<Rightarrow> local_row \<Rightarrow> client_entry" where
  "scanned L r = row_entry r (the (uuid_Parse L (le_UUID r))) (the (sqlite_time_read L (le_UpdatedAt r))) False"

definition dirty_of :: "lib \<Rightarrow> int64 \<Rightarrow> local_row list \<Rightarrow> client_entry list" where
  "dirty_of L u rows = map (scanned L) (filter (\<lambda>r. le_IsDirty r \<and> le_UserID r = u) rows)"

definition cursor_of :: "lib \<Rightarrow> int64 \<Rightarrow> local_row list \<Rightarrow> gotime" where
  "cursor_of L u rows = (let texts = map le_UpdatedAt (filter (\<lambda>r. le_UserID r = u) rows)
    in Unix_Ns ((if texts = [] then 0
      else case sqlite_unixepoch L (foldr max (tl texts) (hd texts)) of None \<Rightarrow> 0 | Some n \<Rightarrow> n) * second))"

lemma entry_to_row_clean [simp]: "(entry_to_row L e b u)\<lparr>le_IsDirty := c\<rparr> = entry_to_row L e c u"
  by (simp add: entry_to_row_def)

lemma writtenE:
  assumes "written L rows" and "r \<in> set rows"
  obtains e where "r = entry_to_row L e (le_IsDirty r) (le_UserID r)"
proof -
  obtain e b u where r: "r = entry_to_row L e b u" using assms by (auto simp: written_def)
  then show thesis by (intro that [of e]) simp
qed

lemma scanned_to_row:
  "uuid_ok L \<Longrightarrow> sqlite_time_ok L \<Longrightarrow> scanned L (entry_to_row L e b u) = e\<lparr>ce_IsDirty := False, ce_UserID := Some u\<rparr>"
  by (simp add: scanned_def entry_to_row_def row_entry_def sqlite_time_read_text uuid_Parse_String)

lemma scan_dirty_written:
  assumes "uuid_ok L" and "sqlite_time_ok L" and "written L rows" and "r \<in> set rows"
  shows "scan_dirty L r = Inr (scanned L r)" and "le_UUID r = uuid_String L (ce_UUID (scanned L r))"
    and "entry_to_row L (scanned L r) (le_IsDirty r) (le_UserID r) = r"
proof -
  obtain e b u where r: "r = entry_to_row L e b u" using assms(3,4) by (auto simp: written_def)
  show "scan_dirty L r = Inr (scanned L r)" and "le_UUID r = uuid_String L (ce_UUID (scanned L r))"
    and "entry_to_row L (scanned L r) (le_IsDirty r) (le_UserID r) = r"
    unfolding r by (simp_all add: scan_dirty_to_row [OF assms(1,2)] scanned_to_row [OF assms(1,2)])
      (simp add: entry_to_row_def)
qed

lemma written_put_row:
  "written L rows \<Longrightarrow> type_fits (ce_Type e) \<Longrightarrow> written L (put_row le_UUID (entry_to_row L e b u) rows)"
  unfolding written_def using set_put_row_subset [of le_UUID "entry_to_row L e b u" rows] by blast

lemma written_merged:
  "written L rows \<Longrightarrow> \<forall>e\<in>set es. type_fits (ce_Type e) \<Longrightarrow> written L (merged_rows L u es rows)"
  by (induction es arbitrary: rows) (simp_all add: merged_rows_def written_put_row)

lemma written_marked: "written L rows \<Longrightarrow> written L (marked_rows L u A es rows)"
  by (fastforce simp: written_def marked_rows_def update_where_def)

lemma for_user_Some: "for_user (Some u) = (\<lambda>r. le_UserID r = u)"
  by (rule ext) (simp add: for_user_def)

lemma dirty_run:
  assumes "no_faults ev" and "uuid_ok L" and "sqlite_time_ok L" and "written L (dv_entries d)"
  shows "GetDirtyEntries L ev (Some u) d = (Inr (dirty_of L u (dv_entries d)), d)"
proof -
  have "map_result (scan_dirty L) (filter (\<lambda>r. le_IsDirty r \<and> le_UserID r = u) (dv_entries d)) = Inr (dirty_of L u (dv_entries d))"
    unfolding dirty_of_def by (rule map_result_map, rule scan_dirty_written(1) [OF assms(2-4)]) simp
  then show ?thesis
    by (simp add: GetDirtyEntries_def assms(1) read_rows_ok bind_m_def gets_def of_result_def for_user_Some ret_def)
qed

lemma cursor_run: "no_faults ev \<Longrightarrow> GetLastUpdate L ev (Some u) d = (Inr (cursor_of L u (dv_entries d)), d)"
  by (simp add: GetLastUpdate_def cursor_of_def gets_def for_user_Some)

lemma distinct_dirty:
  assumes "uuid_ok L" and "sqlite_time_ok L" and "written L rows" and "unique_keys le_UUID rows"
  shows "distinct (map ce_UUID (dirty_of L u rows))"
proof -
  let ?rs = "filter (\<lambda>r. le_IsDirty r \<and> le_UserID r = u) rows"
  have "map (uuid_String L) (map ce_UUID (dirty_of L u rows)) = map le_UUID ?rs"
    using scan_dirty_written(2) [OF assms(1-3)] by (simp add: dirty_of_def)
  moreover have "distinct (map le_UUID ?rs)"
    using unique_keys_filter [OF assms(4)] by (simp add: unique_keys_def)
  ultimately show ?thesis by (metis distinct_map)
qed

text \<open>The constraints of the two tables agree: what a device pushes and what it pulls is accepted.\<close>

lemma syncable_iff: "syncable e \<longleftrightarrow> type_fits (ce_Type e) \<and> sealed e"
  by (simp add: syncable_def sealed_def)

lemma dirty_syncable:
  assumes "written L (dv_entries d)" and "local_ok d"
  shows "\<forall>e\<in>set (dirty_of L u (dv_entries d)). syncable e"
proof
  fix x assume "x \<in> set (dirty_of L u (dv_entries d))"
  then obtain r where r: "r \<in> set (dv_entries d)" "x = scanned L r" by (auto simp: dirty_of_def)
  have "type_fits (le_Type r)" using assms(1) r(1) by (auto simp: written_def entry_to_row_def)
  with r assms(2) show "syncable x" by (simp add: syncable_def scanned_def row_entry_def local_ok_def)
qed

lemma pulled_syncable:
  assumes "entries_ok db"
  shows "\<forall>e\<in>set (map to_client (pulled L u t db)). syncable e"
proof
  fix x assume "x \<in> set (map to_client (pulled L u t db))"
  then obtain r where r: "r \<in> set (db_entries db)" "x = to_client (toDomain r)" by (auto simp: pulled_def)
  have "row_violation r = None" by (rule entries_okD(2) [OF assms r(1)])
  then show "syncable x"
    by (auto simp: r(2) syncable_def type_fits_def to_client_def toDomain_def row_violation_def split: if_splits)
qed

text \<open>The entry of a uuid that the device has to push for \<open>u\<close>.\<close>

definition local_edit :: "lib \<Rightarrow> int64 \<Rightarrow> world \<Rightarrow> uuid \<Rightarrow> client_entry option" where
  "local_edit L u w i = (case look_local (entries_of w) (uuid_String L i) of
      None \<Rightarrow> None
    | Some r \<Rightarrow> if le_IsDirty r \<and> le_UserID r = u then Some (scanned L r) else None)"

lemma find_row_map:
  assumes "\<And>r. r \<in> set rs \<Longrightarrow> key' (f r) = j \<longleftrightarrow> key r = k"
  shows "find_row key' (map f rs) j = map_option f (find_row key rs k)"
  using assms by (induction rs) auto

lemma find_dirty:
  assumes "uuid_ok L" and "sqlite_time_ok L" and "written L (entries_of w)" and "unique_keys le_UUID (entries_of w)"
  shows "find_row ce_UUID (dirty_of L u (entries_of w)) i = local_edit L u w i"
proof -
  let ?p = "\<lambda>r. le_IsDirty r \<and> le_UserID r = u"
  have "find_row ce_UUID (dirty_of L u (entries_of w)) i
      = map_option (scanned L) (find_row le_UUID (filter ?p (entries_of w)) (uuid_String L i))"
    unfolding dirty_of_def
    by (rule find_row_map) (use scan_dirty_written(2) [OF assms(1-3)] in \<open>simp add: uuid_String_inj [OF assms(1)]\<close>)
  also have "\<dots> = local_edit L u w i"
    by (simp add: find_row_filter [OF assms(4)] local_edit_def split: option.split)
  finally show ?thesis .
qed

lemma local_edit_uuid:
  assumes "uuid_ok L" and "sqlite_time_ok L" and "written L (entries_of w)" and "local_edit L u w i = Some e"
  shows "ce_UUID e = i"
proof -
  obtain r where r: "look_local (entries_of w) (uuid_String L i) = Some r" and e: "e = scanned L r"
    using assms(4) by (auto simp: local_edit_def split: option.splits if_splits)
  from scan_dirty_written(2) [OF assms(1-3) find_row_in_set [OF r]] find_row_key [OF r]
  show ?thesis by (simp add: e uuid_String_inj [OF assms(1)])
qed

end
