(* ===== verification/Secret_Properties.thy ===== *)
theory Secret_Properties
  imports Secret_Facts
begin

text \<open>
  What the vault use case promises its caller: entries come back as they were stored, to the
  holder of the master password and to nobody else; updates and deletions make the next version
  of exactly one row.
\<close>

section \<open>The state after a command\<close>

lemma params_settled:
  assumes "dv_crypto (wd_device w) u = Some sv" and "remote_params uc u w = None \<or> remote_params uc u w = Some sv"
  shows "params ev uc u w = sv" and "set_params u sv w = w"
  using assms set_params_same [OF assms(1)] by (auto simp: params_def)

lemma ready_after:
  assumes "ready L ev S uc u w" and "length s = 16" and "v = [] \<or> length v = 32"
  shows "ready L ev S uc u (set_params u (s, v) (put_entry L e u w))"
  by (rule ready_cong [OF assms(1)]) (use assms in \<open>auto simp: ready_def params_ok_def\<close>)

lemma ready_published:
  assumes "ready L ev S uc u w" and "length s = 16" and "length v = 32"
  shows "ready L ev S uc u (publish uc u (s, v) (set_params u (s, v) (put_entry L e u w)))"
  by (rule ready_cong [OF assms(1)]) (use assms in \<open>auto simp: ready_def params_ok_def\<close>)

lemma local_ok_put_entry:
  assumes "local_ok (wd_device w)" and "sealed e"
  shows "local_ok (wd_device (put_entry L e v w))" and "local_ok (wd_device (set_params u sv (put_entry L e v w)))"
  using local_ok_put [OF assms, of L True v] by (simp_all add: local_ok_def)

lemmas local_ok_put_opens = local_ok_put_entry [OF _ open_entry_sealed]

lemma look_put_entry [simp]:
  "look_local (put_row le_UUID (entry_to_row L e b u) rows) (uuid_String L (ce_UUID e)) = Some (entry_to_row L e b u)"
  by (simp add: find_row_put_row_fun)

lemma look_put_entry_other:
  "k \<noteq> uuid_String L (ce_UUID e) \<Longrightarrow> look_local (put_row le_UUID (entry_to_row L e b u) rows) k = look_local rows k"
  by (simp add: find_row_put_row_fun)

section \<open>Storing and reading\<close>

lemma stored_then_read:
  assumes "ready L ev S uc u w" and "ready L ev2 S uc u w" and "local_ok (wd_device w)"
    and "uuid_ok L" and "sqlite_time_ok L" and "crypto_ok L" and "json_ok L clean" and "clean_meta clean meta"
    and "accepts L (params (call_at 2 ev) uc u w) mp"
  shows "\<exists>w'. insertEncryptedEntry L ev uc typ meta plaintext mp w = (Inr (), w') \<and>
    GetDecryptedEntry L ev2 uc (fresh_uuid ev IdEntry) mp w' =
      (Inr \<lparr>de_Payload = plaintext, de_Meta = shown_meta typ meta, de_Type = typ\<rparr>, w') \<and>
    (\<forall>other. MasterKeyVerifier L (DeriveMasterKey L other (fst (params (call_at 2 ev) uc u w)))
          \<noteq> MasterKeyVerifier L (DeriveMasterKey L mp (fst (params (call_at 2 ev) uc u w))) \<longrightarrow>
      GetDecryptedEntry L ev2 uc (fresh_uuid ev IdEntry) other w' = (Inl (Sentinel ErrWrongMasterPassword), w'))"
proof -
  let ?s = "fst (params (call_at 2 ev) uc u w)"
  let ?mk = "DeriveMasterKey L mp ?s"
  let ?sv = "(?s, MasterKeyVerifier L ?mk)"
  from insert_run [OF assms(1,6-9), of "typ" plaintext] obtain e
    where re: "resealed ev (new_entry (fresh_uuid ev IdEntry) typ) NowSeal u e"
      and op: "open_entry L e ?mk = Inr (plaintext, meta)"
      and run: "insertEncryptedEntry L ev uc typ meta plaintext mp w =
        (Inr (), publish uc u ?sv (set_params u ?sv (put_entry L e u w)))"
    unfolding Let_def by (elim exE conjE)
  let ?w = "publish uc u ?sv (set_params u ?sv (put_entry L e u w))"
  have sizes: "length ?s = 16" "length (MasterKeyVerifier L ?mk) = 32"
    using params_sizes(1) [OF assms(1)] assms(6) by simp_all
  have rdy: "ready L ev2 S uc u ?w"
    by (rule ready_published [OF assms(2) sizes])
  have "dv_crypto (wd_device ?w) u = Some ?sv" "remote_params uc u ?w = None \<or> remote_params uc u ?w = Some ?sv"
    by simp_all
  note settled = params_settled [OF this]
  have id: "ce_UUID e = fresh_uuid ev IdEntry" "ce_Type e = typ" "ce_IsDeleted e = False"
    using re by (simp_all add: resealed_def new_entry_def)
  have ok: "local_ok (wd_device ?w)" using local_ok_put_opens(2) [OF assms(3) op] by simp
  have look: "look_local (entries_of ?w) (uuid_String L (ce_UUID e)) = Some (entry_to_row L e True u)" by simp
  have get: "GetDecryptedEntry L ev2 uc (fresh_uuid ev IdEntry) other ?w =
      (if accepts L ?sv other
       then (case open_entry L e (DeriveMasterKey L other ?s) of
               Inl x \<Rightarrow> Inl x
             | Inr (payload, meta) \<Rightarrow> Inr \<lparr>de_Payload = payload, de_Meta = shown_meta typ meta, de_Type = typ\<rparr>)
       else Inl (Sentinel ErrWrongMasterPassword), ?w)" for other
    using get_run [OF rdy ok assms(4,5) look refl id(3), of other] by (simp only: settled id fst_conv)
  have "accepts L ?sv other \<longleftrightarrow> MasterKeyVerifier L (DeriveMasterKey L other ?s) = MasterKeyVerifier L ?mk" for other
    using sizes(2) by (auto simp: accepts_def)
  then show ?thesis
    unfolding run by (intro exI [of _ ?w]) (simp add: get op)
qed

text \<open>
  C17: What was stored is what is read. Whatever the kind of entry, and with or without a remote
  side: a secret stored under a master password that the vault accepts is read back under that
  password, with its type and metadata (a file always has a name); under a password with another
  verifier it is refused.
\<close>

theorem set_then_get:
  assumes "ready L ev S uc u w" and "ready L ev2 S uc u w" and "local_ok (wd_device w)"
    and "uuid_ok L" and "sqlite_time_ok L" and "crypto_ok L" and "json_ok L clean" and "clean_meta clean meta"
    and "accepts L (params (call_at 2 ev) uc u w) mp"
  shows "\<exists>w'. insertEncryptedEntry L ev uc typ meta plaintext mp w = (Inr (), w') \<and>
    GetDecryptedEntry L ev2 uc (fresh_uuid ev IdEntry) mp w' =
      (Inr \<lparr>de_Payload = plaintext, de_Meta = shown_meta typ meta, de_Type = typ\<rparr>, w') \<and>
    (\<forall>other. MasterKeyVerifier L (DeriveMasterKey L other (fst (params (call_at 2 ev) uc u w)))
          \<noteq> MasterKeyVerifier L (DeriveMasterKey L mp (fst (params (call_at 2 ev) uc u w))) \<longrightarrow>
      GetDecryptedEntry L ev2 uc (fresh_uuid ev IdEntry) other w' = (Inl (Sentinel ErrWrongMasterPassword), w'))"
  by (rule stored_then_read [OF assms])

text \<open>
  Storing an entry, on every branch. A master password the vault does not accept changes
  nothing but the pulled vault parameters. Otherwise exactly one row is written, for the new
  uuid: version 1, dirty, of the session's user, and opening under the master key; the salt in
  effect and the verifier of the password are now the vault parameters of the user on the device
  and, if there is a remote side, on the server.
\<close>

theorem set_entry_answers:
  assumes "ready L ev S uc u w" and "crypto_ok L" and "json_ok L clean" and "clean_meta clean meta"
  shows "let salt = fst (params (call_at 2 ev) uc u w); masterKey = DeriveMasterKey L mp salt;
      sv = (salt, MasterKeyVerifier L masterKey)
    in if \<not> accepts L (params (call_at 2 ev) uc u w) mp
       then \<exists>w'. insertEncryptedEntry L ev uc typ meta plaintext mp w = (Inl (Sentinel ErrWrongMasterPassword), w') \<and>
         entries_of w' = entries_of w \<and> wd_skeeper w' = wd_skeeper w \<and> wd_auther w' = wd_auther w
       else \<exists>w' e. insertEncryptedEntry L ev uc typ meta plaintext mp w = (Inr (), w') \<and>
         entries_of w' = put_row le_UUID (entry_to_row L e True u) (entries_of w) \<and>
         ce_UUID e = fresh_uuid ev IdEntry \<and> ce_Type e = typ \<and> ce_Version e = 1 \<and> \<not> ce_IsDeleted e \<and>
         open_entry L e masterKey = Inr (plaintext, meta) \<and>
         dv_crypto (wd_device w') = (dv_crypto (wd_device w))(u \<mapsto> sv) \<and>
         db_vault (wd_skeeper w') = (if su_remote uc = None then db_vault (wd_skeeper w) else (db_vault (wd_skeeper w))(u \<mapsto> sv)) \<and>
         db_entries (wd_skeeper w') = db_entries (wd_skeeper w) \<and> wd_auther w' = wd_auther w"
proof (cases "accepts L (params (call_at 2 ev) uc u w) mp")
  case False
  then show ?thesis by (simp add: Let_def insert_refused [OF assms(1) False])
next
  case True
  from insert_run [OF assms True, of "typ" plaintext] True show ?thesis
    by (auto simp: Let_def resealed_def new_entry_def)
qed

section \<open>The master password\<close>

lemma unlock_refused:
  assumes "ready L ev S uc u w" and "local_ok (wd_device w)" and "\<not> accepts L (params (call_at 2 ev) uc u w) mp"
  shows "\<exists>e w'. unlockEntry L ev uc i mp w = (Inl e, w') \<and> entries_of w' = entries_of w \<and> wd_skeeper w' = wd_skeeper w"
proof -
  have nf: "no_faults ev" using assms(1) by (simp add: ready_def)
  have uid: "requireAutherUserID L (call_at 1 ev) w = (Inr u, w)"
    using assms(1) by (intro requireAutherUserID_run) (simp_all add: ready_def)
  have mat: "materializeVaultCrypto L (call_at 2 ev) uc w =
      (Inr (params (call_at 2 ev) uc u w), set_params u (params (call_at 2 ev) uc u w) w)"
    by (rule materialize_run [of L _ S]) (simp add: assms(1))
  obtain r where live: "live_entry L ev i u w = (r, w)"
    by (simp add: live_entry_run [OF nf assms(2)])
  show ?thesis
    unfolding unlockEntry_def bind_m_def uid live mat prod.case sum.case of_result_def
    by (cases r) (simp_all add: case_prod_beta derive_run assms(3) mat)
qed

text \<open>
  C18: Without the master password nothing can be read or written. While a verifier is known, a
  password with another one makes every command on entries fail, with the entries and the server
  left exactly as they were.
\<close>

theorem wrong_master_password_refused:
  assumes "ready L ev S uc u w" and "local_ok (wd_device w)" and "\<not> accepts L (params (call_at 2 ev) uc u w) mp"
  shows "\<forall>run \<in> {insertEncryptedEntry L ev uc typ meta plaintext mp, updateEntryReplaceContent L ev uc i typ meta plaintext mp,
      UpdateFile L ev uc i meta mp replacePayload plaintext name, DeleteEntry L ev uc i mp,
      bind_m (GetDecryptedEntry L ev uc i mp) (\<lambda>_. ret ())}.
    \<exists>e w'. run w = (Inl e, w') \<and> entries_of w' = entries_of w \<and> wd_skeeper w' = wd_skeeper w"
proof -
  have nf: "no_faults ev" using assms(1) by (simp add: ready_def)
  have uid: "requireAutherUserID L (call_at 1 ev) w = (Inr u, w)"
    using assms(1) by (intro requireAutherUserID_run) (simp_all add: ready_def)
  have mat: "materializeVaultCrypto L (call_at 2 ev) uc w =
      (Inr (params (call_at 2 ev) uc u w), set_params u (params (call_at 2 ev) uc u w) w)"
    by (rule materialize_run [of L _ S]) (simp add: assms(1))
  obtain r where live: "live_entry L ev i u w = (r, w)"
    by (simp add: live_entry_run [OF nf assms(2)])
  have unl: "\<exists>e w'. bind_m (unlockEntry L ev uc i mp) g w = (Inl e, w') \<and> entries_of w' = entries_of w \<and> wd_skeeper w' = wd_skeeper w" for g
    using unlock_refused [OF assms, of i] by (auto simp: bind_m_def)
  have del: "\<exists>e w'. DeleteEntry L ev uc i mp w = (Inl e, w') \<and> entries_of w' = entries_of w \<and> wd_skeeper w' = wd_skeeper w"
    unfolding DeleteEntry_def bind_m_def uid live mat prod.case sum.case of_result_def
    by (cases r) (simp_all add: case_prod_beta derive_run assms(3) mat)
  have get: "\<exists>e w'. GetDecryptedEntry L ev uc i mp w = (Inl e, w') \<and> entries_of w' = entries_of w \<and> wd_skeeper w' = wd_skeeper w"
    unfolding GetDecryptedEntry_def decryptPayloadAndMeta_def bind_m_def uid live mat prod.case sum.case of_result_def
    by (cases r) (simp_all add: case_prod_beta derive_run assms(3) mat)
  then have "\<exists>e w'. bind_m (GetDecryptedEntry L ev uc i mp) (\<lambda>_. ret ()) w = (Inl e, w') \<and>
      entries_of w' = entries_of w \<and> wd_skeeper w' = wd_skeeper w"
    by (auto simp: bind_m_def)
  moreover have "\<exists>e w'. updateEntryReplaceContent L ev uc i typ meta plaintext mp w = (Inl e, w') \<and>
      entries_of w' = entries_of w \<and> wd_skeeper w' = wd_skeeper w"
    unfolding updateEntryReplaceContent_def by (rule unl)
  moreover have "\<exists>e w'. UpdateFile L ev uc i meta mp replacePayload plaintext name w = (Inl e, w') \<and>
      entries_of w' = entries_of w \<and> wd_skeeper w' = wd_skeeper w"
    unfolding UpdateFile_def by (rule unl)
  moreover have "\<exists>e w'. insertEncryptedEntry L ev uc typ meta plaintext mp w = (Inl e, w') \<and>
      entries_of w' = entries_of w \<and> wd_skeeper w' = wd_skeeper w"
    by (simp add: insert_refused [OF assms(1,3)])
  ultimately show ?thesis using del by blast
qed

section \<open>Changing entries\<close>

text \<open>
  C19: A command changes at most the row it is about, whatever fails: with any failures and any
  answers of the services, an insertion writes one row under its fresh uuid at version 1; an
  update, and a deletion, replace exactly the row of their uuid, which was not a tombstone, by
  the next version with the same owner and, for an update, the demanded type; reading and
  listing change no row.
\<close>

theorem vault_commands_touch_one_row:
  assumes "uuid_ok L" and "local_ok (wd_device w)" and "wired L S uc"
  shows "(\<forall>r w'. insertEncryptedEntry L ev uc typ meta plaintext mp w = (r, w') \<longrightarrow>
      entries_of w' = entries_of w \<or> (\<exists>e u. ce_UUID e = fresh_uuid ev IdEntry \<and> ce_Type e = typ \<and> ce_Version e = 1 \<and>
        entries_of w' = put_row le_UUID (entry_to_row L e True u) (entries_of w))) \<and>
    (\<forall>r w'. updateEntryReplaceContent L ev uc i typ meta plaintext mp w = (r, w') \<longrightarrow>
      entries_of w' = entries_of w \<or> (\<exists>e. next_version L i w w' e \<and> ce_Type e = typ \<and> \<not> ce_IsDeleted e)) \<and>
    (\<forall>r w'. UpdateFile L ev uc i meta mp replacePayload plaintext name w = (r, w') \<longrightarrow>
      entries_of w' = entries_of w \<or> (\<exists>e. next_version L i w w' e \<and> ce_Type e = EntryTypeFile \<and> \<not> ce_IsDeleted e)) \<and>
    (\<forall>r w'. DeleteEntry L ev uc i mp w = (r, w') \<longrightarrow>
      entries_of w' = entries_of w \<or> (\<exists>e. next_version L i w w' e \<and> ce_IsDeleted e)) \<and>
    (\<forall>r w'. GetDecryptedEntry L ev uc i mp w = (r, w') \<longrightarrow> entries_of w' = entries_of w) \<and>
    (\<forall>r w'. ListLocal L ev w = (r, w') \<longrightarrow> entries_of w' = entries_of w)"
proof (intro conjI allI impI)
  fix r w'
  show "insertEncryptedEntry L ev uc typ meta plaintext mp w = (r, w') \<Longrightarrow> entries_of w' = entries_of w \<or>
      (\<exists>e u. ce_UUID e = fresh_uuid ev IdEntry \<and> ce_Type e = typ \<and> ce_Version e = 1 \<and>
        entries_of w' = put_row le_UUID (entry_to_row L e True u) (entries_of w))"
    using insert_outcome [OF assms(3)] by blast
  show "updateEntryReplaceContent L ev uc i typ meta plaintext mp w = (r, w') \<Longrightarrow> entries_of w' = entries_of w \<or>
      (\<exists>e. next_version L i w w' e \<and> ce_Type e = typ \<and> \<not> ce_IsDeleted e)"
    using update_outcome [OF assms] by blast
  show "UpdateFile L ev uc i meta mp replacePayload plaintext name w = (r, w') \<Longrightarrow> entries_of w' = entries_of w \<or>
      (\<exists>e. next_version L i w w' e \<and> ce_Type e = EntryTypeFile \<and> \<not> ce_IsDeleted e)"
    using update_file_outcome [OF assms] by blast
  show "DeleteEntry L ev uc i mp w = (r, w') \<Longrightarrow> entries_of w' = entries_of w \<or> (\<exists>e. next_version L i w w' e \<and> ce_IsDeleted e)"
    using delete_outcome [OF assms] by blast
qed (use keepsD [OF keeps_read_ops(1) [OF assms(3)]] keepsD [OF keeps_read_ops(2) [OF assms(3)]] in blast)+

text \<open>
  An update replaces what is read. Updating an entry that opens under the accepted master
  password keeps its uuid and type, makes the next version, dirty, and from then on the new
  content is what reading returns; the wrong type is refused and changes no entry.
\<close>

theorem update_then_get:
  assumes "ready L ev S uc u w" and "ready L ev2 S uc u w" and "local_ok (wd_device w)" and "uuid_ok L" and "sqlite_time_ok L"
    and "crypto_ok L" and "json_ok L clean" and "clean_meta clean meta"
    and "look_local (entries_of w) (uuid_String L i) = Some (entry_to_row L e b u)" and "ce_UUID e = i" and "\<not> ce_IsDeleted e"
    and "dv_crypto (wd_device w) u = Some sv" and "remote_params uc u w = None \<or> remote_params uc u w = Some sv"
    and "accepts L sv mp" and "open_entry L e (DeriveMasterKey L mp (fst sv)) = Inr old"
  shows "(if ce_Type e \<noteq> typ
    then updateEntryReplaceContent L ev uc i typ meta plaintext mp w = (Inl (Sentinel ErrWrongEntryType), w)
    else \<exists>e' w'. updateEntryReplaceContent L ev uc i typ meta plaintext mp w = (Inr (), w') \<and>
      next_version L i w w' e' \<and> wd_skeeper w' = wd_skeeper w \<and>
      GetDecryptedEntry L ev2 uc i mp w' = (Inr \<lparr>de_Payload = plaintext, de_Meta = shown_meta typ meta, de_Type = typ\<rparr>, w'))"
proof -
  note settled = params_settled [OF assms(12,13)]
  note run = update_run [OF assms(1,3-5,9) _ _ _ assms(6-8), unfolded settled, of mp old "typ" plaintext]
  show ?thesis
  proof (cases "ce_Type e = typ")
    case False
    with run assms(11,14,15) show ?thesis by simp
  next
    case True
    with run assms(11,14,15) obtain e' where re: "resealed ev e NowSeal u e'"
      and op: "open_entry L e' (DeriveMasterKey L mp (fst sv)) = Inr (plaintext, meta)"
      and upd: "updateEntryReplaceContent L ev uc i typ meta plaintext mp w = (Inr (), set_params u sv (put_entry L e' u w))"
      by auto
    let ?w = "set_params u sv (put_entry L e' u w)"
    have id: "ce_UUID e' = i" "ce_IsDeleted e' = False" "ce_Type e' = typ"
      using re assms(10,11) True by (simp_all add: resealed_def)
    have "dv_crypto (wd_device ?w) u = Some sv" "remote_params uc u ?w = None \<or> remote_params uc u ?w = Some sv"
      using assms(13) by simp_all
    note settled' = params_settled [OF this]
    have sizes: "length (fst sv) = 16" "snd sv = [] \<or> length (snd sv) = 32"
      using params_sizes(1,2) [OF assms(1)] by (simp_all add: settled)
    have rdy: "ready L ev2 S uc u ?w" using ready_after [OF assms(2) sizes] by simp
    have look: "look_local (entries_of ?w) (uuid_String L i) = Some (entry_to_row L e' True u)"
      using look_put_entry [of L e' True u "entries_of w"] by (simp add: id)
    have "GetDecryptedEntry L ev2 uc i mp ?w =
        (Inr \<lparr>de_Payload = plaintext, de_Meta = shown_meta typ meta, de_Type = typ\<rparr>, ?w)"
      using get_run [OF rdy local_ok_put_opens(2) [OF assms(3) op] assms(4,5) look id(1,2), of mp] assms(14) op
      by (simp only: settled' id if_True sum.case prod.case)
    moreover have "next_version L i w ?w e'"
      using re assms(9,11) id by (auto simp: next_version_def resealed_def entry_to_row_def)
    ultimately show ?thesis using upd True by (intro if_not_P [THEN iffD2]) auto
  qed
qed

lemma ListLocal_run:
  assumes "no_faults ev" and "signed_as L u w"
  shows "ListLocal L ev w = (map_result (scan_entry L) (rev (sort_key le_UpdatedAt
      (filter (\<lambda>r. \<not> le_IsDeleted r \<and> for_user (Some u) r) (entries_of w)))), w)"
proof -
  have uid: "requireAutherUserID L (call_at 1 ev) w = (Inr u, w)"
    using assms by (intro requireAutherUserID_run) simp_all
  show ?thesis
    unfolding ListLocal_def bind_m_def uid
    by (simp add: on_device_apply ListEntries_def assms(1) read_rows_ok gets_def bind_m_def of_result_def ret_def)
qed

lemma map_result_member: "map_result f xs = Inr ys \<Longrightarrow> y \<in> set ys \<Longrightarrow> \<exists>x\<in>set xs. f x = Inr y"
  by (induction xs arbitrary: ys) (auto split: sum.splits)

text \<open>Every stored uuid is written in its canonical form, as \<open>saveEntry\<close> writes it.\<close>

definition canonical :: "lib \<Rightarrow> local_row list \<Rightarrow> bool" where
  "canonical L rows \<longleftrightarrow> (\<forall>r\<in>set rows. \<exists>j. le_UUID r = uuid_String L j)"

lemma canonical_put: "canonical L rows \<Longrightarrow> canonical L (put_row le_UUID (entry_to_row L e b u) rows)"
  unfolding canonical_def
proof
  fix r assume rows: "\<forall>r\<in>set rows. \<exists>j. le_UUID r = uuid_String L j"
    and "r \<in> set (put_row le_UUID (entry_to_row L e b u) rows)"
  then consider "r = entry_to_row L e b u" | "r \<in> set rows"
    using set_put_row_subset [of le_UUID "entry_to_row L e b u" rows] by blast
  then show "\<exists>j. le_UUID r = uuid_String L j" by cases (auto simp: rows)
qed

text \<open>What the list shows are the rows that are there and not deleted.\<close>

lemma ListLocal_shows:
  assumes "no_faults ev" and "signed_as L u w" and "local_ok (wd_device w)" and "uuid_ok L" and "canonical L (entries_of w)"
    and "ListLocal L ev w = (Inr listed, w)" and "x \<in> set listed"
  shows "\<exists>r. look_local (entries_of w) (uuid_String L (ce_UUID x)) = Some r \<and> \<not> le_IsDeleted r"
proof -
  from assms(6) have "map_result (scan_entry L) (rev (sort_key le_UpdatedAt
      (filter (\<lambda>r. \<not> le_IsDeleted r \<and> for_user (Some u) r) (entries_of w)))) = Inr listed"
    unfolding ListLocal_run [OF assms(1,2)] prod.inject by (rule conjunct1)
  from map_result_member [OF this assms(7)] obtain r
    where r: "r \<in> set (entries_of w)" "\<not> le_IsDeleted r" "scan_entry L r = Inr x"
    unfolding set_rev set_sort set_filter by blast
  from r(1) obtain j where j: "le_UUID r = uuid_String L j"
    using assms(5) by (auto simp: canonical_def)
  from r(3) have "uuid_Parse L (le_UUID r) = Some (ce_UUID x)"
    by (auto simp: scan_entry_def row_entry_def split: sum.splits option.splits)
  then have "le_UUID r = uuid_String L (ce_UUID x)"
    by (simp add: j uuid_Parse_String [OF assms(4)])
  with assms(3) r(1) have "look_local (entries_of w) (uuid_String L (ce_UUID x)) = Some r"
    by (simp add: local_ok_def find_row_Some_iff)
  with r(2) show ?thesis by blast
qed


text \<open>
  C22: Changing only the name of a file keeps the file. An update of a file entry without a new
  path re-seals the metadata under the same data key: the stored bytes stay as they are, and
  reading returns the old content under the new name and notes, with the original file name
  and, unless new ones are given, the old tags.
\<close>

theorem update_file_keeps_content:
  assumes "ready L ev S uc u w" and "ready L ev2 S uc u w" and "local_ok (wd_device w)" and "uuid_ok L" and "sqlite_time_ok L"
    and "crypto_ok L" and "json_ok L clean" and "clean_meta clean (merge_file_meta stored meta)"
    and "look_local (entries_of w) (uuid_String L i) = Some (entry_to_row L e b u)" and "ce_UUID e = i" and "\<not> ce_IsDeleted e"
    and "dv_crypto (wd_device w) u = Some sv" and "remote_params uc u w = None \<or> remote_params uc u w = Some sv"
    and "accepts L sv mp" and "open_entry L e (DeriveMasterKey L mp (fst sv)) = Inr (payload, stored)"
    and "ce_Type e = EntryTypeFile"
  shows "\<exists>e' w' shown. UpdateFile L ev uc i meta mp False newFile newName w = (Inr (), w') \<and>
    next_version L i w w' e' \<and> ce_Payload e' = ce_Payload e \<and>
    GetDecryptedEntry L ev2 uc i mp w' = (Inr \<lparr>de_Payload = payload, de_Meta = shown, de_Type = EntryTypeFile\<rparr>, w') \<and>
    md_Name shown = md_Name meta \<and> md_Notes shown = md_Notes meta \<and>
    (md_OriginalFilename stored \<noteq> [] \<longrightarrow> md_OriginalFilename shown = md_OriginalFilename stored) \<and>
    md_ExtraTags shown = (if md_ExtraTags meta = None then md_ExtraTags stored else md_ExtraTags meta)"
proof -
  note settled = params_settled [OF assms(12,13)]
  have live: "ce_IsDeleted e = False" using assms(11) by simp
  from update_file_run [OF assms(1,3-5,9) live _ _ assms(6,7,16,8), unfolded settled, OF assms(14,15), of newFile newName]
  obtain e' rd where re: "resealed ev e rd u e'"
    and op: "open_entry L e' (DeriveMasterKey L mp (fst sv)) = Inr (payload, merge_file_meta stored meta)"
    and keep: "ce_Payload e' = ce_Payload e"
    and upd: "UpdateFile L ev uc i meta mp False newFile newName w = (Inr (), set_params u sv (put_entry L e' u w))"
    by (elim exE conjE)
  let ?w = "set_params u sv (put_entry L e' u w)"
  have id: "ce_UUID e' = i" "ce_IsDeleted e' = False" "ce_Type e' = EntryTypeFile"
    using re assms(10,11,16) by (simp_all add: resealed_def)
  have "dv_crypto (wd_device ?w) u = Some sv" "remote_params uc u ?w = None \<or> remote_params uc u ?w = Some sv"
    using assms(13) by simp_all
  note settled' = params_settled [OF this]
  have sizes: "length (fst sv) = 16" "snd sv = [] \<or> length (snd sv) = 32"
    using params_sizes(1,2) [OF assms(1)] by (simp_all add: settled)
  have rdy: "ready L ev2 S uc u ?w" using ready_after [OF assms(2) sizes] by simp
  have look: "look_local (entries_of ?w) (uuid_String L i) = Some (entry_to_row L e' True u)"
    using look_put_entry [of L e' True u "entries_of w"] by (simp add: id)
  have get: "GetDecryptedEntry L ev2 uc i mp ?w = (Inr \<lparr>de_Payload = payload,
      de_Meta = shown_meta EntryTypeFile (merge_file_meta stored meta), de_Type = EntryTypeFile\<rparr>, ?w)"
    using get_run [OF rdy local_ok_put_opens(2) [OF assms(3) op] assms(4,5) look id(1,2), of mp] assms(14) op
    by (simp only: settled' id if_True sum.case prod.case)
  have next': "next_version L i w ?w e'"
    using re assms(9,11) id by (auto simp: next_version_def resealed_def entry_to_row_def)
  show ?thesis
    by (intro exI conjI, rule upd, rule next', rule keep, rule get) (simp_all add: shown_meta_def merge_file_meta_def)
qed

section \<open>A concrete vault\<close>

definition toy_secrets :: secret_uc where
  "toy_secrets = NewSecretUseCase (Some (wired_vault toy toy_services)) 0"

definition toy_meta :: entry_metadata where
  "toy_meta = \<lparr>md_Name = ''mail'', md_Notes = [], md_OriginalFilename = [], md_ExtraTags = None\<rparr>"

lemma toy_meta_clean: "clean_meta (\<lambda>_. True) toy_meta" "clean_meta (\<lambda>_. True) (merge_file_meta toy_meta toy_meta)"
  by (simp_all add: clean_meta_def toy_meta_def merge_file_meta_def)

lemma toy_json_ok_all: "json_ok toy (\<lambda>_. True)"
  by (rule toy_json_ok)

lemma params_ok_signed: "params_ok signed_world"
proof (rule signed_device)
  fix row assume "wd_device signed_world = empty_device\<lparr>dv_session := Some row\<rparr>"
  then show ?thesis by (auto simp: params_ok_def empty_device_def, auto simp: signed_world_def toy_db_def split: if_splits)
qed

lemma signed_world_ready: "ready toy (calm (Unix_Ns 0)) toy_services toy_secrets 1 signed_world"
  using online_signed [OF signed_world_online] signed_world_online params_ok_signed
  by (simp add: ready_def toy_secrets_def NewSecretUseCase_def)

lemma signed_world_local: "local_ok (wd_device signed_world)" "canonical toy (entries_of signed_world)"
  "dv_crypto (wd_device signed_world) = Map.empty" "wd_skeeper signed_world = toy_db"
proof -
  obtain row where d: "wd_device signed_world = empty_device\<lparr>dv_session := Some row\<rparr>" by (rule signed_device)
  show "local_ok (wd_device signed_world)" by (simp only: d) (simp add: empty_device_def local_ok_def)
  show "canonical toy (entries_of signed_world)" by (simp only: d) (simp add: empty_device_def canonical_def)
  show "dv_crypto (wd_device signed_world) = Map.empty" by (simp only: d) (simp add: empty_device_def)
  show "wd_skeeper signed_world = toy_db" by (simp add: signed_world_def)
qed

lemma signed_world_accepts: "accepts toy (params ev toy_secrets 1 signed_world) mp"
proof -
  have "remote_params toy_secrets 1 signed_world = None"
    by (simp add: remote_params_def signed_world_local(4) toy_db_def)
  then have "snd (params ev toy_secrets 1 signed_world) = []"
    by (simp add: params_def signed_world_local(3))
  then show ?thesis by (simp add: accepts_def)
qed

theorem set_then_get_witness:
  "\<exists>w'. insertEncryptedEntry toy (calm (Unix_Ns 0)) toy_secrets EntryTypePassword toy_meta ''pw'' ''master'' signed_world = (Inr (), w') \<and>
    GetDecryptedEntry toy (calm (Unix_Ns 0)) toy_secrets 7 ''master'' w' =
      (Inr \<lparr>de_Payload = ''pw'', de_Meta = toy_meta, de_Type = EntryTypePassword\<rparr>, w')"
  using set_then_get [OF signed_world_ready signed_world_ready signed_world_local(1) toy_uuid_ok toy_sqlite_time_ok toy_crypto_ok
      toy_json_ok_all toy_meta_clean(1) signed_world_accepts, of EntryTypePassword "''pw''" "''master''"]
  by (auto simp: calm_in_rpc shown_meta_def entry_type_defs)

theorem set_entry_answers_witness:
  "\<exists>w' e. insertEncryptedEntry toy (calm (Unix_Ns 0)) toy_secrets EntryTypeText toy_meta ''note'' ''master'' signed_world = (Inr (), w') \<and>
    entries_of w' = put_row le_UUID (entry_to_row toy e True 1) (entries_of signed_world) \<and> ce_UUID e = 7 \<and> ce_Version e = 1"
  using set_entry_answers [OF signed_world_ready toy_crypto_ok toy_json_ok_all toy_meta_clean(1),
      of "''master''" EntryTypeText "''note''"] signed_world_accepts [of "call_at 2 (calm (Unix_Ns 0))" "''master''"]
  unfolding Let_def by (auto simp: calm_in_rpc)

text \<open>The vault of a user whose master password is \<^verbatim>\<open>master\<close>, known on the device only.\<close>

definition local_secrets :: secret_uc where
  "local_secrets = NewSecretUseCase None 0"

definition vault_params :: "bytes \<times> bytes" where
  "vault_params = (replicate 16 CHR ''n'', MasterKeyVerifier toy (DeriveMasterKey toy ''master'' (replicate 16 CHR ''n'')))"

definition vaulted_world :: world where
  "vaulted_world = set_params 1 vault_params signed_world"

lemma vault_params_size: "length (fst vault_params) = 16" "length (snd vault_params) = 32"
  by (simp_all add: vault_params_def toy_crypto_ok)

lemma vaulted_settled: "params ev local_secrets 1 vaulted_world = vault_params"
  "dv_crypto (wd_device vaulted_world) 1 = Some vault_params"
  "remote_params local_secrets 1 vaulted_world = None"
  by (simp_all add: params_def remote_params_def local_secrets_def NewSecretUseCase_def vaulted_world_def)

lemma vaulted_world_ready: "ready toy (calm (Unix_Ns 0)) toy_services local_secrets 1 (put_entry toy e 1 vaulted_world)"
  "ready toy (calm (Unix_Ns 0)) toy_services local_secrets 1 vaulted_world"
proof -
  have r: "ready toy (calm (Unix_Ns 0)) toy_services local_secrets 1 signed_world"
    using online_signed [OF signed_world_online] params_ok_signed
    by (simp add: ready_def local_secrets_def NewSecretUseCase_def)
  have sz: "\<forall>s v. vault_params = (s, v) \<longrightarrow> length s = 16 \<and> (v = [] \<or> length v = 32)"
    using vault_params_size by (metis fst_conv snd_conv)
  have p: "params_ok vaulted_world" "params_ok (put_entry toy e 1 vaulted_world)"
    using params_ok_signed sz by (simp_all add: params_ok_def vaulted_world_def)
  show "ready toy (calm (Unix_Ns 0)) toy_services local_secrets 1 vaulted_world"
    by (rule ready_cong [OF r _ _ p(1)]) (simp_all add: vaulted_world_def)
  then show "ready toy (calm (Unix_Ns 0)) toy_services local_secrets 1 (put_entry toy e 1 vaulted_world)"
    by (rule ready_cong [OF _ _ _ p(2)]) simp_all
qed

lemma vaulted_local: "local_ok (wd_device vaulted_world)"
  "open_entry toy e mk = Inr x \<Longrightarrow> local_ok (wd_device (put_entry toy e 1 vaulted_world))"
  "canonical toy (entries_of (put_entry toy e 1 vaulted_world))"
proof -
  show ok: "local_ok (wd_device vaulted_world)"
    using signed_world_local(1) by (simp add: vaulted_world_def local_ok_def)
  show "local_ok (wd_device (put_entry toy e 1 vaulted_world))" if "open_entry toy e mk = Inr x"
    by (rule local_ok_put_opens(1) [OF ok that])
  show "canonical toy (entries_of (put_entry toy e 1 vaulted_world))"
    using signed_world_local(2) canonical_put [of toy "entries_of signed_world" e True 1] by (simp add: vaulted_world_def)
qed

lemma toy_verifier_hd:
  assumes "p \<noteq> []"
  shows "hd (MasterKeyVerifier toy (DeriveMasterKey toy p salt)) = hd p"
proof -
  have "argon2_IDKey toy = (\<lambda>p s t m h n. take n (p @ s @ replicate n CHR 0x00))"
    and "sha256_Sum256 toy = (\<lambda>d. take 32 (d @ replicate 32 CHR 0x00))"
    by (simp_all add: toy_def)
  then show ?thesis using assms
    by (simp add: MasterKeyVerifier_def DeriveMasterKey_def KeyLength_def hd_append)
qed

lemma toy_keys: "accepts toy vault_params ''master''" "\<not> accepts toy vault_params ''wrong''"
proof -
  show "accepts toy vault_params ''master''" by (simp add: accepts_def vault_params_def)
  have differ: "MasterKeyVerifier toy (DeriveMasterKey toy ''wrong'' s) \<noteq> MasterKeyVerifier toy (DeriveMasterKey toy ''master'' s)" for s
  proof
    assume "MasterKeyVerifier toy (DeriveMasterKey toy ''wrong'' s) = MasterKeyVerifier toy (DeriveMasterKey toy ''master'' s)"
    then have "hd ''wrong'' = hd ''master''"
      using toy_verifier_hd [of "''wrong''" s] toy_verifier_hd [of "''master''" s] by (simp only: list.distinct simp_thms)
    then show False by simp
  qed
  have "snd vault_params \<noteq> []" using vault_params_size(2) list.size(3) by (metis zero_neq_numeral)
  then show "\<not> accepts toy vault_params ''wrong''"
    by (simp only: accepts_def vault_params_def fst_conv snd_conv differ simp_thms)
qed

theorem wrong_master_password_refused_witness:
  "\<exists>e w'. insertEncryptedEntry toy (calm (Unix_Ns 0)) local_secrets EntryTypeText toy_meta ''x'' ''wrong'' vaulted_world = (Inl e, w') \<and>
    entries_of w' = entries_of vaulted_world"
proof -
  have no: "\<not> accepts toy (params (call_at 2 (calm (Unix_Ns 0))) local_secrets 1 vaulted_world) ''wrong''"
    by (simp add: vaulted_settled toy_keys)
  from wrong_master_password_refused [OF vaulted_world_ready(2) vaulted_local(1) no, of EntryTypeText toy_meta "''x''" 3 False "[]"]
  show ?thesis by auto
qed

theorem vault_commands_touch_one_row_witness:
  "\<exists>r w'. DeleteEntry toy (calm (Unix_Ns 0)) toy_secrets 3 ''master'' signed_world = (r, w') \<and>
    (entries_of w' = entries_of signed_world \<or> (\<exists>e. next_version toy 3 signed_world w' e \<and> ce_IsDeleted e))"
proof -
  have "wired toy toy_services toy_secrets" by (simp add: wired_def toy_secrets_def NewSecretUseCase_def)
  from vault_commands_touch_one_row [OF toy_uuid_ok signed_world_local(1) this]
  have touch: "\<forall>r w'. DeleteEntry toy (calm (Unix_Ns 0)) toy_secrets 3 ''master'' signed_world = (r, w') \<longrightarrow>
    entries_of w' = entries_of signed_world \<or> (\<exists>e. next_version toy 3 signed_world w' e \<and> ce_IsDeleted e)" by blast
  obtain r w' where run: "DeleteEntry toy (calm (Unix_Ns 0)) toy_secrets 3 ''master'' signed_world = (r, w')"
    by (cases "DeleteEntry toy (calm (Unix_Ns 0)) toy_secrets 3 ''master'' signed_world")
  with touch show ?thesis by blast
qed

text \<open>An entry of that vault.\<close>

lemma sealed_sample:
  obtains e where "ce_UUID e = 7" and "ce_Type e = typ" and "ce_IsDeleted e = False"
    and "open_entry toy e (DeriveMasterKey toy ''master'' (fst vault_params)) = Inr (''old'', toy_meta)"
proof -
  have "length (DeriveMasterKey toy ''master'' (fst vault_params)) = 32" by (simp add: toy_crypto_ok)
  from seal_opens [OF toy_crypto_ok toy_json_ok_all toy_meta_clean(1) this, of "calm (Unix_Ns 0)" "new_entry 7 typ" "''old''" 1]
  show thesis by (auto simp: resealed_def new_entry_def intro: that)
qed

lemma sealed_row:
  assumes "ce_UUID e = 7"
  shows "look_local (entries_of (put_entry toy e 1 vaulted_world)) (uuid_String toy 7) = Some (entry_to_row toy e True 1)"
  using look_put_entry [of toy e True 1 "entries_of vaulted_world"] assms by simp

lemma sealed_settled:
  "dv_crypto (wd_device (put_entry toy e 1 vaulted_world)) 1 = Some vault_params"
  "remote_params local_secrets 1 (put_entry toy e 1 vaulted_world) = None \<or> remote_params local_secrets 1 (put_entry toy e 1 vaulted_world) = Some vault_params"
  by (simp_all add: vaulted_settled)

theorem update_then_get_witness:
  "\<exists>w w'. updateEntryReplaceContent toy (calm (Unix_Ns 0)) local_secrets 7 EntryTypeText toy_meta ''new'' ''master'' w = (Inr (), w') \<and>
    GetDecryptedEntry toy (calm (Unix_Ns 0)) local_secrets 7 ''master'' w' =
      (Inr \<lparr>de_Payload = ''new'', de_Meta = toy_meta, de_Type = EntryTypeText\<rparr>, w')"
proof -
  obtain e where e: "ce_UUID e = 7" "ce_Type e = EntryTypeText" "ce_IsDeleted e = False"
    and op: "open_entry toy e (DeriveMasterKey toy ''master'' (fst vault_params)) = Inr (''old'', toy_meta)" by (rule sealed_sample)
  have live: "\<not> ce_IsDeleted e" using e(3) by simp
  from update_then_get [OF vaulted_world_ready(1) vaulted_world_ready(1) vaulted_local(2) [OF op] toy_uuid_ok toy_sqlite_time_ok toy_crypto_ok
      toy_json_ok_all toy_meta_clean(1) sealed_row [OF e(1)] e(1) live sealed_settled toy_keys(1) op, of EntryTypeText "''new''"]
  show ?thesis by (auto simp: e(2) shown_meta_def entry_type_defs)
qed


theorem update_file_keeps_content_witness:
  "\<exists>w w' shown. UpdateFile toy (calm (Unix_Ns 0)) local_secrets 7 toy_meta ''master'' False [] [] w = (Inr (), w') \<and>
    GetDecryptedEntry toy (calm (Unix_Ns 0)) local_secrets 7 ''master'' w' =
      (Inr \<lparr>de_Payload = ''old'', de_Meta = shown, de_Type = EntryTypeFile\<rparr>, w') \<and> md_Name shown = ''mail''"
proof -
  obtain e where e: "ce_UUID e = 7" "ce_Type e = EntryTypeFile" "ce_IsDeleted e = False"
    and op: "open_entry toy e (DeriveMasterKey toy ''master'' (fst vault_params)) = Inr (''old'', toy_meta)" by (rule sealed_sample)
  have live: "\<not> ce_IsDeleted e" using e(3) by simp
  from update_file_keeps_content [OF vaulted_world_ready(1) vaulted_world_ready(1) vaulted_local(2) [OF op] toy_uuid_ok toy_sqlite_time_ok toy_crypto_ok
      toy_json_ok_all toy_meta_clean(2) sealed_row [OF e(1)] e(1) live sealed_settled toy_keys(1) op e(2), of "[]" "[]"]
  show ?thesis by (auto simp: toy_meta_def)
qed

end
