(* ===== verification/Sync_Properties.thy ===== *)
theory Sync_Properties
  imports Sync_Usecase Secret_Properties
begin

text \<open>
  What a sync round does to the device and to the server, and what it never does: the exact
  effect on every uuid, the safety of local edits under failures, when devices agree afterwards
  and when they do not.
\<close>

section \<open>The effect of a round\<close>

abbreviation server_row :: "world \<Rightarrow> int64 \<Rightarrow> uuid \<Rightarrow> entryDB option" where
  "server_row w u i \<equiv> look_entry (db_entries (wd_skeeper w)) (u, i)"

abbreviation device_row :: "lib \<Rightarrow> world \<Rightarrow> uuid \<Rightarrow> local_row option" where
  "device_row L w i \<equiv> look_local (entries_of w) (uuid_String L i)"

definition sync_server :: "lib \<Rightarrow> int64 \<Rightarrow> world \<Rightarrow> skeeper_db" where
  "sync_server L u w = push_result L u (map to_server (dirty_of L u (entries_of w))) (wd_skeeper w)"

definition sync_updates :: "lib \<Rightarrow> int64 \<Rightarrow> world \<Rightarrow> client_entry list" where
  "sync_updates L u w = map to_client (pulled L u (cursor_of L u (entries_of w)) (sync_server L u w))"

definition sync_applied :: "lib \<Rightarrow> int64 \<Rightarrow> world \<Rightarrow> uuid set" where
  "sync_applied L u w = set (accepted u (wd_skeeper w) (map to_server (dirty_of L u (entries_of w))))"

definition synced_world :: "lib \<Rightarrow> int64 \<Rightarrow> world \<Rightarrow> world" where
  "synced_world L u w = w\<lparr>wd_skeeper := sync_server L u w,
     wd_device := synced L u (sync_updates L u w) (dirty_of L u (entries_of w)) (sync_applied L u w) (wd_device w)\<rparr>"

text \<open>Well-formed tables on both sides.\<close>

definition sync_ok :: "lib \<Rightarrow> world \<Rightarrow> bool" where
  "sync_ok L w \<longleftrightarrow> local_ok (wd_device w) \<and> written L (entries_of w) \<and> entries_ok (wd_skeeper w)"

lemma sync_okD:
  assumes "sync_ok L w"
  shows "unique_keys le_UUID (entries_of w)" "written L (entries_of w)" "unique_keys entry_key (db_entries (wd_skeeper w))"
    "local_ok (wd_device w)" "entries_ok (wd_skeeper w)"
  using assms entries_okD(1) by (auto simp: sync_ok_def local_ok_def)

lemma sync_okD_syncable:
  assumes "sync_ok L w"
  shows "\<forall>e\<in>set (dirty_of L u (entries_of w)). syncable e" "entries_ok (sync_server L u w)"
    "\<forall>e\<in>set (sync_updates L u w). syncable e"
proof -
  note ok = sync_okD [OF assms]
  show dirty: "\<forall>e\<in>set (dirty_of L u (entries_of w)). syncable e" by (rule dirty_syncable [OF ok(2,4)])
  show "entries_ok (sync_server L u w)"
    unfolding sync_server_def push_result_def by (rule entries_ok_fold_gate [OF ok(5)]) (use dirty in simp)
  then show "\<forall>e\<in>set (sync_updates L u w). syncable e"
    unfolding sync_updates_def by (rule pulled_syncable)
qed

lemma Sync_require_run:
  "no_faults ev \<Longrightarrow> signed_as L u w \<Longrightarrow> Sync_requireAutherUserID L ev w = (Inr u, w)"
  by (auto simp: signed_as_def Sync_requireAutherUserID_def attempt_def on_device_apply GetSession_reads bind_m_def
      session_user_def ret_def)

lemma sync_run:
  assumes "no_faults ev" and "online L ev S u w" and "uuid_ok L" and "sqlite_time_ok L" and "sync_ok L w"
  shows "SyncUseCase_Sync L ev (NewSyncUseCase (wired_sync L S)) w = (Inr (), synced_world L u w)"
proof -
  let ?D = "dirty_of L u (entries_of w)" and ?C = "cursor_of L u (entries_of w)"
  note ok = sync_okD [OF assms(5)]
  have uid: "Sync_requireAutherUserID L (call_at 1 ev) w = (Inr u, w)"
    by (rule Sync_require_run) (use assms(1) online_signed [OF assms(2)] in simp_all)
  have dirty: "GetDirtyEntries L ev (Some u) (wd_device w) = (Inr ?D, wd_device w)"
    by (rule dirty_run [OF assms(1,3,4) ok(2)])
  have "no_faults (call_at 2 ev)" and "online L (call_at 2 ev) S u w" using assms(1,2) by simp_all
  note rpc = Client_Sync_run [OF this assms(3) distinct_dirty [OF assms(3,4) ok(2,1)] sync_okD_syncable(1) [OF assms(5)], of u ?C]
  have "\<forall>e\<in>set (sync_updates L u w). sealed e" using sync_okD_syncable(3) [OF assms(5)] by (simp add: syncable_iff)
  note merge = PersistSyncResult_ok [OF assms(1) this, unfolded sync_updates_def sync_server_def map_map]
  show ?thesis
    unfolding SyncUseCase_Sync_def bind_m_def uid prod.case sum.case
    by (simp add: map_err_def on_device_apply dirty cursor_run [OF assms(1)] NewSyncUseCase_def rpc
        merge synced_world_def sync_server_def sync_updates_def sync_applied_def)
qed

lemma sync_ok_synced: "sync_ok L w \<Longrightarrow> sync_ok L (synced_world L u w)"
  using local_ok_synced [of "wd_device w" "sync_updates L u w"] sync_okD_syncable(2,3) [of L w u]
  by (simp add: sync_ok_def synced_world_def syncable_iff) (simp add: synced_def written_marked written_merged)

lemma synced_world_sel [simp]:
  "wd_auther (synced_world L u w) = wd_auther w" "db_vault (wd_skeeper (synced_world L u w)) = db_vault (wd_skeeper w)"
  "dv_session (wd_device (synced_world L u w)) = dv_session (wd_device w)"
  "dv_sessionKey (wd_device (synced_world L u w)) = dv_sessionKey (wd_device w)"
  "dv_crypto (wd_device (synced_world L u w)) = dv_crypto (wd_device w)"
  by (simp_all add: synced_world_def synced_def sync_server_def push_result_def)

text \<open>The server's side, uuid by uuid.\<close>

lemma to_server_sel [simp]: "se_UUID (to_server e) = ce_UUID e" "se_Version (to_server e) = ce_Version e"
  by (simp_all add: to_server_def)

lemma lww_None [simp]: "lww s None = s"
  by (simp add: lww_def)

lemma look_pushed:
  "look_entry (map (\<lambda>e. entry_row L u (to_server e)) es) (v, i)
    = (if v = u then map_option (\<lambda>e. entry_row L u (to_server e)) (find_row ce_UUID es i) else None)"
  by (induction es) auto

lemma synced_server_row:
  assumes "uuid_ok L" and "sqlite_time_ok L" and "sync_ok L w"
  shows "server_row (synced_world L u w) v i =
    (if v = u then lww (server_row w u i) (map_option (\<lambda>e. entry_row L u (to_server e)) (local_edit L u w i)) else server_row w v i)"
proof -
  let ?D = "dirty_of L u (entries_of w)"
  note ok = sync_okD [OF assms(3)]
  have same: "map (se_UUID \<circ> to_server) ?D = map ce_UUID ?D" by simp
  have "distinct (map entry_key (map (entry_row L u) (map to_server ?D)))"
    by (rule distinct_entry_rows [THEN iffD2]) (simp only: map_map same distinct_dirty [OF assms(1,2) ok(2,1)])
  from look_fold_gate_distinct [OF ok(3) this]
  have "server_row (synced_world L u w) v i
      = lww (server_row w v i) (look_entry (map (\<lambda>e. entry_row L u (to_server e)) ?D) (v, i))"
    by (simp add: synced_world_def sync_server_def push_result_def o_def)
  then show ?thesis
    by (simp only: look_pushed find_dirty [OF assms(1,2) ok(2,1)] lww_None split: if_split) simp
qed

lemma image_of_one:
  "e \<in> D \<Longrightarrow> f e = i \<Longrightarrow> (\<And>e'. e' \<in> D \<Longrightarrow> f e' = i \<Longrightarrow> e' = e) \<Longrightarrow> i \<in> f ` {x \<in> D. P x} \<longleftrightarrow> P e"
  by blast

lemma sync_applied_iff:
  assumes "uuid_ok L" and "sqlite_time_ok L" and "sync_ok L w" and "local_edit L u w i = Some e"
  shows "i \<in> sync_applied L u w \<longleftrightarrow> (case server_row w u i of None \<Rightarrow> True | Some old \<Rightarrow> slt (er_Version old) (ce_Version e))"
proof -
  let ?D = "dirty_of L u (entries_of w)"
  note ok = sync_okD [OF assms(3)]
  have "unique_keys ce_UUID ?D" using distinct_dirty [OF assms(1,2) ok(2,1)] by (simp add: unique_keys_def)
  note iff = find_row_Some_iff [OF this, of i]
  have here: "find_row ce_UUID ?D i = Some e" using find_dirty [OF assms(1,2) ok(2,1)] assms(4) by simp
  then have only: "e' = e" if "e' \<in> set ?D" "ce_UUID e' = i" for e'
    using iff [THEN iffD2, OF conjI, OF that] here by simp
  have "sync_applied L u w = ce_UUID ` {e' \<in> set ?D. case server_row w u (ce_UUID e') of
      None \<Rightarrow> True | Some old \<Rightarrow> slt (er_Version old) (ce_Version e')}"
    by (simp add: sync_applied_def accepted_def filter_map image_image o_def cong: option.case_cong)
  moreover have e: "e \<in> set ?D" "ce_UUID e = i" using here iff by simp_all
  note image_of_one [where f = ce_UUID, OF e only, of "\<lambda>e'. case server_row w u (ce_UUID e') of None \<Rightarrow> True | Some old \<Rightarrow> slt (er_Version old) (ce_Version e')"]
  ultimately show ?thesis by (simp only: e(2))
qed

text \<open>The device's side.\<close>

lemma option_eqI_Some: "(\<And>r. a = Some r \<longleftrightarrow> b = Some r) \<Longrightarrow> a = b"
  by (cases a; cases b) auto

lemma find_row_rev: "unique_keys key rs \<Longrightarrow> find_row key (rev rs) k = find_row key rs k"
proof -
  assume u: "unique_keys key rs"
  have "unique_keys key (rev rs)" using u by (simp add: unique_keys_def rev_map [symmetric])
  then have "find_row key (rev rs) k = Some r \<longleftrightarrow> find_row key rs k = Some r" for r
    by (simp add: find_row_Some_iff u)
  then show ?thesis by (rule option_eqI_Some)
qed

lemma find_row_sorted:
  assumes "unique_keys key xs" and "distinct (map key xs)"
  shows "find_row key (sort_key f xs) k = find_row key xs k"
proof -
  have "unique_keys key (sort_key f xs)" using assms(2) by (simp add: unique_keys_def distinct_map)
  then have "find_row key (sort_key f xs) k = Some r \<longleftrightarrow> find_row key xs k = Some r" for r
    by (simp add: find_row_Some_iff assms(1))
  then show ?thesis by (rule option_eqI_Some)
qed

lemma look_pulled:
  assumes "entries_ok db"
  shows "find_row ce_UUID (rev (map to_client (pulled L u t db))) i =
    (case look_entry (db_entries db) (u, i) of
       None \<Rightarrow> None
     | Some r \<Rightarrow> if pg_timestamptz L t < er_UpdatedAt r then Some (to_client (toDomain r)) else None)"
proof -
  let ?p = "\<lambda>r. er_UserID r = u \<and> pg_timestamptz L t < er_UpdatedAt r"
  let ?rs = "sort_key er_UpdatedAt (filter ?p (db_entries db))"
  have d: "distinct (map entry_key (filter ?p (db_entries db)))"
    using entries_okD(1) [OF assms] unique_keys_filter [of entry_key "db_entries db" ?p] by (simp add: unique_keys_def)
  have ids: "ce_UUID (to_client (toDomain r)) = er_UUID r" for r by (simp add: to_client_def toDomain_def)
  have "inj_on er_UUID (set ?rs)"
  proof (rule inj_onI)
    fix x y assume "x \<in> set ?rs" "y \<in> set ?rs" "er_UUID x = er_UUID y"
    then have "entry_key x = entry_key y" "x \<in> set (filter ?p (db_entries db))" "y \<in> set (filter ?p (db_entries db))"
      by (auto simp: entry_key_def)
    with d show "x = y" by (metis (no_types, lifting) distinct_map inj_onD)
  qed
  moreover have "distinct ?rs" using d by (simp add: distinct_map)
  ultimately have uk2: "unique_keys ce_UUID (map (\<lambda>r. to_client (toDomain r)) ?rs)"
    by (simp add: unique_keys_def distinct_map o_def ids inj_on_def)
  have "find_row ce_UUID (rev (map to_client (pulled L u t db))) i =
      find_row ce_UUID (map (\<lambda>r. to_client (toDomain r)) ?rs) i"
    using find_row_rev [OF uk2] by (simp add: pulled_def o_def)
  also have "\<dots> = map_option (\<lambda>r. to_client (toDomain r)) (find_row entry_key ?rs (u, i))"
    by (rule find_row_map) (simp add: ids entry_key_def)
  also have "find_row entry_key ?rs (u, i) = find_row entry_key (filter ?p (db_entries db)) (u, i)"
    using d by (intro find_row_sorted) (simp_all add: unique_keys_def)
  also have "\<dots> = (case look_entry (db_entries db) (u, i) of None \<Rightarrow> None | Some r \<Rightarrow> if ?p r then Some r else None)"
    using entries_okD(1) [OF assms] by (simp add: find_row_filter)
  finally have look: "find_row ce_UUID (rev (map to_client (pulled L u t db))) i =
      map_option (\<lambda>r. to_client (toDomain r))
        (case look_entry (db_entries db) (u, i) of None \<Rightarrow> None | Some r \<Rightarrow> if ?p r then Some r else None)" .
  show ?thesis
  proof (cases "look_entry (db_entries db) (u, i)")
    case (Some r)
    have "er_UserID r = u" using find_row_key [OF Some] by (simp add: entry_key_def)
    then show ?thesis by (simp add: look Some)
  qed (simp add: look)
qed

text \<open>
  Whether the server takes a pushed entry, and what the device's row is after its push was
  answered: clean if it was taken.
\<close>

definition took :: "entryDB option \<Rightarrow> client_entry \<Rightarrow> bool" where
  "took stored e \<longleftrightarrow> (case stored of None \<Rightarrow> True | Some old \<Rightarrow> slt (er_Version old) (ce_Version e))"

definition after_push :: "lib \<Rightarrow> int64 \<Rightarrow> world \<Rightarrow> uuid \<Rightarrow> local_row option" where
  "after_push L u w i = (case local_edit L u w i of
      None \<Rightarrow> device_row L w i
    | Some e \<Rightarrow> map_option (\<lambda>row. if took (server_row w u i) e then row\<lparr>le_IsDirty := False\<rparr> else row) (device_row L w i))"

lemma marked_row:
  assumes "uuid_ok L" and "sqlite_time_ok L" and "sync_ok L w"
  shows "map_option (\<lambda>row. if le_UserID row = u \<and> i \<in> sync_applied L u w \<and> i \<in> ce_UUID ` set (dirty_of L u (entries_of w))
      then row\<lparr>le_IsDirty := False\<rparr> else row) (device_row L w i) = after_push L u w i"
proof (cases "local_edit L u w i")
  case None
  with find_dirty [OF assms(1,2) sync_okD(2,1) [OF assms(3)], of u i]
  have "i \<notin> ce_UUID ` set (dirty_of L u (entries_of w))" by (simp add: find_row_None_iff)
  then show ?thesis by (simp add: after_push_def None option.map_ident)
next
  case (Some e)
  then obtain r where r: "device_row L w i = Some r" "le_UserID r = u"
    by (auto simp: local_edit_def split: option.splits if_splits)
  have "i \<in> ce_UUID ` set (dirty_of L u (entries_of w))"
    using find_dirty [OF assms(1,2) sync_okD(2,1) [OF assms(3)], of u i] Some
      find_row_None_iff [of ce_UUID "dirty_of L u (entries_of w)" i] by force
  then show ?thesis
    by (simp add: after_push_def Some r took_def sync_applied_iff [OF assms Some] del: image_iff cong: if_cong)
qed

lemma synced_device_row:
  assumes "uuid_ok L" and "sqlite_time_ok L" and "sync_ok L w"
  shows "device_row L (synced_world L u w) i = (case server_row (synced_world L u w) u i of
      None \<Rightarrow> after_push L u w i
    | Some r \<Rightarrow> if pg_timestamptz L (cursor_of L u (entries_of w)) < er_UpdatedAt r
        then Some (entry_to_row L (to_client (toDomain r)) False u) else after_push L u w i)"
proof -
  have ok: "entries_ok (sync_server L u w)"
    using sync_okD(5) [OF sync_ok_synced [OF assms(3)], of u] by (simp add: synced_world_def)
  have "device_row L (synced_world L u w) i = look_local (dv_entries
      (synced L u (sync_updates L u w) (dirty_of L u (entries_of w)) (sync_applied L u w) (wd_device w))) (uuid_String L i)"
    by (simp add: synced_world_def)
  also have "\<dots> = (case find_row ce_UUID (rev (sync_updates L u w)) i of
         Some e \<Rightarrow> Some (entry_to_row L e False u) | None \<Rightarrow> after_push L u w i)"
    unfolding look_synced [OF assms(1) sync_okD(4) [OF assms(3)]] marked_row [OF assms] ..
  finally show ?thesis
    unfolding sync_updates_def look_pulled [OF ok] by (simp add: synced_world_def split: option.split)
qed

text \<open>
  C10: One sync round, exactly. A signed-in device that reaches the server pushes the user's
  dirty entries, which the server merges by last write wins; what the server holds after the
  merge and is newer than the cursor replaces the device's row; every other pushed entry is
  marked clean if the server took it and stays dirty otherwise; all other rows, other users'
  rows on the server, the session and the vault parameters stay as they were.
\<close>

theorem sync_round:
  assumes "no_faults ev" and "online L ev S u w" and "uuid_ok L" and "sqlite_time_ok L" and "sync_ok L w"
  shows "\<exists>w'. SyncUseCase_Sync L ev (NewSyncUseCase (wired_sync L S)) w = (Inr (), w') \<and> sync_ok L w' \<and>
    wd_auther w' = wd_auther w \<and> db_vault (wd_skeeper w') = db_vault (wd_skeeper w) \<and>
    dv_session (wd_device w') = dv_session (wd_device w) \<and> dv_crypto (wd_device w') = dv_crypto (wd_device w) \<and>
    (\<forall>i. server_row w' u i = lww (server_row w u i) (map_option (\<lambda>e. entry_row L u (to_server e)) (local_edit L u w i))) \<and>
    (\<forall>v i. v \<noteq> u \<longrightarrow> server_row w' v i = server_row w v i) \<and>
    (\<forall>i. device_row L w' i = (case server_row w' u i of
        None \<Rightarrow> after_push L u w i
      | Some r \<Rightarrow> if pg_timestamptz L (cursor_of L u (entries_of w)) < er_UpdatedAt r
          then Some (entry_to_row L (to_client (toDomain r)) False u) else after_push L u w i))"
  unfolding sync_run [OF assms]
  by (intro exI [of _ "synced_world L u w"])
    (simp add: sync_ok_synced [OF assms(5)] synced_server_row [OF assms(3-5)] synced_device_row [OF assms(3-5)])

section \<open>Rounds in which calls fail\<close>

text \<open>
  A computation that succeeds although calls may fail does what it does when none fails:
  \<open>calmed ev\<close> is \<open>ev\<close> without its failures.
\<close>

definition calmed :: "env \<Rightarrow> env" where
  "calmed ev = ev\<lparr>fault := \<lambda>_ _. None\<rparr>"

lemma calmed_sel [simp]: "no_faults (calmed ev)" "time_now (calmed ev) r = time_now ev r"
  by (simp_all add: calmed_def no_faults_def time_now_def)

definition agrees :: "('s, 'e, 'a) cmd \<Rightarrow> ('s, 'e, 'a) cmd \<Rightarrow> bool" where
  "agrees c c' \<longleftrightarrow> (\<forall>s x t. c s = (Inr x, t) \<longrightarrow> c' s = (Inr x, t))"

named_theorems agrees_rules \<open>success under failures is success without them\<close>

lemma agreesD: "agrees c c' \<Longrightarrow> c s = (Inr x, t) \<Longrightarrow> c' s = (Inr x, t)"
  by (simp add: agrees_def)

lemma agrees_refl [agrees_rules]: "agrees c c"
  by (simp add: agrees_def)

lemma agrees_try_call [agrees_rules]: "agrees (try_call ev k) (try_call (calmed ev) k)"
  by (auto simp: agrees_def try_call_def raise_def calmed_def split: option.splits)

lemma agrees_bind [agrees_rules]:
  "agrees c c' \<Longrightarrow> (\<And>x. agrees (f x) (f' x)) \<Longrightarrow> agrees (bind_m c f) (bind_m c' f')"
  unfolding agrees_def by (blast elim: bind_m_InrE intro: bind_m_Inr [THEN trans])

lemma agrees_map_err [agrees_rules]: "agrees c c' \<Longrightarrow> agrees (map_err h c) (map_err h c')"
  by (auto simp: agrees_def map_err_def split: prod.splits sum.splits)

lemma agrees_if [agrees_rules]: "agrees c c' \<Longrightarrow> agrees d d' \<Longrightarrow> agrees (if b then c else d) (if b then c' else d')"
  by simp

lemma agrees_case_option [agrees_rules]:
  "agrees c c' \<Longrightarrow> (\<And>x. agrees (f x) (f' x)) \<Longrightarrow>
    agrees (case p of None \<Rightarrow> c | Some x \<Rightarrow> f x) (case p of None \<Rightarrow> c' | Some x \<Rightarrow> f' x)"
  by (simp split: option.split)

lemma agrees_ack_call [agrees_rules]: "agrees c c' \<Longrightarrow> agrees (ack_call ev k c) (ack_call (calmed ev) k c')"
  unfolding ack_call_def by (intro agrees_rules)

lemma agrees_Rpc_Sync: "agrees (Rpc_Sync L ev cx req) (Rpc_Sync L (calmed ev) cx req)"
  unfolding Rpc_Sync_def Uc_Sync_def UpsertEntries_def GetUpdatedAfter_def calmed_sel Let_def by (intro agrees_rules)

lemma agrees_read_rows [agrees_rules]: "agrees (read_rows ev call w scan i rs) (read_rows (calmed ev) call w scan i rs)"
proof (induction rs arbitrary: i)
  case (Cons r rs)
  show ?case by (simp only: read_rows.simps) (intro agrees_rules Cons.IH)
qed (simp only: read_rows.simps, intro agrees_rules)

lemma agrees_device_reads:
  "agrees (GetDirtyEntries L ev v) (GetDirtyEntries L (calmed ev) v)"
  "agrees (GetLastUpdate L ev v) (GetLastUpdate L (calmed ev) v)"
  "agrees (GetSession L ev) (GetSession L (calmed ev))"
  unfolding GetDirtyEntries_def GetLastUpdate_def GetSession_def by (intro agrees_rules)+

lemma GetSession_outcome:
  assumes "GetSession L ev d = (r, d')"
  shows "d' = d \<and> (r = session_of L d \<or> (\<exists>e. r = Inl e))"
proof -
  have d: "d' = d" using keepsD [OF keeps_GetSession assms, of "\<lambda>d. d"] .
  show ?thesis
  proof (cases r)
    case (Inr x)
    from agreesD [OF agrees_device_reads(3) assms [unfolded Inr]] show ?thesis
      by (auto simp: GetSession_reads Inr)
  qed (simp add: d)
qed

lemma net_call_outcome:
  assumes "net_call ev c w = (r, w')"
  shows "(\<exists>e. r = Inl e) \<and> w' = w \<or> (\<exists>h. c w = (h, w') \<and> (r = h \<or> (\<exists>e. r = Inl e)))"
  using assms by (cases "c w")
    (auto simp: net_call_def bind_m_def attempt_def try_call_def ret_def raise_def of_result_def split: option.splits)

text \<open>The token of a device that is online, or an error; the device stays as it is.\<close>

lemma provider_outcome:
  assumes "session_of L (wd_device w) = Inr (Some s)" and "time_until ev NowUntilAccess (sn_ExpiresAt s) > minute"
    and "wired_provider L S ev w = (r, w')"
  shows "w' = w \<and> (r = Inr (sn_AccessToken s) \<or> (\<exists>e. r = Inl e))"
proof -
  obtain g d where g: "GetSession L ev (wd_device w) = (g, d)" by (cases "GetSession L ev (wd_device w)")
  from GetSession_outcome [OF g] assms(1) have d: "d = wd_device w" and v: "g = Inr (Some s) \<or> (\<exists>e. g = Inl e)" by simp_all
  have "on_device (GetSession L ev) w = (g, w)" by (simp add: on_device_apply g d)
  then show ?thesis
    using v assms(2,3) by (auto simp: wired_provider_def Auth_GetValidToken_def bind_m_def ret_def)
qed

text \<open>A request of an online device fails, or reaches the handler as its user.\<close>

lemma skeeper_rpc_outcome:
  assumes "online L ev S u w" and "skeeper_rpc L ev S (wired_provider L S) call w = (r, w')"
  obtains (failed) e where "r = Inl e" and "w' = w"
    | (served) cx h db where "cx_UserID cx = Some u"
      and "handle_call L (call_at 2 ev) call cx (wd_skeeper w) = (h, db)"
      and "w' = w\<lparr>wd_skeeper := db\<rparr>" and "r = h \<or> (\<exists>e. r = Inl e)"
proof -
  from assms(1) obtain s where low: "strings_ToLower L ''Bearer'' = ''bearer''"
    and s: "session_of L (wd_device w) = Inr (Some s)" "CHR '' '' \<notin> set (sn_AccessToken s)"
    and t: "time_until (call_at 1 ev) NowUntilAccess (sn_ExpiresAt s) > minute"
    and acc: "accept_access (L, call_at 2 ev, sv_jwt S) (sn_AccessToken s) = Some u"
    by (auto simp: online_def call_at_def time_until_def time_now_def) (simp add: in_rpc_def)
  let ?cx = "incoming (''Bearer '' @ sn_AccessToken s)"
  have "authorize L (call_at 2 ev) (sv_jwt S) ?cx = Inr (SetUserID ?cx u)"
    by (rule authorize_bearer [OF acc s(2) low, where rest = "[]" and
        md = "\<lambda>key. if key = ''authorization'' then [''Bearer '' @ sn_AccessToken s] else []"])
      (simp_all add: incoming_def cong: if_cong)
  then have srv: "serve L (call_at 2 ev) (sv_jwt S) call ?cx = handle_call L (call_at 2 ev) call (SetUserID ?cx u)"
    by (simp add: serve_def AuthInterceptor_def)
  from assms(2) [unfolded skeeper_rpc_def newAuthInterceptor_def] show thesis
  proof (cases rule: bind_m_cases)
    case (err e)
    from provider_outcome [OF s(1) t err(1)] have "w' = w" by simp
    with err(2) show thesis by (rule failed)
  next
    case (ok tok w1)
    from provider_outcome [OF s(1) t ok(1)] have 1: "w1 = w" "tok = sn_AccessToken s" by simp_all
    obtain h db where h: "handle_call L (call_at 2 ev) call (SetUserID ?cx u) (wd_skeeper w) = (h, db)"
      by (cases "handle_call L (call_at 2 ev) call (SetUserID ?cx u) (wd_skeeper w)")
    let ?c = "on_skeeper (serve L (call_at 2 ev) (sv_jwt S) call ?cx)"
    have run: "?c w = (h, w\<lparr>wd_skeeper := db\<rparr>)" by (simp only: on_skeeper_apply srv h fst_conv snd_conv)
    have "net_call (call_at 2 ev) ?c w = (r, w')" using ok(2) by (simp only: 1)
    from net_call_outcome [OF this] show thesis
    proof (elim disjE exE conjE)
      fix e assume "r = Inl e" "w' = w" then show thesis by (rule failed)
    next
      fix h' assume "?c w = (h', w')" and r: "r = h'"
      with run have "h' = h" "w' = w\<lparr>wd_skeeper := db\<rparr>" by simp_all
      with r show thesis by (intro served [OF _ h]) (simp_all add: SetUserID_def)
    next
      fix h' e assume "?c w = (h', w')" and r: "r = Inl e"
      with run have "w' = w\<lparr>wd_skeeper := db\<rparr>" by simp
      with r show thesis by (intro served [OF _ h]) (simp_all add: SetUserID_def)
    qed
  qed
qed

text \<open>The sync call: it fails with the device as it was, or it exchanges everything.\<close>

lemma wired_sync_outcome:
  assumes "online L ev S u w" and "uuid_ok L" and "distinct (map ce_UUID es)" and "\<forall>e\<in>set es. syncable e"
    and "wired_sync L S ev es t w = (r, w')"
  shows "wd_device w' = wd_device w" and "r = Inr (updates, applied) \<Longrightarrow>
    w' = w\<lparr>wd_skeeper := push_result L u (map to_server es) (wd_skeeper w)\<rparr> \<and>
    updates = map to_client (pulled L u t (push_result L u (map to_server es) (wd_skeeper w))) \<and>
    applied = accepted u (wd_skeeper w) (map to_server es)"
proof -
  let ?m = "\<lparr>ps_Updates = map (clientEntryToProto L) es, ps_LastSyncAt = Some (timestamp_new t)\<rparr>"
  obtain r1 where rpc: "skeeper_rpc L ev S (wired_provider L S) (CallSync ?m) w = (r1, w')"
    and r: "r = Inr (updates, applied) \<Longrightarrow> \<exists>resp. r1 = Inr (ReplySync resp) \<and>
      read_updates L (pr_Updates resp) = Inr updates \<and> read_applied L (pr_AppliedUpdateUuids resp) = Inr applied"
    using assms(5) [unfolded wired_sync_def Client_Sync_def]
  proof (cases rule: bind_m_cases)
    case (ok reply w1)
    then show thesis
      by (intro that [of "Inr reply"]) (auto simp: bind_m_def of_result_def ret_def raise_def split: skeeper_reply.splits sum.splits)
  next
    case (err e)
    then show thesis by (intro that [of "Inl e"]) simp_all
  qed
  from skeeper_rpc_outcome [OF assms(1) rpc] show "wd_device w' = wd_device w" by cases simp_all
  assume "r = Inr (updates, applied)"
  from r [OF this] obtain resp where resp: "r1 = Inr (ReplySync resp)"
    "read_updates L (pr_Updates resp) = Inr updates" "read_applied L (pr_AppliedUpdateUuids resp) = Inr applied" by blast
  from assms(1) rpc show "w' = w\<lparr>wd_skeeper := push_result L u (map to_server es) (wd_skeeper w)\<rparr> \<and>
    updates = map to_client (pulled L u t (push_result L u (map to_server es) (wd_skeeper w))) \<and>
    applied = accepted u (wd_skeeper w) (map to_server es)"
  proof (cases rule: skeeper_rpc_outcome)
    case (served cx h db)
    from served(2,4) have "Rpc_Sync L (call_at 2 ev) cx ?m (wd_skeeper w) = (Inr resp, db)"
      by (auto simp: handle_call_def resp(1) ret_def elim!: bind_m_cases)
    from agreesD [OF agrees_Rpc_Sync this] show ?thesis
      using resp(2,3) served(3)
      by (auto simp: Rpc_Sync_answer [OF calmed_sel(1) served(1) assms(2-4)] SyncResponse_ToProto_def
          read_updates_run [OF assms(2)] read_applied_run [OF assms(2)])
  qed (simp add: resp(1))
qed

lemma keeps_reads: "keeps f (GetDirtyEntries L ev v)" "keeps f (GetLastUpdate L ev v)"
  unfolding GetDirtyEntries_def GetLastUpdate_def by (intro cmd_frame)+

lemma device_read_outcome:
  assumes "agrees c c'" and "keeps (\<lambda>d. d) c" and "c' (wd_device w) = (Inr v, wd_device w)" and "on_device c w = (x, w1)"
  shows "w1 = w \<and> (\<forall>y. x = Inr y \<longrightarrow> y = v)"
proof -
  obtain y d where run: "c (wd_device w) = (y, d)" by (cases "c (wd_device w)")
  have d: "d = wd_device w" using keepsD [OF assms(2) run] .
  have "y = Inr z \<Longrightarrow> z = v" for z using agreesD [OF assms(1), of "wd_device w" z d] run assms(3) by simp
  with assms(4) show ?thesis by (auto simp: on_device_apply run d)
qed

text \<open>The steps of a round, one by one. The reads leave the world as it is; who syncs is the signed-in
  user, and what is read are the dirty rows and the cursor of that user.\<close>

lemma sync_who:
  assumes "online L ev S u w" and "Sync_requireAutherUserID L (call_at 1 ev) w = (x, w1)"
  shows "w1 = w" and "x = Inr uid \<Longrightarrow> uid = u"
proof -
  obtain g d where g: "GetSession L (call_at 1 ev) (wd_device w) = (g, d)" by (cases "GetSession L (call_at 1 ev) (wd_device w)")
  from GetSession_outcome [OF g] online_signed [OF assms(1)] have d: "d = wd_device w"
    and v: "(\<exists>s. g = Inr (Some s) \<and> sn_UserID s = Some u) \<or> (\<exists>e. g = Inl e)" by (auto simp: signed_as_def)
  have "on_device (GetSession L (call_at 1 ev)) w = (g, w)" by (simp only: on_device_apply g d fst_conv snd_conv) simp
  then have "w1 = w \<and> (x = Inr uid \<longrightarrow> uid = u)"
    using v assms(2) by (auto simp: Sync_requireAutherUserID_def bind_m_def attempt_def ret_def raise_def session_user_def)
  then show "w1 = w" and "x = Inr uid \<Longrightarrow> uid = u" by simp_all
qed

lemma sync_reads_dirty:
  assumes "uuid_ok L" and "sqlite_time_ok L" and "sync_ok L w"
    and "map_err f (on_device (GetDirtyEntries L ev (Some u))) w = (x, w1)"
  shows "w1 = w" and "x = Inr D \<Longrightarrow> D = dirty_of L u (entries_of w)"
proof -
  have "w1 = w \<and> (x = Inr D \<longrightarrow> D = dirty_of L u (entries_of w))"
    using device_read_outcome [OF agrees_device_reads(1) _ dirty_run [OF calmed_sel(1) assms(1,2) sync_okD(2) [OF assms(3)]], of ev u]
      assms(4) by (auto simp: map_err_def keeps_reads split: prod.splits sum.splits)
  then show "w1 = w" and "x = Inr D \<Longrightarrow> D = dirty_of L u (entries_of w)" by simp_all
qed

lemma sync_reads_cursor:
  assumes "on_device (GetLastUpdate L ev (Some u)) w = (x, w1)"
  shows "w1 = w" and "x = Inr t \<Longrightarrow> t = cursor_of L u (entries_of w)"
  using device_read_outcome [OF agrees_device_reads(2) keeps_reads(2) cursor_run [OF calmed_sel(1)] assms] by auto

lemma sync_reads:
  assumes "online L ev S u w" and "uuid_ok L" and "sqlite_time_ok L" and "sync_ok L w"
    and "SyncUseCase_Sync L ev uc w = (r, w')"
  obtains (untouched) e where "w' = w" and "r = Inl e"
  | (read) "bind_m (map_err (\<lambda>e. Wrap (Some e) ''grpc sync call'')
        (sy_remote uc (call_at 2 ev) (dirty_of L u (entries_of w)) (cursor_of L u (entries_of w))))
      (\<lambda>(updates, applied). map_err (\<lambda>e. Wrap (Some e) ''persist sync'')
        (on_device (PersistSyncResult L ev u updates (dirty_of L u (entries_of w)) (set applied)))) w = (r, w')"
proof -
  from assms(5) [unfolded SyncUseCase_Sync_def] show thesis
  proof (cases rule: bind_m_cases)
    case (err e)
    with sync_who(1) [OF assms(1) err(1)] show thesis by (intro untouched) simp_all
  next
    case (ok uid w1)
    note rest = ok(2) [unfolded sync_who(1) [OF assms(1) ok(1)] sync_who(2) [OF assms(1) ok(1) refl]]
    from rest show thesis
    proof (cases rule: bind_m_cases)
      case (err e)
      with sync_reads_dirty(1) [OF assms(2-4) err(1)] show thesis by (intro untouched) simp_all
    next
      case (ok D w2)
      note rest = ok(2) [unfolded sync_reads_dirty(1) [OF assms(2-4) ok(1)] sync_reads_dirty(2) [OF assms(2-4) ok(1) refl]]
      from rest show thesis
      proof (cases rule: bind_m_cases)
        case (err e)
        with sync_reads_cursor(1) [OF err(1)] show thesis by (intro untouched) simp_all
      next
        case (ok t w3)
        show thesis using ok(2) unfolding sync_reads_cursor(1) [OF ok(1)] sync_reads_cursor(2) [OF ok(1) refl] by (rule read)
      qed
    qed
  qed
qed

text \<open>The exchange and the write-back: the part of a round after the reads.\<close>

lemma sync_exchange_outcome:
  assumes "online L ev S u w" and "uuid_ok L" and "sqlite_time_ok L" and "sync_ok L w"
    and run: "wired_sync L S (call_at 2 ev) (dirty_of L u (entries_of w)) (cursor_of L u (entries_of w)) w = (Inr (news, applied), w4)"
    and fin: "on_device (PersistSyncResult L ev u news (dirty_of L u (entries_of w)) (set applied)) w4 = (p, w')"
  obtains (untouched) e where "wd_device w' = wd_device w" and "p = Inl e" | (complete) "w' = synced_world L u w"
proof -
  let ?D = "dirty_of L u (entries_of w)" and ?C = "cursor_of L u (entries_of w)"
  have on: "online L (call_at 2 ev) S u w" using assms(1) by simp
  note dist = distinct_dirty [OF assms(2,3) sync_okD(2,1) [OF assms(4)], of u] and fits = sync_okD_syncable(1) [OF assms(4)]
  from wired_sync_outcome(1) [OF on assms(2) dist fits run] wired_sync_outcome(2) [OF on assms(2) dist fits run refl]
  have 4: "wd_device w4 = wd_device w" "w4 = w\<lparr>wd_skeeper := sync_server L u w\<rparr>"
    and ua: "news = sync_updates L u w" "set applied = sync_applied L u w"
    by (simp_all add: sync_server_def sync_updates_def sync_applied_def)
  obtain q d where q: "PersistSyncResult L ev u (sync_updates L u w) ?D (sync_applied L u w) (wd_device w) = (q, d)"
    by (cases "PersistSyncResult L ev u (sync_updates L u w) ?D (sync_applied L u w) (wd_device w)")
  have w': "w' = w4\<lparr>wd_device := d\<rparr>" "p = q"
    using fin q by (auto simp: ua on_device_apply 4(1))
  from q show thesis
  proof (cases rule: PersistSyncResult_cases)
    case (nothing e)
    with w' show thesis by (intro untouched) (simp_all add: 4)
  next
    case all
    then show thesis by (intro complete) (simp add: w' 4(2) synced_world_def)
  qed
qed

text \<open>A whole round: the device stays as it was, or the round is complete.\<close>

lemma sync_outcome:
  assumes "online L ev S u w" and "uuid_ok L" and "sqlite_time_ok L" and "sync_ok L w"
    and "SyncUseCase_Sync L ev (NewSyncUseCase (wired_sync L S)) w = (r, w')"
  obtains (untouched) "wd_device w' = wd_device w" and "\<exists>e. r = Inl e" | (complete) "w' = synced_world L u w"
  using assms
proof (cases rule: sync_reads)
  case (untouched e)
  then show thesis by (intro that(1)) simp_all
next
  case read
  let ?D = "dirty_of L u (entries_of w)" and ?C = "cursor_of L u (entries_of w)"
  from read show thesis
  proof (cases rule: bind_m_cases)
    case (err e)
    from err(1) obtain e' where "wired_sync L S (call_at 2 ev) ?D ?C w = (Inl e', w')"
      by (auto simp: map_err_def NewSyncUseCase_def split: prod.splits sum.splits)
    from wired_sync_outcome(1) [OF _ assms(2) distinct_dirty [OF assms(2,3) sync_okD(2,1) [OF assms(4)]]
      sync_okD_syncable(1) [OF assms(4)] this] assms(1) err(2)
    show thesis by (intro untouched) simp_all
  next
    case (ok ua w4)
    let ?save = "on_device (PersistSyncResult L ev u (fst ua) ?D (set (snd ua)))"
    from map_err_InrD [OF ok(1)] have pushed: "wired_sync L S (call_at 2 ev) ?D ?C w = (Inr (fst ua, snd ua), w4)"
      by (simp add: NewSyncUseCase_def)
    have all: "map_err (\<lambda>e. Wrap (Some e) ''persist sync'') ?save w4 = (r, w')" using ok(2) by (simp add: case_prod_beta)
    obtain p w5 where run: "?save w4 = (p, w5)" by (cases "?save w4")
    from all have saved: "?save w4 = (p, w')" and r: "\<And>e. p = Inl e \<Longrightarrow> \<exists>e. r = Inl e"
      by (auto simp: map_err_def run split: sum.splits)
    show thesis
      by (rule sync_exchange_outcome [OF assms(1-4) pushed saved]) (use r in \<open>auto intro: untouched complete\<close>)
  qed
qed

section \<open>What a round promises\<close>

lemma lww_took:
  "lww stored (Some (entry_row L u (to_server e))) =
    (if took stored e then Some (entry_row L u (to_server e)) else stored)"
  by (auto simp: lww_def took_def entry_newer_def entry_row_def split: option.split)

lemma edit_of_row:
  "device_row L w i = Some row \<Longrightarrow> le_IsDirty row \<Longrightarrow> le_UserID row = u \<Longrightarrow> local_edit L u w i = Some (scanned L row)"
  by (simp add: local_edit_def)

lemma scanned_version [simp]: "ce_Version (scanned L row) = le_Version row"
  by (simp add: scanned_def row_entry_def)


text \<open>
  C20: Rounds converge. If the server's rows of the user are newer than the device's cursor (a new
  device, for one, whose cursor is the epoch), the device holds every one of them after the
  round, clean, and has nothing left to push: a second round changes no row on either side.
\<close>

theorem sync_converges:
  assumes "no_faults ev" and "online L ev S u w" and "no_faults ev2" and "online L ev2 S u w"
    and "uuid_ok L" and "sqlite_time_ok L" and "sync_ok L w"
    and "\<forall>i r. lww (server_row w u i) (map_option (\<lambda>e. entry_row L u (to_server e)) (local_edit L u w i)) = Some r \<longrightarrow>
      pg_timestamptz L (cursor_of L u (entries_of w)) < er_UpdatedAt r"
  shows "\<exists>w' w''. SyncUseCase_Sync L ev (NewSyncUseCase (wired_sync L S)) w = (Inr (), w') \<and>
    (\<forall>i s. server_row w' u i = Some s \<longrightarrow> device_row L w' i = Some (entry_to_row L (to_client (toDomain s)) False u)) \<and>
    (\<forall>i. local_edit L u w' i = None) \<and>
    SyncUseCase_Sync L ev2 (NewSyncUseCase (wired_sync L S)) w' = (Inr (), w'') \<and>
    (\<forall>i. device_row L w'' i = device_row L w' i) \<and> (\<forall>v i. server_row w'' v i = server_row w' v i)"
proof -
  let ?w = "synced_world L u w"
  have on: "online L ev2 S u ?w" using assms(4) by (simp add: online_cong [of ?w w])
  note ok = sync_ok_synced [OF assms(7), of u]
  have server: "server_row ?w u i = lww (server_row w u i) (map_option (\<lambda>e. entry_row L u (to_server e)) (local_edit L u w i))" for i
    by (simp add: synced_server_row [OF assms(5-7)])
  have newer: "pg_timestamptz L (cursor_of L u (entries_of w)) < er_UpdatedAt s" if "server_row ?w u i = Some s" for i s
    using assms(8) that unfolding server by blast
  have holds: "device_row L ?w i = Some (entry_to_row L (to_client (toDomain s)) False u)" if "server_row ?w u i = Some s" for i s
    using newer [OF that] by (simp add: synced_device_row [OF assms(5-7)] that)
  have clean: "local_edit L u ?w i = None" for i
  proof (cases "server_row ?w u i")
    case (Some s)
    from holds [OF this] show ?thesis by (simp add: local_edit_def)
  next
    case None
    then have none: "local_edit L u w i = None" using server [of i]
      by (cases "local_edit L u w i") (auto simp: lww_took took_def split: if_splits option.splits)
    with None have "device_row L ?w i = device_row L w i"
      by (simp add: synced_device_row [OF assms(5-7)] after_push_def)
    with none show ?thesis by (simp add: local_edit_def)
  qed
  have again: "server_row (synced_world L u ?w) v i = server_row ?w v i" for v i
    by (simp add: synced_server_row [OF assms(5,6) ok] clean)
  moreover have "device_row L (synced_world L u ?w) i = device_row L ?w i" for i
    using holds [of i] by (simp add: synced_device_row [OF assms(5,6) ok] again after_push_def clean split: option.split)
  ultimately show ?thesis
    unfolding sync_run [OF assms(1,2,5-7)]
    by (intro exI [of _ ?w] exI [of _ "synced_world L u ?w"])
      (simp add: sync_run [OF assms(3) on assms(5,6) ok] holds clean)
qed


section \<open>Concrete rounds\<close>

lemma signed_world_entries: "entries_of signed_world = []"
proof -
  obtain row where d: "wd_device signed_world = empty_device\<lparr>dv_session := Some row\<rparr>" by (rule signed_device)
  show ?thesis by (simp only: d) (simp add: empty_device_def)
qed

lemma signed_world_sync_ok: "sync_ok toy signed_world"
  using signed_world_local(1) by (simp add: sync_ok_def written_def signed_world_entries signed_world_local(4) toy_db_ok)

lemma signed_world_server:
  "server_row signed_world 1 i = (if i = 5 then Some (entry_row toy 1 (sample_entry 5 2)) else None)"
  by (simp add: signed_world_local(4) toy_db_def sample_entry_def)

lemma signed_world_edit: "local_edit toy u signed_world i = None"
  by (simp add: local_edit_def signed_world_entries)

lemma signed_world_cursor: "pg_timestamptz toy (cursor_of toy u (entries_of signed_world)) = Unix_Ns 0"
  by (simp add: cursor_of_def signed_world_entries toy_sel)

lemma sample_row_time: "er_UpdatedAt (entry_row toy 1 (sample_entry 5 2)) = Unix_Ns 5000"
  by (simp add: entry_row_def sample_entry_def toy_sel)

theorem sync_round_witness:
  "\<exists>w'. SyncUseCase_Sync toy (calm (Unix_Ns 0)) (NewSyncUseCase (wired_sync toy toy_services)) signed_world = (Inr (), w') \<and>
    device_row toy w' 5 = Some (entry_to_row toy (to_client (toDomain (entry_row toy 1 (sample_entry 5 2)))) False 1)"
proof -
  from sync_round [OF calm_no_faults signed_world_online toy_uuid_ok toy_sqlite_time_ok signed_world_sync_ok]
  obtain w' where run: "SyncUseCase_Sync toy (calm (Unix_Ns 0)) (NewSyncUseCase (wired_sync toy toy_services)) signed_world = (Inr (), w')"
    and srv: "\<forall>i. server_row w' 1 i = lww (server_row signed_world 1 i)
      (map_option (\<lambda>e. entry_row toy 1 (to_server e)) (local_edit toy 1 signed_world i))"
    and dev: "\<forall>i. device_row toy w' i = (case server_row w' 1 i of None \<Rightarrow> after_push toy 1 signed_world i
      | Some r \<Rightarrow> if pg_timestamptz toy (cursor_of toy 1 (entries_of signed_world)) < er_UpdatedAt r
          then Some (entry_to_row toy (to_client (toDomain r)) False 1) else after_push toy 1 signed_world i)"
    by (elim exE conjE)
  have s: "server_row w' 1 5 = Some (entry_row toy 1 (sample_entry 5 2))"
    using srv by (simp add: signed_world_edit signed_world_server)
  show ?thesis
    by (intro exI [of _ w'] conjI run)
      (simp add: dev s signed_world_cursor sample_row_time less_gotime_def del: split_paired_All)
qed

theorem sync_converges_witness:
  "\<exists>w' w''. SyncUseCase_Sync toy (calm (Unix_Ns 0)) (NewSyncUseCase (wired_sync toy toy_services)) signed_world = (Inr (), w') \<and>
    SyncUseCase_Sync toy (calm (Unix_Ns 0)) (NewSyncUseCase (wired_sync toy toy_services)) w' = (Inr (), w'') \<and>
    device_row toy w'' 5 = device_row toy w' 5"
proof -
  have new: "\<forall>i r. lww (server_row signed_world 1 i) (map_option (\<lambda>e. entry_row toy 1 (to_server e)) (local_edit toy 1 signed_world i)) = Some r \<longrightarrow>
      pg_timestamptz toy (cursor_of toy 1 (entries_of signed_world)) < er_UpdatedAt r"
    by (auto simp: signed_world_edit signed_world_server signed_world_cursor sample_row_time less_gotime_def split: if_splits)
  from sync_converges [OF calm_no_faults signed_world_online calm_no_faults signed_world_online toy_uuid_ok toy_sqlite_time_ok
      signed_world_sync_ok new] show ?thesis by blast
qed

text \<open>The device has made an entry of its own, ten seconds after the epoch.\<close>

definition late_entry :: client_entry where
  "late_entry = (client_sample 9 1)\<lparr>ce_UpdatedAt := Unix_Ns (10 * second)\<rparr>"

definition edited_world :: world where
  "edited_world = put_entry toy late_entry 1 signed_world"

lemma late_entry_uuid: "ce_UUID late_entry = 9"
  by (simp add: late_entry_def client_sample_def to_client_def sample_entry_def)

lemma edited_entries: "entries_of edited_world = [entry_to_row toy late_entry True 1]"
  by (simp add: edited_world_def signed_world_entries)

lemma edited_online: "online toy (calm (Unix_Ns 0)) toy_services 1 edited_world"
  using signed_world_online by (simp add: edited_world_def online_cong [of "put_entry toy late_entry 1 signed_world" signed_world])

lemma edited_sync_ok: "sync_ok toy edited_world"
proof -
  have "syncable late_entry"
    using client_sample_syncable [of 9 1] by (simp add: late_entry_def syncable_def)
  then show ?thesis
    using signed_world_sync_ok local_ok_put_entry(1) [of signed_world late_entry toy 1]
    by (simp add: sync_ok_def edited_world_def written_put_row syncable_iff)
qed

lemma edited_row: "device_row toy edited_world i = (if i = 9 then Some (entry_to_row toy late_entry True 1) else None)"
  by (simp add: edited_entries late_entry_uuid uuid_String_inj [OF toy_uuid_ok])

lemma edited_cursor: "pg_timestamptz toy (cursor_of toy 1 (entries_of edited_world)) = Unix_Ns (10 * second)"
proof -
  have "time_read (time_text (ce_UpdatedAt late_entry)) = Some (Unix_Ns (10 * second))"
    using sqlite_time_read_text [OF toy_sqlite_time_ok, of "ce_UpdatedAt late_entry"] by (simp add: toy_sel late_entry_def)
  then show ?thesis
    by (simp add: cursor_of_def edited_entries entry_to_row_def toy_sel second_def)
qed



end
