(* ===== verification/Deployment.thy ===== *)
theory Deployment
  imports Sync_Properties
begin

text \<open>
  Two devices of one user and the two services together: what a user stores on one device and
  synchronises can be read on another with the same master password.
\<close>

section \<open>An entry on its way\<close>

text \<open>The entry a second device stores for what the first one pushed.\<close>

definition travelled :: "lib \<Rightarrow> int64 \<Rightarrow> client_entry \<Rightarrow> client_entry" where
  "travelled L u e = to_client (toDomain (entry_row L u (to_server e)))"

lemma travelled_sel [simp]:
  "ce_UUID (travelled L u e) = ce_UUID e" "ce_Type (travelled L u e) = ce_Type e"
  "ce_IsDeleted (travelled L u e) = ce_IsDeleted e" "ce_Version (travelled L u e) = ce_Version e"
  by (simp_all add: travelled_def to_client_def toDomain_def entry_row_def to_server_def)

lemma open_travelled [simp]: "open_entry L (travelled L u e) k = open_entry L e k"
  by (simp add: travelled_def to_client_def toDomain_def entry_row_def to_server_def open_entry_def decryptMetaWithDEK_def
      cong: sum.case_cong)

lemma pushed_scanned: "entry_row L u (to_server (e\<lparr>ce_IsDirty := b, ce_UserID := v\<rparr>)) = entry_row L u (to_server e)"
  by (simp add: to_server_def)

text \<open>The world as another device sees it.\<close>

definition on_other :: "device \<Rightarrow> world \<Rightarrow> world" where
  "on_other d w = w\<lparr>wd_device := d\<rparr>"

lemma on_other_sel [simp]:
  "wd_device (on_other d w) = d" "wd_skeeper (on_other d w) = wd_skeeper w" "wd_auther (on_other d w) = wd_auther w"
  by (simp_all add: on_other_def)

lemma online_other: "online L ev S u (on_other d w) = online L ev S u (on_other d w')"
  by (rule online_cong) simp_all

lemma signed_other: "signed_as L u (on_other d w) = signed_as L u (on_other d w')"
  by (simp add: signed_as_def)

text \<open>Pushing a new entry, seen from the server.\<close>

lemma new_entry_pushed:
  assumes "uuid_ok L" and "sqlite_time_ok L" and "sync_ok L w" and "server_row w u (ce_UUID e) = None"
    and "device_row L w (ce_UUID e) = Some (entry_to_row L e True u)"
  shows "server_row (synced_world L u w) u (ce_UUID e) = Some (entry_row L u (to_server e))"
proof -
  have "local_edit L u w (ce_UUID e) = Some (e\<lparr>ce_IsDirty := False, ce_UserID := Some u\<rparr>)"
    by (simp add: local_edit_def assms(5) scanned_to_row [OF assms(1,2)])
  then show ?thesis
    by (simp add: synced_server_row [OF assms(1-3)] assms(4) lww_def pushed_scanned)
qed

text \<open>Pulling an entry the device has no edit of.\<close>

lemma entry_pulled:
  assumes "uuid_ok L" and "sqlite_time_ok L" and "sync_ok L w" and "server_row w u i = Some r" and "local_edit L u w i = None"
    and "pg_timestamptz L (cursor_of L u (entries_of w)) < er_UpdatedAt r"
  shows "device_row L (synced_world L u w) i = Some (entry_to_row L (to_client (toDomain r)) False u)"
  using assms(4-6) by (simp add: synced_device_row [OF assms(1-3)] synced_server_row [OF assms(1-3)])

text \<open>The same for a new entry another device has pushed, and reading it there.\<close>

lemma entry_arrives:
  assumes "uuid_ok L" and "sqlite_time_ok L" and "sync_ok L (on_other d w)"
    and "server_row w u (ce_UUID e) = Some (entry_row L u (to_server e))"
    and "look_local (dv_entries d) (uuid_String L (ce_UUID e)) = None"
    and "pg_timestamptz L (cursor_of L u (dv_entries d)) < pg_timestamptz L (ce_UpdatedAt e)"
  shows "device_row L (synced_world L u (on_other d w)) (ce_UUID e) = Some (entry_to_row L (travelled L u e) False u)"
  unfolding travelled_def
  by (rule entry_pulled [OF assms(1-3)]) (use assms(4-6) in \<open>simp_all add: local_edit_def entry_row_def to_server_def\<close>)

lemma arrived_opens:
  assumes "ready L ev S uc u w" and "local_ok (wd_device w)" and "uuid_ok L" and "sqlite_time_ok L"
    and "device_row L w (ce_UUID e) = Some (entry_to_row L (travelled L u e) False u)" and "\<not> ce_IsDeleted e"
    and "params (call_at 2 ev) uc u w = (s, MasterKeyVerifier L (DeriveMasterKey L mp s))"
    and "open_entry L e (DeriveMasterKey L mp s) = Inr (plaintext, meta)"
  shows "fst (GetDecryptedEntry L ev uc (ce_UUID e) mp w) =
    Inr \<lparr>de_Payload = plaintext, de_Meta = shown_meta (ce_Type e) meta, de_Type = ce_Type e\<rparr>"
proof -
  have "ce_UUID (travelled L u e) = ce_UUID e" "ce_IsDeleted (travelled L u e) = False" using assms(6) by simp_all
  from get_run [OF assms(1-5) this, of mp] show ?thesis by (simp add: assms(7,8) accepts_def)
qed

section \<open>From one device to another\<close>


text \<open>The four types of the client fit the server's column.\<close>

lemma entry_types_fit: "type_fits EntryTypePassword" "type_fits EntryTypeText" "type_fits EntryTypeCard" "type_fits EntryTypeFile"
  by (simp_all add: type_fits_def entry_type_defs rune_count.simps rune_len_def byte_in_def)

section \<open>Two concrete devices\<close>

lemma signed_world_ready_at:
  "0 \<le> t \<Longrightarrow> t < minute \<Longrightarrow> ready toy (calm (Unix_Ns t)) toy_services toy_secrets 1 signed_world"
  using online_signed [OF signed_world_online] signed_world_online_at params_ok_signed
  by (simp add: ready_def toy_secrets_def NewSecretUseCase_def)

lemma on_other_same [simp]: "on_other (wd_device w) w = w"
  by (simp add: on_other_def)


end
