(* ===== verification/Cli_Prompts.thy ===== *)
theory Cli_Prompts
  imports Deployment
begin

text \<open>
  Reading and writing at the command line (\<^verbatim>\<open>internal/client/delivery/prompt.go\<close>,
  \<^verbatim>\<open>prompt_fields.go\<close>). The input is read byte by byte; what a read gives is an
  element of the input list, and after its last element the input is at its end.
\<close>

section \<open>The console of one command\<close>

datatype in_read = Got char | Nothing | AtEOF | ReadErr string

record console =
  cn_world :: world
  cn_in :: "in_read list"
  cn_out :: string
  cn_files :: "string \<Rightarrow> bytes option"

text \<open>
  If the input is a terminal, passwords are read by \<^verbatim>\<open>term.ReadPassword\<close>, which consumes
  input and gives the password or the text of an error.
\<close>

type_synonym tty = "(in_read list \<Rightarrow> (string + string) \<times> in_read list) option"

definition on_world :: "(world, go_error, 'a) cmd \<Rightarrow> (console, go_error, 'a) cmd" where
  "on_world c = zoom cn_world (\<lambda>w k. k\<lparr>cn_world := w\<rparr>) c"

abbreviation nl :: char where "nl \<equiv> CHR 0x0A"
abbreviation cr :: char where "cr \<equiv> CHR 0x0D"

definition writePrompt :: "string \<Rightarrow> (console, go_error, unit) cmd" where
  "writePrompt s k = (Inr (), k\<lparr>cn_out := cn_out k @ s\<rparr>)"

definition println :: "string \<Rightarrow> (console, go_error, unit) cmd" where
  "println s = writePrompt (s @ [nl])"

section \<open>Lines\<close>

text \<open>\<^verbatim>\<open>strings.TrimSuffix\<close> for a suffix of one byte.\<close>

definition trim_last :: "char \<Rightarrow> string \<Rightarrow> string" where
  "trim_last c s = (if s \<noteq> [] \<and> last s = c then butlast s else s)"

fun readLineFrom :: "in_read list \<Rightarrow> string \<Rightarrow> (go_error + string) \<times> in_read list" where
  "readLineFrom [] b = (Inr (trim_last cr b), [])"
| "readLineFrom (AtEOF # rs) b = (Inr (trim_last cr b), rs)"
| "readLineFrom (ReadErr m # rs) b = (Inl (LibErr m), rs)"
| "readLineFrom (Nothing # rs) b = readLineFrom rs b"
| "readLineFrom (Got c # rs) b =
    (if c = nl then (Inr (trim_last cr b), rs) else readLineFrom rs (b @ [c]))"

definition from_in :: "(in_read list \<Rightarrow> (go_error + 'a) \<times> in_read list) \<Rightarrow> (console, go_error, 'a) cmd" where
  "from_in f k = (case f (cn_in k) of (r, rs) \<Rightarrow> (r, k\<lparr>cn_in := rs\<rparr>))"

definition readLine :: "(console, go_error, string) cmd" where
  "readLine = from_in (\<lambda>rs. readLineFrom rs [])"

definition readPasswordLine :: "tty \<Rightarrow> (console, go_error, string) cmd" where
  "readPasswordLine tty = (case tty of
      None \<Rightarrow> readLine
    | Some readPassword \<Rightarrow>
        bind_m (from_in (\<lambda>rs. case readPassword rs of (Inl m, rs') \<Rightarrow> (Inl (LibErr m), rs') | (Inr p, rs') \<Rightarrow> (Inr p, rs'))) (\<lambda>b.
        bind_m (println []) (\<lambda>_.
        ret b)))"

section \<open>Prompts\<close>

definition parseUUIDArg :: "lib \<Rightarrow> string \<Rightarrow> (console, go_error, uuid) cmd" where
  "parseUUIDArg L s = (case uuid_Parse L s of
      None \<Rightarrow> raise (Wrap (Some (LibErr ''invalid UUID'')) ''invalid uuid'')
    | Some i \<Rightarrow> ret i)"

text \<open>An error while reading the notes is ignored; the line it returns then is empty.\<close>

definition promptEntryMetadata :: "string \<Rightarrow> (console, go_error, entry_metadata) cmd" where
  "promptEntryMetadata namePrompt =
    bind_m (writePrompt (if namePrompt = [] then ''Entry name: '' else namePrompt)) (\<lambda>_.
    bind_m readLine (\<lambda>name.
    bind_m (writePrompt ''Notes (optional): '') (\<lambda>_.
    bind_m (attempt readLine) (\<lambda>r.
    let notes = (case r of Inl _ \<Rightarrow> [] | Inr line \<Rightarrow> line)
    in ret \<lparr>md_Name = name, md_Notes = notes, md_OriginalFilename = [], md_ExtraTags = None\<rparr>))))"

definition promptMasterPassword :: "tty \<Rightarrow> (console, go_error, string) cmd" where
  "promptMasterPassword tty = bind_m (writePrompt ''Master password: '') (\<lambda>_. readPasswordLine tty)"

definition promptPasswordValue :: "tty \<Rightarrow> string \<Rightarrow> (console, go_error, string) cmd" where
  "promptPasswordValue tty prompt = bind_m (writePrompt prompt) (\<lambda>_. readPasswordLine tty)"

text \<open>A line that is not empty has used up input, so the loop ends.\<close>

lemma readLineFrom_length: "readLineFrom rs b = (r, rs') \<Longrightarrow> length rs' \<le> length rs"
  by (induction rs b rule: readLineFrom.induct) (auto split: if_splits)

lemma readLineFrom_nonempty:
  "readLineFrom rs [] = (Inr line, rs') \<Longrightarrow> line \<noteq> [] \<Longrightarrow> length rs' < length rs"
  by (cases rs rule: list.exhaust, simp add: trim_last_def, rename_tac x xs, case_tac x)
    (auto simp: trim_last_def less_Suc_eq_le split: if_splits dest: readLineFrom_length)

function read_text :: "string \<Rightarrow> in_read list \<Rightarrow> (go_error + string) \<times> in_read list" where
  "read_text b rs =
    (case readLineFrom rs [] of
       (Inl e, rs') \<Rightarrow> (Inl e, rs')
     | (Inr line, rs') \<Rightarrow>
         if line = [] then (Inr (trim_last nl b), rs')
         else read_text ((if b \<noteq> [] then b @ [nl] else b) @ line) rs')"
  by pat_completeness auto
termination
  by (relation "measure (\<lambda>(b, rs). length rs)") (auto dest: readLineFrom_nonempty [OF sym])

declare read_text.simps [simp del]

definition promptMultilineText :: "string \<Rightarrow> (console, go_error, string) cmd" where
  "promptMultilineText banner = bind_m (println banner) (\<lambda>_. from_in (read_text []))"

definition promptCard :: "tty \<Rightarrow> (console, go_error, card_payload) cmd" where
  "promptCard tty =
    bind_m (writePrompt ''Cardholder: '') (\<lambda>_.
    bind_m readLine (\<lambda>holder.
    bind_m (writePrompt ''Number: '') (\<lambda>_.
    bind_m readLine (\<lambda>number.
    bind_m (writePrompt ''Expiry (MM/YY): '') (\<lambda>_.
    bind_m readLine (\<lambda>expiry.
    bind_m (writePrompt ''CVC: '') (\<lambda>_.
    bind_m (readPasswordLine tty) (\<lambda>cvc.
    ret \<lparr>card_Holder = holder, card_Number = number, card_Expiry = expiry, card_CVC = cvc\<rparr>))))))))"

text \<open>\<^verbatim>\<open>os.ReadFile\<close>: any failure but a missing file is a fault of the surroundings.\<close>

definition os_ReadFile :: "env \<Rightarrow> string \<Rightarrow> (console, go_error, bytes) cmd" where
  "os_ReadFile ev path =
    bind_m (try_call ev FileRead) (\<lambda>_.
    bind_m (gets (\<lambda>k. cn_files k path)) (\<lambda>f.
      case f of None \<Rightarrow> raise (LibErr ''no such file or directory'') | Some data \<Rightarrow> ret data))"

definition promptOptionalFilePath ::
  "lib \<Rightarrow> env \<Rightarrow> string \<Rightarrow> (console, go_error, bytes \<times> string \<times> bool) cmd" where
  "promptOptionalFilePath L ev pathPrompt =
    bind_m (writePrompt pathPrompt) (\<lambda>_.
    bind_m readLine (\<lambda>line.
    let path = strings_TrimSpace L line
    in if path = [] then ret ([], [], False)
       else
         bind_m (map_err (\<lambda>e. Wrap (Some e) ''read file'') (os_ReadFile ev path)) (\<lambda>data.
         ret (data, filepath_base path, True))))"

section \<open>What was typed is what is read\<close>

text \<open>A line as it is typed, without line ends in it.\<close>

definition typed :: "string \<Rightarrow> in_read list" where
  "typed line = map Got (line @ [nl])"

definition plain_line :: "string \<Rightarrow> bool" where
  "plain_line line \<longleftrightarrow> nl \<notin> set line \<and> (line \<noteq> [] \<longrightarrow> last line \<noteq> cr)"

lemma readLineFrom_Got:
  "nl \<notin> set line \<Longrightarrow> readLineFrom (map Got line @ rs) b = readLineFrom rs (b @ line)"
  by (induction line arbitrary: b) auto

lemma readLine_typed: "plain_line line \<Longrightarrow> readLineFrom (typed line @ rs) [] = (Inr line, rs)"
  by (auto simp: typed_def plain_line_def readLineFrom_Got trim_last_def)

lemma readLine_run [simp]:
  "plain_line line \<Longrightarrow> cn_in k = typed line @ rs \<Longrightarrow> readLine k = (Inr line, k\<lparr>cn_in := rs\<rparr>)"
  by (simp add: readLine_def from_in_def readLine_typed)

text \<open>Lines of a text, joined the way the prompt joins them.\<close>

fun join_lines :: "string list \<Rightarrow> string" where
  "join_lines [] = []"
| "join_lines [l] = l"
| "join_lines (l # ls) = l @ nl # join_lines ls"

lemma read_text_typed:
  "(\<And>l. l \<in> set ls \<Longrightarrow> plain_line l \<and> l \<noteq> []) \<Longrightarrow> b = [] \<or> last b \<noteq> nl \<Longrightarrow>
    read_text b (concat (map typed ls) @ typed [] @ rs) =
      (Inr (if ls = [] then b else if b = [] then join_lines ls else b @ nl # join_lines ls), rs)"
proof (induction ls arbitrary: b)
  case Nil
  have "readLineFrom (typed [] @ rs) [] = (Inr [], rs)" by (rule readLine_typed) (simp add: plain_line_def)
  with Nil show ?case by (auto simp: read_text.simps [of b] trim_last_def)
next
  case (Cons l ls)
  have l: "plain_line l" "l \<noteq> []" using Cons.prems(1) by auto
  let ?b = "(if b \<noteq> [] then b @ [nl] else b) @ l"
  have line: "readLineFrom (typed l @ concat (map typed ls) @ typed [] @ rs) [] = (Inr l, concat (map typed ls) @ typed [] @ rs)"
    by (rule readLine_typed [OF l(1)])
  have "last l \<noteq> nl" using l by (metis last_in_set plain_line_def)
  then have ends: "?b = [] \<or> last ?b \<noteq> nl" using l(2) by simp
  have "read_text b (concat (map typed (l # ls)) @ typed [] @ rs) = read_text ?b (concat (map typed ls) @ typed [] @ rs)"
    using line l(2) by (subst read_text.simps) simp
  also have "\<dots> = (Inr (if ls = [] then ?b else if ?b = [] then join_lines ls else ?b @ nl # join_lines ls), rs)"
    by (rule Cons.IH [OF _ ends]) (use Cons.prems(1) in auto)
  finally show ?case using l(2) by (cases ls) auto
qed

end
