(* ===== verification/Cli_Delivery.thy ===== *)
theory Cli_Delivery
  imports Cli_Prompts
begin

text \<open>
  The command handlers of the CLI (\<^verbatim>\<open>internal/client/delivery\<close>): each prompts for what it
  needs, makes one call of a use case, and reports. The use cases are behind the three ports of
  \<^verbatim>\<open>ports.go\<close>.
\<close>

section \<open>Ports\<close>

record auth_commands =
  ac_Register :: "env \<Rightarrow> string \<Rightarrow> string \<Rightarrow> (world, go_error, unit) cmd"
  ac_Login :: "env \<Rightarrow> string \<Rightarrow> string \<Rightarrow> (world, go_error, unit) cmd"
  ac_Logout :: "env \<Rightarrow> (world, go_error, unit) cmd"
  ac_GetValidToken :: "env \<Rightarrow> (world, go_error, string) cmd"

record secret_commands =
  vc_ListLocal :: "env \<Rightarrow> (world, go_error, client_entry list) cmd"
  vc_GetDecryptedEntry :: "env \<Rightarrow> uuid \<Rightarrow> string \<Rightarrow> (world, go_error, decrypted_entry) cmd"
  vc_SetPassword :: "env \<Rightarrow> entry_metadata \<Rightarrow> string \<Rightarrow> string \<Rightarrow> (world, go_error, unit) cmd"
  vc_SetText :: "env \<Rightarrow> entry_metadata \<Rightarrow> string \<Rightarrow> string \<Rightarrow> (world, go_error, unit) cmd"
  vc_SetFile :: "env \<Rightarrow> entry_metadata \<Rightarrow> string \<Rightarrow> bytes \<Rightarrow> string \<Rightarrow> (world, go_error, unit) cmd"
  vc_SetCard :: "env \<Rightarrow> entry_metadata \<Rightarrow> card_payload \<Rightarrow> string \<Rightarrow> (world, go_error, unit) cmd"
  vc_UpdatePassword :: "env \<Rightarrow> uuid \<Rightarrow> entry_metadata \<Rightarrow> string \<Rightarrow> string \<Rightarrow> (world, go_error, unit) cmd"
  vc_UpdateText :: "env \<Rightarrow> uuid \<Rightarrow> entry_metadata \<Rightarrow> string \<Rightarrow> string \<Rightarrow> (world, go_error, unit) cmd"
  vc_UpdateCard :: "env \<Rightarrow> uuid \<Rightarrow> entry_metadata \<Rightarrow> card_payload \<Rightarrow> string \<Rightarrow> (world, go_error, unit) cmd"
  vc_UpdateFile :: "env \<Rightarrow> uuid \<Rightarrow> entry_metadata \<Rightarrow> string \<Rightarrow> bool \<Rightarrow> bytes \<Rightarrow> string \<Rightarrow> (world, go_error, unit) cmd"
  vc_DeleteEntry :: "env \<Rightarrow> uuid \<Rightarrow> string \<Rightarrow> (world, go_error, unit) cmd"

record sync_commands =
  yc_Sync :: "env \<Rightarrow> (world, go_error, unit) cmd"

record delivery =
  dl_auth :: auth_commands
  dl_secret :: secret_commands
  dl_sync :: sync_commands

definition delivery_New ::
  "auth_commands option \<Rightarrow> secret_commands option \<Rightarrow> sync_commands option \<Rightarrow> go_error + delivery" where
  "delivery_New auth secret sync =
    (case (auth, secret, sync) of
       (Some a, Some v, Some y) \<Rightarrow> Inr \<lparr>dl_auth = a, dl_secret = v, dl_sync = y\<rparr>
     | _ \<Rightarrow> Inl (ErrNew ''delivery.New: auth, secret, and sync are required''))"

section \<open>Account commands\<close>

definition Delivery_Login :: "tty \<Rightarrow> env \<Rightarrow> delivery \<Rightarrow> (console, go_error, unit) cmd" where
  "Delivery_Login tty ev d =
    bind_m (writePrompt ''Email: '') (\<lambda>_.
    bind_m (map_err (\<lambda>e. Wrap (Some e) ''read email'') readLine) (\<lambda>username.
    bind_m (writePrompt ''Password: '') (\<lambda>_.
    bind_m (map_err (\<lambda>e. Wrap (Some e) ''failed to read password'') (readPasswordLine tty)) (\<lambda>password.
    bind_m (map_err (\<lambda>e. Wrap (Some e) ''login failed'') (on_world (ac_Login (dl_auth d) ev username password))) (\<lambda>_.
    println ''Successfully logged in.'')))))"

definition Delivery_Register :: "tty \<Rightarrow> env \<Rightarrow> delivery \<Rightarrow> (console, go_error, unit) cmd" where
  "Delivery_Register tty ev d =
    bind_m (writePrompt ''Email: '') (\<lambda>_.
    bind_m (map_err (\<lambda>e. Wrap (Some e) ''read email'') readLine) (\<lambda>email.
    bind_m (writePrompt ''Password: '') (\<lambda>_.
    bind_m (readPasswordLine tty) (\<lambda>pw1.
    bind_m (writePrompt ''Confirm password: '') (\<lambda>_.
    bind_m (readPasswordLine tty) (\<lambda>pw2.
    if pw1 \<noteq> pw2 then raise (ErrNew ''passwords do not match'')
    else
      bind_m (map_err (\<lambda>e. Wrap (Some e) ''register failed'') (on_world (ac_Register (dl_auth d) ev email pw1))) (\<lambda>_.
      println ''Registered and logged in.'')))))))"

definition Delivery_Logout :: "env \<Rightarrow> delivery \<Rightarrow> (console, go_error, unit) cmd" where
  "Delivery_Logout ev d =
    bind_m (map_err (\<lambda>e. Wrap (Some e) ''logout failed'') (on_world (ac_Logout (dl_auth d) ev))) (\<lambda>_.
    println ''Logged out.'')"

definition Delivery_Sync :: "env \<Rightarrow> delivery \<Rightarrow> (console, go_error, unit) cmd" where
  "Delivery_Sync ev d =
    bind_m (map_err (\<lambda>e. Wrap (Some e) ''sync failed'') (on_world (yc_Sync (dl_sync d) ev))) (\<lambda>_.
    println ''Sync completed.'')"

section \<open>New entries\<close>

definition Delivery_AddPassword :: "tty \<Rightarrow> env \<Rightarrow> delivery \<Rightarrow> (console, go_error, unit) cmd" where
  "Delivery_AddPassword tty ev d =
    bind_m (promptEntryMetadata ''Entry name (e.g. Gmail): '') (\<lambda>meta.
    bind_m (promptPasswordValue tty ''Password to store: '') (\<lambda>secretStr.
    bind_m (promptMasterPassword tty) (\<lambda>masterStr.
    bind_m (map_err (\<lambda>e. Wrap (Some e) ''save secret'')
      (on_world (vc_SetPassword (dl_secret d) ev meta secretStr masterStr))) (\<lambda>_.
    println ''Encrypted entry saved locally (run `sync` to upload).''))))"

definition Delivery_AddText :: "tty \<Rightarrow> env \<Rightarrow> delivery \<Rightarrow> (console, go_error, unit) cmd" where
  "Delivery_AddText tty ev d =
    bind_m (promptEntryMetadata []) (\<lambda>meta.
    bind_m (promptMultilineText ''Text body (empty line ends input; on a TTY you can still use EOF / Ctrl-D):'') (\<lambda>body.
    bind_m (promptMasterPassword tty) (\<lambda>masterStr.
    bind_m (map_err (\<lambda>e. Wrap (Some e) ''save text'')
      (on_world (vc_SetText (dl_secret d) ev meta body masterStr))) (\<lambda>_.
    println ''Encrypted text saved locally (run `sync` to upload).''))))"

definition Delivery_AddFile :: "tty \<Rightarrow> env \<Rightarrow> delivery \<Rightarrow> string \<Rightarrow> (console, go_error, unit) cmd" where
  "Delivery_AddFile tty ev d path =
    bind_m (map_err (\<lambda>e. Wrap (Some e) ''read file'') (os_ReadFile ev path)) (\<lambda>data.
    bind_m (promptEntryMetadata []) (\<lambda>meta.
    bind_m (promptMasterPassword tty) (\<lambda>masterStr.
    let origName = filepath_base path
    in bind_m (map_err (\<lambda>e. Wrap (Some e) ''save file'')
         (on_world (vc_SetFile (dl_secret d) ev meta origName data masterStr))) (\<lambda>_.
       println ''Encrypted file saved locally (ciphertext in vault payload; run `sync` to upload).''))))"

definition Delivery_AddCard :: "tty \<Rightarrow> env \<Rightarrow> delivery \<Rightarrow> (console, go_error, unit) cmd" where
  "Delivery_AddCard tty ev d =
    bind_m (promptEntryMetadata []) (\<lambda>meta.
    bind_m (promptCard tty) (\<lambda>crd.
    bind_m (promptMasterPassword tty) (\<lambda>masterStr.
    bind_m (map_err (\<lambda>e. Wrap (Some e) ''save card'')
      (on_world (vc_SetCard (dl_secret d) ev meta crd masterStr))) (\<lambda>_.
    println ''Encrypted card saved locally (run `sync` to upload).''))))"

section \<open>Changes\<close>

definition Delivery_UpdatePassword :: "lib \<Rightarrow> tty \<Rightarrow> env \<Rightarrow> delivery \<Rightarrow> string \<Rightarrow> (console, go_error, unit) cmd" where
  "Delivery_UpdatePassword L tty ev d arg =
    bind_m (parseUUIDArg L arg) (\<lambda>i.
    bind_m (promptEntryMetadata []) (\<lambda>meta.
    bind_m (promptPasswordValue tty ''New password to store: '') (\<lambda>secretStr.
    bind_m (promptMasterPassword tty) (\<lambda>masterStr.
    bind_m (map_err (\<lambda>e. Wrap (Some e) ''update password entry'')
      (on_world (vc_UpdatePassword (dl_secret d) ev i meta secretStr masterStr))) (\<lambda>_.
    println ''Entry updated locally (run `sync` to upload).'')))))"

definition Delivery_UpdateText :: "lib \<Rightarrow> tty \<Rightarrow> env \<Rightarrow> delivery \<Rightarrow> string \<Rightarrow> (console, go_error, unit) cmd" where
  "Delivery_UpdateText L tty ev d arg =
    bind_m (parseUUIDArg L arg) (\<lambda>i.
    bind_m (promptEntryMetadata []) (\<lambda>meta.
    bind_m (promptMultilineText ''New text (empty line ends input):'') (\<lambda>body.
    bind_m (promptMasterPassword tty) (\<lambda>masterStr.
    bind_m (map_err (\<lambda>e. Wrap (Some e) ''update text entry'')
      (on_world (vc_UpdateText (dl_secret d) ev i meta body masterStr))) (\<lambda>_.
    println ''Entry updated locally (run `sync` to upload).'')))))"

definition Delivery_UpdateCard :: "lib \<Rightarrow> tty \<Rightarrow> env \<Rightarrow> delivery \<Rightarrow> string \<Rightarrow> (console, go_error, unit) cmd" where
  "Delivery_UpdateCard L tty ev d arg =
    bind_m (parseUUIDArg L arg) (\<lambda>i.
    bind_m (promptEntryMetadata []) (\<lambda>meta.
    bind_m (promptCard tty) (\<lambda>crd.
    bind_m (promptMasterPassword tty) (\<lambda>masterStr.
    bind_m (map_err (\<lambda>e. Wrap (Some e) ''update card entry'')
      (on_world (vc_UpdateCard (dl_secret d) ev i meta crd masterStr))) (\<lambda>_.
    println ''Entry updated locally (run `sync` to upload).'')))))"

definition Delivery_UpdateFile :: "lib \<Rightarrow> tty \<Rightarrow> env \<Rightarrow> delivery \<Rightarrow> string \<Rightarrow> (console, go_error, unit) cmd" where
  "Delivery_UpdateFile L tty ev d arg =
    bind_m (parseUUIDArg L arg) (\<lambda>i.
    bind_m (promptEntryMetadata []) (\<lambda>meta.
    bind_m (promptOptionalFilePath L ev
      ''Path to new file (empty = keep stored file bytes, update name/notes only): '') (\<lambda>(data, orig, replace).
    bind_m (promptMasterPassword tty) (\<lambda>masterStr.
    bind_m (map_err (\<lambda>e. Wrap (Some e) ''update file entry'')
      (on_world (vc_UpdateFile (dl_secret d) ev i meta masterStr replace data orig))) (\<lambda>_.
    println ''Entry updated locally (run `sync` to upload).'')))))"

definition Delivery_Delete :: "lib \<Rightarrow> tty \<Rightarrow> env \<Rightarrow> delivery \<Rightarrow> string \<Rightarrow> (console, go_error, unit) cmd" where
  "Delivery_Delete L tty ev d arg =
    bind_m (parseUUIDArg L arg) (\<lambda>i.
    bind_m (promptMasterPassword tty) (\<lambda>masterStr.
    bind_m (map_err (\<lambda>e. Wrap (Some e) ''delete entry'')
      (on_world (vc_DeleteEntry (dl_secret d) ev i masterStr))) (\<lambda>_.
    println ''Entry deleted locally (run `sync` to upload).'')))"

section \<open>Showing entries\<close>

definition DisplayType :: "string \<Rightarrow> string" where
  "DisplayType t =
    (if t = EntryTypePassword then ''password''
     else if t = EntryTypeText then ''text''
     else if t = EntryTypeFile then ''file''
     else if t = EntryTypeCard then ''card''
     else t)"

text \<open>
  The verb \<^verbatim>\<open>%-8s\<close>, which counts runes. How an instant is written depends on the zone it
  was stored with, so \<^verbatim>\<open>Format\<close> is an argument of the command.
\<close>

definition pad_right :: "nat \<Rightarrow> string \<Rightarrow> string" where
  "pad_right n s = s @ replicate (n - rune_count s) CHR '' ''"

definition list_line :: "lib \<Rightarrow> (gotime \<Rightarrow> string) \<Rightarrow> client_entry \<Rightarrow> string" where
  "list_line L format e =
    (let dirty = (if ce_IsDirty e then '' (dirty)'' else [])
     in uuid_String L (ce_UUID e) @ ''  '' @ pad_right 8 (DisplayType (ce_Type e)) @ ''  '' @ format (ce_UpdatedAt e) @ dirty)"

fun print_lines :: "string list \<Rightarrow> (console, go_error, unit) cmd" where
  "print_lines [] = ret ()"
| "print_lines (l # ls) = bind_m (println l) (\<lambda>_. print_lines ls)"

definition Delivery_List :: "lib \<Rightarrow> (gotime \<Rightarrow> string) \<Rightarrow> env \<Rightarrow> delivery \<Rightarrow> (console, go_error, unit) cmd" where
  "Delivery_List L format ev d =
    bind_m (on_world (vc_ListLocal (dl_secret d) ev)) (\<lambda>entries.
      if entries = [] then println ''No entries.''
      else print_lines (map (list_line L format) entries))"

text \<open>The file \<^verbatim>\<open>Get\<close> writes for an entry, in the working directory.\<close>

definition get_path :: "lib \<Rightarrow> uuid \<Rightarrow> string \<Rightarrow> string" where
  "get_path L i original =
    (let base = filepath_base original;
         base' = (if base = ''.'' \<or> base = [slash] \<or> base = [] then ''file'' else base)
     in uuid_String L i @ ''_'' @ base')"

definition os_WriteFile :: "env \<Rightarrow> string \<Rightarrow> bytes \<Rightarrow> (console, go_error, unit) cmd" where
  "os_WriteFile ev path data = ack_call ev FileWrite (\<lambda>k. (Inr (), k\<lparr>cn_files := (cn_files k)(path \<mapsto> data)\<rparr>))"

text \<open>What \<^verbatim>\<open>Get\<close> does with a decrypted entry.\<close>

definition show_entry :: "lib \<Rightarrow> env \<Rightarrow> uuid \<Rightarrow> decrypted_entry \<Rightarrow> (console, go_error, unit) cmd" where
  "show_entry L ev i entry =
    bind_m (println (''Name: '' @ md_Name (de_Meta entry))) (\<lambda>_.
    bind_m (if md_Notes (de_Meta entry) \<noteq> [] then println (''Notes: '' @ md_Notes (de_Meta entry)) else ret ()) (\<lambda>_.
    bind_m (println (''Type: '' @ de_Type entry)) (\<lambda>_.
      if de_Type entry = EntryTypePassword then println (''Password: '' @ de_Payload entry)
      else if de_Type entry = EntryTypeText then println (''Text:'' @ nl # de_Payload entry)
      else if de_Type entry = EntryTypeFile then
        bind_m (os_WriteFile ev (get_path L i (md_OriginalFilename (de_Meta entry))) (de_Payload entry)) (\<lambda>_.
        println (''Wrote '' @ fmt_d (int (length (de_Payload entry))) @ '' bytes to '' @
          get_path L i (md_OriginalFilename (de_Meta entry))))
      else if de_Type entry = EntryTypeCard then
        (case json_Unmarshal_card L (de_Payload entry) of
           None \<Rightarrow> raise (LibErr ''json'')
         | Some c \<Rightarrow> println (''Holder: '' @ card_Holder c @ nl # ''Number: '' @ card_Number c @ nl #
             ''Expiry: '' @ card_Expiry c @ nl # ''CVC: '' @ card_CVC c))
      else println (''Raw payload ('' @ fmt_d (int (length (de_Payload entry))) @ '' bytes)''))))"

definition Delivery_Get :: "lib \<Rightarrow> tty \<Rightarrow> env \<Rightarrow> delivery \<Rightarrow> string \<Rightarrow> (console, go_error, unit) cmd" where
  "Delivery_Get L tty ev d arg =
    bind_m (parseUUIDArg L arg) (\<lambda>i.
    bind_m (promptMasterPassword tty) (\<lambda>masterStr.
    bind_m (on_world (vc_GetDecryptedEntry (dl_secret d) ev i masterStr)) (show_entry L ev i)))"

section \<open>The program's ports\<close>

definition auth_port :: "lib \<Rightarrow> services \<Rightarrow> auth_commands" where
  "auth_port L S = \<lparr>
     ac_Register = \<lambda>ev. Auth_Register L ev (AutherClient L S),
     ac_Login = \<lambda>ev. Auth_Login L ev (AutherClient L S),
     ac_Logout = Auth_Logout,
     ac_GetValidToken = \<lambda>ev. Auth_GetValidToken L ev (AutherClient L S)\<rparr>"

definition secret_port :: "lib \<Rightarrow> secret_uc \<Rightarrow> secret_commands" where
  "secret_port L uc = \<lparr>
     vc_ListLocal = ListLocal L,
     vc_GetDecryptedEntry = \<lambda>ev. GetDecryptedEntry L ev uc,
     vc_SetPassword = \<lambda>ev. SetPassword L ev uc, vc_SetText = \<lambda>ev. SetText L ev uc,
     vc_SetFile = \<lambda>ev. SetFile L ev uc, vc_SetCard = \<lambda>ev. SetCard L ev uc,
     vc_UpdatePassword = \<lambda>ev. UpdatePassword L ev uc, vc_UpdateText = \<lambda>ev. UpdateText L ev uc,
     vc_UpdateCard = \<lambda>ev. UpdateCard L ev uc, vc_UpdateFile = \<lambda>ev. UpdateFile L ev uc,
     vc_DeleteEntry = \<lambda>ev. DeleteEntry L ev uc\<rparr>"

definition sync_port :: "lib \<Rightarrow> sync_uc \<Rightarrow> sync_commands" where
  "sync_port L uc = \<lparr>yc_Sync = \<lambda>ev. SyncUseCase_Sync L ev uc\<rparr>"

text \<open>What \<^verbatim>\<open>BuildDelivery\<close> wires together.\<close>

definition wired_delivery :: "lib \<Rightarrow> services \<Rightarrow> int \<Rightarrow> delivery" where
  "wired_delivery L S maxFileBytes = \<lparr>
     dl_auth = auth_port L S,
     dl_secret = secret_port L (NewSecretUseCase (Some (wired_vault L S)) maxFileBytes),
     dl_sync = sync_port L (NewSyncUseCase (wired_sync L S))\<rparr>"

end
