(* ===== verification/Cli_App.thy ===== *)
theory Cli_App
  imports Cli_Delivery
begin

text \<open>
  The command-line front end (\<^verbatim>\<open>internal/client/delivery/cli\<close>): the table of commands, the
  handlers behind it, and their wiring on the first command. Finding the command of an argument
  list is cobra's; what is modelled of it is its documented rule, that the longest command path
  wins and the argument check runs before the command.
\<close>

section \<open>Commands\<close>

datatype handler_id =
    HLogin | HRegister | HLogout | HSync
  | HAddPassword | HAddText | HAddFile | HAddCard
  | HUpdatePassword | HUpdateText | HUpdateCard | HUpdateFile
  | HDelete | HList | HGet

text \<open>
  A command: its path below the root, its usage line and help text, how many arguments
  \<^verbatim>\<open>cobra.ExactArgs\<close> asks for (if it does), and the handler it runs (the groups
  \<^verbatim>\<open>add\<close> and \<^verbatim>\<open>update\<close> run none).
\<close>

record cobra_command =
  cc_Path :: "string list"
  cc_Use :: string
  cc_Short :: string
  cc_Args :: "nat option"
  cc_Run :: "handler_id option"

definition command :: "string list \<Rightarrow> string \<Rightarrow> string \<Rightarrow> nat option \<Rightarrow> handler_id option \<Rightarrow> cobra_command" where
  "command path use short args run =
    \<lparr>cc_Path = path, cc_Use = use, cc_Short = short, cc_Args = args, cc_Run = run\<rparr>"

definition buildRoot :: "cobra_command list" where
  "buildRoot = [
     command [] ''skeepercli'' ''skeeper password manager CLI'' None None,
     command [''login''] ''login'' ''Authenticate with the Auther service'' None (Some HLogin),
     command [''register''] ''register'' ''Create a new account on the Auther service'' None (Some HRegister),
     command [''logout''] ''logout'' ''Clear the local session'' None (Some HLogout),
     command [''sync''] ''sync'' ''Upload dirty entries and fetch remote updates from Skeeper'' None (Some HSync),
     command [''add''] ''add'' ''Create a new encrypted vault entry'' None None,
     command [''add'', ''password''] ''password'' ''Add an encrypted login/password entry'' None (Some HAddPassword),
     command [''add'', ''text''] ''text'' ''Add arbitrary encrypted text'' None (Some HAddText),
     command [''add'', ''file''] ''file PATH''
       ''Encrypt a small file; ciphertext is stored in the entry payload (syncs to the server)'' (Some 1) (Some HAddFile),
     command [''add'', ''card''] ''card'' ''Add an encrypted bank card entry'' None (Some HAddCard),
     command [''update''] ''update'' ''Change an existing vault entry (increments version for sync)'' None None,
     command [''update'', ''password''] ''password UUID'' ''Update a PASSWORD entry (new secret + name/notes)''
       (Some 1) (Some HUpdatePassword),
     command [''update'', ''text''] ''text UUID'' ''Update a TEXT entry'' (Some 1) (Some HUpdateText),
     command [''update'', ''card''] ''card UUID'' ''Update a CARD entry'' (Some 1) (Some HUpdateCard),
     command [''update'', ''file''] ''file UUID'' ''Update a FILE entry (metadata only, or replace bytes from a path)''
       (Some 1) (Some HUpdateFile),
     command [''delete''] ''delete UUID'' ''Soft-delete an entry (hidden from list; sync removes on server after upload)''
       (Some 1) (Some HDelete),
     command [''list''] ''list'' ''List local entries (uuid, type, updated time; ciphertext only)'' None (Some HList),
     command [''get''] ''get UUID'' ''Decrypt and print one entry (requires master password)'' (Some 1) (Some HGet)]"

text \<open>
  Cobra's choice of a command: the longest path that starts the arguments. A group shows its
  help; below the root an unknown word is an error. Flags and the commands cobra adds
  (\<^verbatim>\<open>help\<close>, \<^verbatim>\<open>completion\<close>) are left out.
\<close>

fun starts :: "string list \<Rightarrow> string list \<Rightarrow> bool" where
  "starts [] ys = True"
| "starts (x # xs) [] = False"
| "starts (x # xs) (y # ys) = (x = y \<and> starts xs ys)"

fun longest :: "cobra_command list \<Rightarrow> string list \<Rightarrow> cobra_command option" where
  "longest [] args = None"
| "longest (c # cs) args =
    (if starts (cc_Path c) args
     then (case longest cs args of
             None \<Rightarrow> Some c
           | Some b \<Rightarrow> if length (cc_Path b) < length (cc_Path c) then Some c else Some b)
     else longest cs args)"

lemma command_sel [simp]: "cc_Path (command p use short args run) = p" "cc_Run (command p use short args run) = run"
  "cc_Args (command p use short args run) = args"
  by (simp_all add: command_def)

definition args_error :: "nat \<Rightarrow> nat \<Rightarrow> go_error" where
  "args_error n got = LibErr (''accepts '' @ fmt_d (int n) @ '' arg(s), received '' @ fmt_d (int got))"

definition unknown_command :: "string \<Rightarrow> go_error" where
  "unknown_command word = LibErr (''unknown command '' @ word @ '' for skeepercli'')"

section \<open>Handlers\<close>

text \<open>\<^verbatim>\<open>args[0]\<close> of a missing argument is a run-time panic.\<close>

definition arg0 :: "string list \<Rightarrow> (console, go_error, string) cmd" where
  "arg0 args = (case args of [] \<Rightarrow> raise (LibErr ''runtime error: index out of range [0] with length 0'') | a # _ \<Rightarrow> ret a)"

definition run_handler ::
  "lib \<Rightarrow> (gotime \<Rightarrow> string) \<Rightarrow> tty \<Rightarrow> env \<Rightarrow> delivery \<Rightarrow> handler_id \<Rightarrow> string list \<Rightarrow> (console, go_error, unit) cmd" where
  "run_handler L format tty ev d h args = (case h of
      HLogin \<Rightarrow> Delivery_Login tty ev d
    | HRegister \<Rightarrow> Delivery_Register tty ev d
    | HLogout \<Rightarrow> Delivery_Logout ev d
    | HSync \<Rightarrow> Delivery_Sync ev d
    | HAddPassword \<Rightarrow> Delivery_AddPassword tty ev d
    | HAddText \<Rightarrow> Delivery_AddText tty ev d
    | HAddFile \<Rightarrow> bind_m (arg0 args) (Delivery_AddFile tty ev d)
    | HAddCard \<Rightarrow> Delivery_AddCard tty ev d
    | HUpdatePassword \<Rightarrow> bind_m (arg0 args) (Delivery_UpdatePassword L tty ev d)
    | HUpdateText \<Rightarrow> bind_m (arg0 args) (Delivery_UpdateText L tty ev d)
    | HUpdateCard \<Rightarrow> bind_m (arg0 args) (Delivery_UpdateCard L tty ev d)
    | HUpdateFile \<Rightarrow> bind_m (arg0 args) (Delivery_UpdateFile L tty ev d)
    | HDelete \<Rightarrow> bind_m (arg0 args) (Delivery_Delete L tty ev d)
    | HList \<Rightarrow> Delivery_List L format ev d
    | HGet \<Rightarrow> bind_m (arg0 args) (Delivery_Get L tty ev d))"

section \<open>The application\<close>

text \<open>
  The handlers of the application, whether \<^verbatim>\<open>Wire\<close> was called (\<^verbatim>\<open>sync.Once\<close>), the error
  it returned and, for what follows, how often it was called.
\<close>

record app =
  ap_Version :: string
  ap_BuildTime :: string
  ap_Wire :: "(env \<Rightarrow> go_error + delivery) option"
  ap_handlers :: "delivery option"
  ap_wireDone :: bool
  ap_wireErr :: "go_error option"
  ap_calls :: nat

definition app_New :: "string \<Rightarrow> string \<Rightarrow> delivery option \<Rightarrow> (env \<Rightarrow> go_error + delivery) option \<Rightarrow> go_error + app" where
  "app_New version buildTime handlers wire =
    (if handlers = None \<and> wire = None
     then Inl (ErrNew ''cli.New: set either Config.Handlers or Config.Wire'')
     else Inr \<lparr>ap_Version = version, ap_BuildTime = buildTime, ap_Wire = wire, ap_handlers = handlers,
       ap_wireDone = False, ap_wireErr = None, ap_calls = 0\<rparr>)"

definition ensureHandlers :: "env \<Rightarrow> app \<Rightarrow> go_error option \<times> app" where
  "ensureHandlers ev a =
    (if ap_handlers a \<noteq> None then (None, a)
     else case ap_Wire a of
       None \<Rightarrow> (Some (ErrNew ''client not configured''), a)
     | Some wire \<Rightarrow>
         (let a' = (if ap_wireDone a then a
             else (case wire ev of
                 Inl e \<Rightarrow> a\<lparr>ap_wireDone := True, ap_wireErr := Some e, ap_calls := Suc (ap_calls a)\<rparr>
               | Inr d \<Rightarrow> a\<lparr>ap_wireDone := True, ap_wireErr := None, ap_handlers := Some d, ap_calls := Suc (ap_calls a)\<rparr>))
          in (ap_wireErr a', a')))"

text \<open>The version line \<^verbatim>\<open>ExecuteContext\<close> sets before it runs the root command.\<close>

definition version_line :: "app \<Rightarrow> string" where
  "version_line a =
    (let ver = (if ap_Version a = [] then ''dev'' else ap_Version a);
         bt = (if ap_BuildTime a = [] then ''unknown'' else ap_BuildTime a)
     in ver @ '' (built '' @ bt @ '')'')"

text \<open>One command line: the command is found, its arguments checked, the handlers wired, the handler run.\<close>

definition run_command ::
  "lib \<Rightarrow> (gotime \<Rightarrow> string) \<Rightarrow> tty \<Rightarrow> env \<Rightarrow> string list \<Rightarrow> app \<Rightarrow> console \<Rightarrow> (go_error + unit) \<times> app \<times> console" where
  "run_command L format tty ev args a k =
    (case longest buildRoot args of
       None \<Rightarrow> (Inr (), a, k)
     | Some c \<Rightarrow>
         (let rest = drop (length (cc_Path c)) args
          in case cc_Run c of
               None \<Rightarrow>
                 (if cc_Path c = [] \<and> rest \<noteq> [] then Inl (unknown_command (hd rest)) else Inr (), a, k)
             | Some h \<Rightarrow>
                 (if \<exists>n. cc_Args c = Some n \<and> length rest \<noteq> n
                  then (Inl (args_error (the (cc_Args c)) (length rest)), a, k)
                  else (case ensureHandlers ev a of
                          (Some e, a') \<Rightarrow> (Inl e, a', k)
                        | (None, a') \<Rightarrow>
                            (case ap_handlers a' of
                               None \<Rightarrow> (Inl (LibErr ''nil pointer dereference''), a', k)
                             | Some d \<Rightarrow> (case run_handler L format tty ev d h rest k of (r, k') \<Rightarrow> (r, a', k')))))))"

end
