(* ===== verification/Cli_Properties.thy ===== *)
theory Cli_Properties
  imports Cli_App
begin

text \<open>
  The command line from end to end: what is typed is what is stored, what is stored is what is
  printed; a command writes no file but the one it announces; every command reaches the handler
  of its name with the arguments that handler reads.
\<close>

section \<open>Runs of the prompts\<close>

lemma writePrompt_run [simp]: "writePrompt s k = (Inr (), k\<lparr>cn_out := cn_out k @ s\<rparr>)"
  by (simp add: writePrompt_def)

lemma println_run [simp]: "println s k = (Inr (), k\<lparr>cn_out := cn_out k @ s @ [nl]\<rparr>)"
  by (simp add: println_def)

lemma readPasswordLine_run [simp]:
  "plain_line line \<Longrightarrow> cn_in k = typed line @ rs \<Longrightarrow> readPasswordLine None k = (Inr line, k\<lparr>cn_in := rs\<rparr>)"
  by (simp add: readPasswordLine_def)

lemma prompt_then: "bind_m (writePrompt s) (\<lambda>_. c) k = c (k\<lparr>cn_out := cn_out k @ s\<rparr>)"
  by (simp add: bind_m_def)

lemma print_then: "bind_m (println s) (\<lambda>_. c) k = c (k\<lparr>cn_out := cn_out k @ s @ [nl]\<rparr>)"
  by (simp add: bind_m_def)

lemma line_then:
  "plain_line line \<Longrightarrow> cn_in k = typed line @ rs \<Longrightarrow> bind_m readLine f k = f line (k\<lparr>cn_in := rs\<rparr>)"
  by (simp add: bind_m_def)

lemma attempt_line_then:
  "plain_line line \<Longrightarrow> cn_in k = typed line @ rs \<Longrightarrow> bind_m (attempt readLine) f k = f (Inr line) (k\<lparr>cn_in := rs\<rparr>)"
  by (simp add: bind_m_def attempt_def)

lemma password_then:
  "plain_line line \<Longrightarrow> cn_in k = typed line @ rs \<Longrightarrow>
    bind_m (readPasswordLine None) f k = f line (k\<lparr>cn_in := rs\<rparr>)"
  by (simp add: bind_m_def)

lemma wrapped_then: "c k = (Inr x, k') \<Longrightarrow> bind_m (map_err h c) f k = f x k'"
  by (simp add: bind_m_def map_err_def)

lemma on_world_run: "c (cn_world k) = (r, w) \<Longrightarrow> on_world c k = (r, k\<lparr>cn_world := w\<rparr>)"
  by (simp add: on_world_def zoom_def)

lemma parseUUIDArg_run [simp]: "uuid_ok L \<Longrightarrow> parseUUIDArg L (uuid_String L i) k = (Inr i, k)"
  by (simp add: parseUUIDArg_def uuid_Parse_String ret_def)

named_theorems cli_runs \<open>what one step of a dialogue does to the console\<close>

declare prompt_then [cli_runs] print_then [cli_runs] line_then [cli_runs] attempt_line_then [cli_runs]
  password_then [cli_runs]

text \<open>The dialogues every new entry starts and ends with.\<close>

definition typed_meta :: "string \<Rightarrow> string \<Rightarrow> entry_metadata" where
  "typed_meta name notes = \<lparr>md_Name = name, md_Notes = notes, md_OriginalFilename = [], md_ExtraTags = None\<rparr>"

lemma metadata_run:
  assumes "plain_line name" and "plain_line notes" and "cn_in k = typed name @ typed notes @ rs"
  shows "promptEntryMetadata p k =
    (Inr (typed_meta name notes), k\<lparr>cn_in := rs,
      cn_out := cn_out k @ (if p = [] then ''Entry name: '' else p) @ ''Notes (optional): ''\<rparr>)"
  unfolding promptEntryMetadata_def using assms
  by (simp add: cli_runs typed_meta_def ret_def)

lemma metadata_then:
  assumes "plain_line name" and "plain_line notes" and "cn_in k = typed name @ typed notes @ rs"
  shows "bind_m (promptEntryMetadata p) f k = f (typed_meta name notes) (k\<lparr>cn_in := rs,
      cn_out := cn_out k @ (if p = [] then ''Entry name: '' else p) @ ''Notes (optional): ''\<rparr>)"
  by (rule bind_m_Inr) (rule metadata_run [OF assms])

lemma master_then:
  "plain_line line \<Longrightarrow> cn_in k = typed line @ rs \<Longrightarrow>
    bind_m (promptMasterPassword None) f k = f line (k\<lparr>cn_in := rs, cn_out := cn_out k @ ''Master password: ''\<rparr>)"
  by (rule bind_m_Inr) (simp add: promptMasterPassword_def cli_runs prompt_then)

lemma value_then:
  "plain_line line \<Longrightarrow> cn_in k = typed line @ rs \<Longrightarrow>
    bind_m (promptPasswordValue None p) f k = f line (k\<lparr>cn_in := rs, cn_out := cn_out k @ p\<rparr>)"
  by (rule bind_m_Inr) (simp add: promptPasswordValue_def prompt_then)

declare metadata_then [cli_runs] master_then [cli_runs] value_then [cli_runs]

section \<open>Finding the command\<close>

lemma find_add_password: "longest buildRoot [''add'', ''password''] =
    Some (command [''add'', ''password''] ''password'' ''Add an encrypted login/password entry'' None (Some HAddPassword))"
  by (simp add: buildRoot_def)

lemma find_get: "longest buildRoot [''get'', x] =
    Some (command [''get''] ''get UUID'' ''Decrypt and print one entry (requires master password)'' (Some 1) (Some HGet))"
  by (simp add: buildRoot_def)

text \<open>A fresh process: its application is wired by its first command.\<close>

definition fresh_app :: "string \<Rightarrow> string \<Rightarrow> delivery \<Rightarrow> app" where
  "fresh_app version buildTime d = \<lparr>ap_Version = version, ap_BuildTime = buildTime, ap_Wire = Some (\<lambda>_. Inr d),
     ap_handlers = None, ap_wireDone = False, ap_wireErr = None, ap_calls = 0\<rparr>"

lemma fresh_app_New: "app_New version buildTime None (Some (\<lambda>_. Inr d)) = Inr (fresh_app version buildTime d)"
  by (simp add: app_New_def fresh_app_def)

lemma run_add_password:
  "\<exists>a. run_command L format tty ev [''add'', ''password''] (fresh_app v b d) k =
    (fst (Delivery_AddPassword tty ev d k), a, snd (Delivery_AddPassword tty ev d k))"
  unfolding run_command_def find_add_password
  by (simp add: ensureHandlers_def fresh_app_def run_handler_def split: prod.split)

lemma run_get:
  "\<exists>a. run_command L format tty ev [''get'', arg] (fresh_app v b d) k =
    (fst (Delivery_Get L tty ev d arg k), a, snd (Delivery_Get L tty ev d arg k))"
  unfolding run_command_def find_get
  by (simp add: ensureHandlers_def fresh_app_def run_handler_def arg0_def split: prod.split)

section \<open>What is typed is what is printed\<close>

definition add_password_dialogue :: string where
  "add_password_dialogue = ''Entry name (e.g. Gmail): Notes (optional): Password to store: Master password: '' @
    ''Encrypted entry saved locally (run `sync` to upload).'' @ [nl]"

lemma add_password_run:
  assumes "plain_line name" and "plain_line notes" and "plain_line secret" and "plain_line master"
    and "cn_in k = typed name @ typed notes @ typed secret @ typed master @ rs"
    and "SetPassword L ev uc (typed_meta name notes) secret master (cn_world k) = (Inr (), w)"
    and "vc_SetPassword (dl_secret d) ev = SetPassword L ev uc"
  shows "Delivery_AddPassword None ev d k =
    (Inr (), k\<lparr>cn_in := rs, cn_world := w, cn_out := cn_out k @ add_password_dialogue\<rparr>)"
  unfolding Delivery_AddPassword_def using assms
  by (simp add: cli_runs wrapped_then on_world_run add_password_dialogue_def)

definition shown_password :: "string \<Rightarrow> string \<Rightarrow> string \<Rightarrow> string" where
  "shown_password name notes secret =
    ''Name: '' @ name @ [nl] @ (if notes = [] then [] else ''Notes: '' @ notes @ [nl]) @
    ''Type: PASSWORD'' @ [nl] @ ''Password: '' @ secret @ [nl]"

lemma get_password_run:
  assumes "plain_line master" and "cn_in k = typed master @ rs" and "uuid_ok L"
    and "GetDecryptedEntry L ev uc i master (cn_world k) =
      (Inr \<lparr>de_Payload = secret, de_Meta = typed_meta name nts, de_Type = EntryTypePassword\<rparr>, w)"
    and "vc_GetDecryptedEntry (dl_secret d) ev = GetDecryptedEntry L ev uc"
  shows "Delivery_Get L None ev d (uuid_String L i) k =
    (Inr (), k\<lparr>cn_in := rs, cn_world := w, cn_out := cn_out k @ ''Master password: '' @ shown_password name nts secret\<rparr>)"
  unfolding Delivery_Get_def show_entry_def using assms
  by (simp add: bind_m_Inr on_world_run cli_runs typed_meta_def shown_password_def EntryTypePassword_def)

lemma typed_meta_shown: "shown_meta EntryTypePassword (typed_meta name notes) = typed_meta name notes"
  by (simp add: shown_meta_def entry_type_defs)

lemma typed_meta_clean: "clean name \<Longrightarrow> clean notes \<Longrightarrow> clean [] \<Longrightarrow> clean_meta clean (typed_meta name notes)"
  by (simp add: clean_meta_def typed_meta_def)

lemma wired_commands:
  "vc_SetPassword (dl_secret (wired_delivery L S n)) ev = SetPassword L ev (NewSecretUseCase (Some (wired_vault L S)) n)"
  "vc_GetDecryptedEntry (dl_secret (wired_delivery L S n)) ev = GetDecryptedEntry L ev (NewSecretUseCase (Some (wired_vault L S)) n)"
  by (simp_all add: wired_delivery_def secret_port_def)


definition toy_console :: "in_read list \<Rightarrow> console" where
  "toy_console rs = \<lparr>cn_world = signed_world, cn_in = rs, cn_out = [], cn_files = Map.empty\<rparr>"

lemma plain_samples: "plain_line []" "plain_line ''mail''" "plain_line ''pw''" "plain_line ''master''"
  by (simp_all add: plain_line_def)


section \<open>Files\<close>

lemma keeps_files [cmd_frame]:
  "keeps cn_files (writePrompt s)" "keeps cn_files (println s)" "keeps cn_files (from_in f)"
  "keeps cn_files (on_world c)" "keeps cn_files (parseUUIDArg L s)" "keeps cn_files (os_ReadFile ev path)"
  "keeps cn_files (arg0 args)"
  by (auto simp: keeps_def println_def writePrompt_def from_in_def on_world_def zoom_def parseUUIDArg_def os_ReadFile_def
      arg0_def bind_m_def try_call_def gets_def ret_def raise_def split: prod.split option.split list.split)

lemma keeps_files_read [cmd_frame]: "keeps cn_files readLine" "keeps cn_files (readPasswordLine tty)"
  unfolding readPasswordLine_def readLine_def by (intro cmd_frame)+

lemma keeps_files_prompts [cmd_frame]:
  "keeps cn_files (promptEntryMetadata p)" "keeps cn_files (promptMasterPassword tty)" "keeps cn_files (promptPasswordValue tty p)"
  "keeps cn_files (promptMultilineText p)" "keeps cn_files (promptCard tty)" "keeps cn_files (promptOptionalFilePath L ev p)"
  unfolding promptEntryMetadata_def promptMasterPassword_def promptPasswordValue_def promptMultilineText_def promptCard_def
    promptOptionalFilePath_def Let_def
  by (intro cmd_frame)+

lemma keeps_files_lines [cmd_frame]: "keeps cn_files (print_lines ls)"
  by (induction ls) (simp_all add: keeps_bind keeps_files)

lemma keeps_files_commands:
  "keeps cn_files (Delivery_Login tty ev d)" "keeps cn_files (Delivery_Register tty ev d)" "keeps cn_files (Delivery_Logout ev d)"
  "keeps cn_files (Delivery_Sync ev d)" "keeps cn_files (Delivery_AddPassword tty ev d)" "keeps cn_files (Delivery_AddText tty ev d)"
  "keeps cn_files (Delivery_AddFile tty ev d x)" "keeps cn_files (Delivery_AddCard tty ev d)"
  "keeps cn_files (Delivery_UpdatePassword L tty ev d x)" "keeps cn_files (Delivery_UpdateText L tty ev d x)"
  "keeps cn_files (Delivery_UpdateCard L tty ev d x)" "keeps cn_files (Delivery_UpdateFile L tty ev d x)"
  "keeps cn_files (Delivery_Delete L tty ev d x)" "keeps cn_files (Delivery_List L format ev d)"
  unfolding Delivery_Login_def Delivery_Register_def Delivery_Logout_def Delivery_Sync_def Delivery_AddPassword_def
    Delivery_AddText_def Delivery_AddFile_def Delivery_AddCard_def Delivery_UpdatePassword_def Delivery_UpdateText_def
    Delivery_UpdateCard_def Delivery_UpdateFile_def Delivery_Delete_def Delivery_List_def Let_def
  by (intro cmd_frame)+

lemma get_path_no_slash:
  assumes "slash \<notin> set (uuid_String L i)"
  shows "slash \<notin> set (get_path L i original)"
proof -
  have "slash \<notin> set ''_''" "slash \<notin> set ''file''" by (simp_all add: slash_def)
  then show ?thesis
    using assms filepath_base_no_slash [of original] by (simp add: get_path_def Let_def)
qed

lemma write_file_files:
  "os_WriteFile ev path data k = (r, k') \<Longrightarrow> cn_files k' = cn_files k \<or> cn_files k' = (cn_files k)(path \<mapsto> data)"
  by (auto simp: os_WriteFile_def ack_call_def bind_m_def try_call_def ret_def raise_def split: option.splits)

lemma write_then_files:
  "bind_m (os_WriteFile ev path data) (\<lambda>_. println s) k = (r, k') \<Longrightarrow>
    cn_files k' = cn_files k \<or> cn_files k' = (cn_files k)(path \<mapsto> data)"
  by (erule bind_m_cases) (auto dest!: write_file_files)

lemma show_files:
  assumes "show_entry L ev i entry k = (r, k')"
  shows "cn_files k' = cn_files k \<or> de_Type entry = EntryTypeFile \<and>
    cn_files k' = (cn_files k)(get_path L i (md_OriginalFilename (de_Meta entry)) \<mapsto> de_Payload entry)"
proof (cases "de_Type entry = EntryTypeFile")
  case True
  have kinds: "EntryTypeFile \<noteq> EntryTypePassword" "EntryTypeFile \<noteq> EntryTypeText" by (simp_all add: entry_type_defs)
  show ?thesis
    using assms unfolding show_entry_def
    by (cases "md_Notes (de_Meta entry) = []") (auto simp: True kinds print_then dest!: write_then_files)
next
  case False
  then have "keeps cn_files (show_entry L ev i entry)"
    unfolding show_entry_def by (intro cmd_frame) simp_all
  from keepsD [OF this assms] show ?thesis by simp
qed

lemma get_files:
  assumes "Delivery_Get L tty ev d arg k = (r, k')"
  shows "cn_files k' = cn_files k \<or> (\<exists>i master entry w w'. uuid_Parse L arg = Some i \<and>
    vc_GetDecryptedEntry (dl_secret d) ev i master w = (Inr entry, w') \<and> de_Type entry = EntryTypeFile \<and>
    cn_files k' = (cn_files k)(get_path L i (md_OriginalFilename (de_Meta entry)) \<mapsto> de_Payload entry))"
  using assms [unfolded Delivery_Get_def]
proof (cases rule: bind_m_cases)
  case err
  then show ?thesis using keepsD [OF keeps_files(5)] by auto
next
  case (ok i k1)
  then have i: "uuid_Parse L arg = Some i" "k1 = k"
    by (auto simp: parseUUIDArg_def ret_def raise_def split: option.splits)
  from ok(2) show ?thesis
  proof (cases rule: bind_m_cases)
    case err
    then show ?thesis using keepsD [OF keeps_files_prompts(2)] i(2) by auto
  next
    case (ok master k2)
    then have k2: "cn_files k2 = cn_files k" using keepsD [OF keeps_files_prompts(2)] i(2) by blast
    from ok(2) show ?thesis
    proof (cases rule: bind_m_cases)
      case err
      then show ?thesis using keepsD [OF keeps_files(4) err(1)] k2 by simp
    next
      case (ok entry k3)
      then have k3: "cn_files k3 = cn_files k" using keepsD [OF keeps_files(4) ok(1)] k2 by simp
      from ok(1) have "vc_GetDecryptedEntry (dl_secret d) ev i master (cn_world k2) = (Inr entry, cn_world k3)"
        by (auto simp: on_world_def zoom_def split: prod.splits)
      with show_files [OF ok(2)] i(1) k3 show ?thesis by auto
    qed
  qed
qed

lemma longest_in: "longest cs args = Some c \<Longrightarrow> c \<in> set cs \<and> starts (cc_Path c) args"
  by (induction cs) (auto split: if_splits option.splits)

lemma get_command:
  assumes "longest buildRoot args = Some c" and "cc_Run c = Some h"
  shows "h = HGet \<Longrightarrow> cc_Path c = [''get''] \<and> cc_Args c = Some 1 \<and> args = ''get'' # drop 1 args"
  using longest_in [OF assms(1)] assms(2)
  by (cases args) (auto simp: buildRoot_def)

lemma keeps_files_arg: "(\<And>x. keeps cn_files (f x)) \<Longrightarrow> keeps cn_files (bind_m (arg0 args) f)"
  by (intro cmd_frame)

lemma keeps_files_handler: "h \<noteq> HGet \<Longrightarrow> keeps cn_files (run_handler L format tty ev d h args)"
  by (cases h) (simp_all add: run_handler_def keeps_files_commands keeps_files_arg)



section \<open>Text, passwords and the table of commands\<close>

fun split_lines :: "string \<Rightarrow> string list" where
  "split_lines [] = [[]]"
| "split_lines (c # cs) = (if c = nl then [] # split_lines cs
     else (case split_lines cs of [] \<Rightarrow> [[c]] | l # ls \<Rightarrow> (c # l) # ls))"

lemma split_line: "nl \<notin> set l \<Longrightarrow> split_lines l = [l]"
  by (induction l) auto

lemma split_line_more: "nl \<notin> set l \<Longrightarrow> split_lines (l @ nl # cs) = l # split_lines cs"
  by (induction l) auto

lemma split_join: "ls \<noteq> [] \<Longrightarrow> \<forall>l\<in>set ls. nl \<notin> set l \<Longrightarrow> split_lines (join_lines ls) = ls"
  by (induction ls rule: join_lines.induct) (auto simp: split_line split_line_more)

text \<open>
  A text is read as it was typed. Any lines that are not empty, typed at the multi-line
  prompt and ended by an empty one, are read as these lines joined by line ends, and the input
  after the empty line is left for the next prompt; splitting the text gives the lines back.
\<close>

theorem typed_text_is_read:
  assumes "\<forall>l\<in>set ls. plain_line l \<and> l \<noteq> []" and "cn_in k = concat (map typed ls) @ typed [] @ rs"
  shows "promptMultilineText banner k =
      (Inr (join_lines ls), k\<lparr>cn_in := rs, cn_out := cn_out k @ banner @ [nl]\<rparr>) \<and>
    (ls \<noteq> [] \<longrightarrow> split_lines (join_lines ls) = ls)"
proof -
  have "read_text [] (concat (map typed ls) @ typed [] @ rs) = (Inr (join_lines ls), rs)"
    using read_text_typed [of ls "[]" rs] assms(1) by auto
  moreover have "ls \<noteq> [] \<Longrightarrow> split_lines (join_lines ls) = ls"
    by (rule split_join) (use assms(1) in \<open>auto simp: plain_line_def\<close>)
  ultimately show ?thesis
    by (simp add: promptMultilineText_def print_then from_in_def assms(2))
qed

theorem typed_text_is_read_witness:
  "promptMultilineText ''Text'' (toy_console (typed ''one'' @ typed ''two'' @ typed [] @ typed ''master'')) =
    (Inr (''one'' @ [nl] @ ''two''), (toy_console (typed ''master''))\<lparr>cn_out := ''Text'' @ [nl]\<rparr>)"
  using typed_text_is_read [of "[''one'', ''two'']" "toy_console (typed ''one'' @ typed ''two'' @ typed [] @ typed ''master'')"
      "typed ''master''" "''Text''"]
  by (simp add: toy_console_def plain_line_def)

text \<open>
  C35: A typing error does not become an account. Two passwords that differ make
  \<^verbatim>\<open>register\<close> fail before any call; two equal ones make it exactly the registration of
  the e-mail and password that were typed, whatever comes of it.
\<close>

theorem register_asks_twice:
  assumes "plain_line email" and "plain_line pw1" and "plain_line pw2" and "cn_in k = typed email @ typed pw1 @ typed pw2 @ rs"
    and "Delivery_Register None ev d k = (r, k')"
  shows "cn_in k' = rs \<and>
    (if pw1 \<noteq> pw2 then r = Inl (ErrNew ''passwords do not match'') \<and> cn_world k' = cn_world k
     else cn_world k' = snd (ac_Register (dl_auth d) ev email pw1 (cn_world k)) \<and>
       (case fst (ac_Register (dl_auth d) ev email pw1 (cn_world k)) of
          Inl e \<Rightarrow> r = Inl (Wrap (Some e) ''register failed'')
        | Inr _ \<Rightarrow> r = Inr () \<and>
            cn_out k' = cn_out k @ ''Email: Password: Confirm password: Registered and logged in.'' @ [nl]))"
proof (cases "ac_Register (dl_auth d) ev email pw1 (cn_world k)")
  case (Pair s w)
  let ?k = "k\<lparr>cn_out := cn_out k @ ''Email: Password: Confirm password: '', cn_in := rs\<rparr>"
  have "Delivery_Register None ev d k = (if pw1 \<noteq> pw2 then raise (ErrNew ''passwords do not match'')
    else bind_m (map_err (\<lambda>e. Wrap (Some e) ''register failed'') (on_world (ac_Register (dl_auth d) ev email pw1))) (\<lambda>_.
      println ''Registered and logged in.'')) ?k"
    unfolding Delivery_Register_def using assms(1-4)
    by (simp add: cli_runs wrapped_then cong: if_cong)
  with assms(5) Pair show ?thesis
    by (cases "pw1 = pw2"; cases s)
      (auto simp: raise_def bind_m_def map_err_def on_world_def zoom_def)
qed

theorem register_asks_twice_witness:
  "\<exists>k'. Delivery_Register None (calm (Unix_Ns 0)) (wired_delivery toy toy_services 0)
      (toy_console (typed ''mail'' @ typed ''pw'' @ typed ''master'')) = (Inl (ErrNew ''passwords do not match''), k') \<and>
    cn_world k' = signed_world"
proof -
  let ?k = "toy_console (typed ''mail'' @ typed ''pw'' @ typed ''master'')"
  obtain r k' where run: "Delivery_Register None (calm (Unix_Ns 0)) (wired_delivery toy toy_services 0) ?k = (r, k')"
    by (cases "Delivery_Register None (calm (Unix_Ns 0)) (wired_delivery toy toy_services 0) ?k")
  have "cn_in ?k = typed ''mail'' @ typed ''pw'' @ typed ''master'' @ []" by (simp add: toy_console_def)
  from register_asks_twice [OF plain_samples(2-4) this run] show ?thesis
    using run by (simp add: toy_console_def)
qed

fun takes_argument :: "handler_id \<Rightarrow> bool" where
  "takes_argument h = (h \<in> {HAddFile, HUpdatePassword, HUpdateText, HUpdateCard, HUpdateFile, HDelete, HGet})"

lemma run_handler_no_argument:
  "\<not> takes_argument h \<Longrightarrow> run_handler L format tty ev d h args = run_handler L format tty ev d h []"
  by (cases h) (simp_all add: run_handler_def)

lemma command_args: "c \<in> set buildRoot \<Longrightarrow> cc_Run c = Some h \<Longrightarrow> cc_Args c = (if takes_argument h then Some 1 else None)"
  by (auto simp: buildRoot_def)

lemma command_found: "\<forall>c\<in>set buildRoot. \<forall>h. cc_Run c = Some h \<longrightarrow> longest buildRoot (cc_Path c @ rest) = Some c"
  by (simp add: buildRoot_def)

lemma one_command: "\<exists>!c. c \<in> set buildRoot \<and> cc_Run c = Some h"
proof -
  let ?run = "filter (\<lambda>c. cc_Run c \<noteq> None) buildRoot"
  have "inj_on cc_Run (set ?run)"
    by (rule distinct_map [THEN iffD1, THEN conjunct2]) (simp add: buildRoot_def)
  moreover have "\<exists>c\<in>set buildRoot. cc_Run c = Some h"
    by (cases h) (simp_all add: buildRoot_def)
  ultimately show ?thesis by (auto simp: inj_on_def)
qed

definition wired_app :: "string \<Rightarrow> string \<Rightarrow> delivery \<Rightarrow> app" where
  "wired_app v b d = (fresh_app v b d)\<lparr>ap_handlers := Some d, ap_wireDone := True, ap_calls := 1\<rparr>"

lemma fresh_ensure: "ensureHandlers ev (fresh_app v b d) = (None, wired_app v b d)"
  by (simp add: ensureHandlers_def fresh_app_def wired_app_def)

text \<open>
  Every command line reaches the handler of its name. Each handler belongs to exactly one
  command; the words of that command, followed by any arguments, run it in a process that has
  just started, and no other; the handlers that read their first argument run only behind the
  check that there is exactly one, so they never read a missing one.
\<close>

theorem commands_reach_handlers:
  shows "(\<exists>!c. c \<in> set buildRoot \<and> cc_Run c = Some h) \<and>
    (\<forall>c\<in>set buildRoot. cc_Run c = Some h \<longrightarrow>
      run_command L format tty ev (cc_Path c @ rest) (fresh_app v b d) k =
        (if takes_argument h \<and> length rest \<noteq> 1 then (Inl (args_error 1 (length rest)), fresh_app v b d, k)
         else (case run_handler L format tty ev d h (if takes_argument h then [hd rest] else []) k of
                 (r, k') \<Rightarrow> (r, wired_app v b d, k'))))"
proof (intro conjI ballI impI)
  fix c assume c: "c \<in> set buildRoot" "cc_Run c = Some h"
  have one: "length rest = 1 \<longleftrightarrow> rest = [hd rest]" by (cases rest) auto
  have args: "run_handler L format tty ev d h rest = run_handler L format tty ev d h (if takes_argument h then [hd rest] else [])"
    if "takes_argument h \<longrightarrow> length rest = 1"
    using that one run_handler_no_argument by (cases "takes_argument h") metis+
  show "run_command L format tty ev (cc_Path c @ rest) (fresh_app v b d) k =
        (if takes_argument h \<and> length rest \<noteq> 1 then (Inl (args_error 1 (length rest)), fresh_app v b d, k)
         else (case run_handler L format tty ev d h (if takes_argument h then [hd rest] else []) k of
                 (r, k') \<Rightarrow> (r, wired_app v b d, k')))"
    unfolding run_command_def command_found [rule_format, OF c] using command_args [OF c] args
    by (simp add: c(2) fresh_ensure wired_app_def del: takes_argument.simps)
qed (rule one_command)

theorem commands_reach_handlers_witness:
  "run_command toy (\<lambda>_. []) None (calm (Unix_Ns 0)) [''get''] (fresh_app [] [] (wired_delivery toy toy_services 0)) (toy_console []) =
    (Inl (args_error 1 0), fresh_app [] [] (wired_delivery toy toy_services 0), toy_console [])"
proof -
  let ?c = "command [''get''] ''get UUID'' ''Decrypt and print one entry (requires master password)'' (Some 1) (Some HGet)"
  have c: "?c \<in> set buildRoot" by (simp add: buildRoot_def)
  have run: "cc_Run ?c = Some HGet" by simp
  from commands_reach_handlers [THEN conjunct2, rule_format, OF c run, of toy "\<lambda>_. []" None "calm (Unix_Ns 0)" "[]" "[]" "[]"]
  show ?thesis by simp
qed

text \<open>The first commands of a process, one after the other.\<close>

fun ensure_all :: "env list \<Rightarrow> app \<Rightarrow> go_error option list \<times> app" where
  "ensure_all [] a = ([], a)"
| "ensure_all (ev # evs) a =
    (case ensureHandlers ev a of (r, a') \<Rightarrow> (case ensure_all evs a' of (rs, a'') \<Rightarrow> (r # rs, a'')))"

lemma ensure_again:
  assumes "ap_wireDone a" and "ap_Wire a \<noteq> None" and "ap_handlers a \<noteq> None \<longrightarrow> ap_wireErr a = None"
  shows "ensure_all evs a = (replicate (length evs) (ap_wireErr a), a)"
  using assms by (induction evs) (auto simp: ensureHandlers_def)

text \<open>
  The client is wired once. An application that is given a way to wire itself calls it at
  its first command and never again, whatever the surroundings are then; every later command
  gets the answer of that call: the same error, or the handlers.
\<close>

theorem wired_once:
  assumes "app_New v b None (Some wire) = Inr a" and "ensure_all (ev # evs) a = (rs, a')"
  shows "ap_calls a' = 1 \<and>
    (case wire ev of
       Inl e \<Rightarrow> rs = replicate (Suc (length evs)) (Some e) \<and> ap_handlers a' = None
     | Inr d \<Rightarrow> rs = replicate (Suc (length evs)) None \<and> ap_handlers a' = Some d)"
proof -
  have a: "a = \<lparr>ap_Version = v, ap_BuildTime = b, ap_Wire = Some wire, ap_handlers = None,
      ap_wireDone = False, ap_wireErr = None, ap_calls = 0\<rparr>"
    using assms(1) by (simp add: app_New_def)
  show ?thesis
    using assms(2) by (cases "wire ev") (auto simp: a ensureHandlers_def ensure_again)
qed

theorem wired_once_witness:
  "ap_calls (snd (ensure_all [calm (Unix_Ns 0), calm (Unix_Ns 1)] (fresh_app [] [] (wired_delivery toy toy_services 0)))) = 1"
proof -
  let ?a = "fresh_app [] [] (wired_delivery toy toy_services 0)"
  obtain rs a' where run: "ensure_all [calm (Unix_Ns 0), calm (Unix_Ns 1)] ?a = (rs, a')"
    by (cases "ensure_all [calm (Unix_Ns 0), calm (Unix_Ns 1)] ?a")
  from wired_once [OF fresh_app_New run] show ?thesis unfolding run snd_conv by simp
qed

end
