(* ===== verification/Go_Paths.thy ===== *)
theory Go_Paths
  imports Go_Strings
begin

text \<open>
  Paths as \<^verbatim>\<open>path/filepath\<close> handles them on Unix: \<^verbatim>\<open>Clean\<close>, \<^verbatim>\<open>Join\<close>,
  \<^verbatim>\<open>Dir\<close> and \<^verbatim>\<open>Abs\<close>.
\<close>

section \<open>Elements of a path\<close>

fun split_path :: "string \<Rightarrow> string list" where
  "split_path [] = [[]]"
| "split_path (c # cs) = (if c = slash then [] # split_path cs
     else (case split_path cs of [] \<Rightarrow> [[c]] | p # ps \<Rightarrow> (c # p) # ps))"

fun join_path :: "string list \<Rightarrow> string" where
  "join_path [] = []"
| "join_path [p] = p"
| "join_path (p # ps) = p @ slash # join_path ps"

text \<open>
  The elements that \<^verbatim>\<open>Clean\<close> keeps, with those already kept on a stack: empty ones and
  \<^verbatim>\<open>.\<close> go away, \<^verbatim>\<open>..\<close> takes the element before it away, and is kept
  only where a relative path begins with it.
\<close>

fun clean_elements :: "bool \<Rightarrow> string list \<Rightarrow> string list \<Rightarrow> string list" where
  "clean_elements rooted kept [] = rev kept"
| "clean_elements rooted kept (p # ps) =
    (if p = [] \<or> p = ''.'' then clean_elements rooted kept ps
     else if p = ''..'' then
       (case kept of
          [] \<Rightarrow> clean_elements rooted (if rooted then [] else [''..'']) ps
        | q # qs \<Rightarrow> clean_elements rooted (if q = ''..'' then ''..'' # kept else qs) ps)
     else clean_elements rooted (p # kept) ps)"

definition is_rooted :: "string \<Rightarrow> bool" where
  "is_rooted p \<longleftrightarrow> (case p of [] \<Rightarrow> False | c # _ \<Rightarrow> c = slash)"

definition filepath_Clean :: "string \<Rightarrow> string" where
  "filepath_Clean p =
    (let body = join_path (clean_elements (is_rooted p) [] (split_path p))
     in if is_rooted p then slash # body else if body = [] then ''.'' else body)"

definition filepath_Join :: "string list \<Rightarrow> string" where
  "filepath_Join ps = (let qs = filter (\<lambda>p. p \<noteq> []) ps in if qs = [] then [] else filepath_Clean (join_path qs))"

definition filepath_Dir :: "string \<Rightarrow> string" where
  "filepath_Dir p = filepath_Clean (rev (dropWhile (\<lambda>c. c \<noteq> slash) (rev p)))"

text \<open>\<^verbatim>\<open>Abs\<close>, with the answer of \<^verbatim>\<open>os.Getwd\<close>.\<close>

definition filepath_Abs :: "'e + string \<Rightarrow> string \<Rightarrow> 'e + string" where
  "filepath_Abs wd p =
    (if is_rooted p then Inr (filepath_Clean p)
     else (case wd of Inl e \<Rightarrow> Inl e | Inr w \<Rightarrow> Inr (filepath_Join [w, p])))"

section \<open>Plain elements\<close>

text \<open>An element that stays as it is: not empty, not a dot or two, without a slash.\<close>

definition plain_element :: "string \<Rightarrow> bool" where
  "plain_element p \<longleftrightarrow> p \<noteq> [] \<and> p \<noteq> ''.'' \<and> p \<noteq> ''..'' \<and> slash \<notin> set p"

lemma clean_plain:
  "list_all plain_element ps \<Longrightarrow> clean_elements rooted kept (ps @ qs) = clean_elements rooted (rev ps @ kept) qs"
  by (induction ps arbitrary: kept) (simp_all add: plain_element_def)

lemma split_element: "slash \<notin> set p \<Longrightarrow> split_path p = [p]"
  by (induction p) auto

lemma split_slash: "slash \<notin> set p \<Longrightarrow> split_path (p @ slash # q) = p # split_path q"
  by (induction p) auto

lemma split_join_path: "ps \<noteq> [] \<Longrightarrow> list_all (\<lambda>p. slash \<notin> set p) ps \<Longrightarrow> split_path (join_path ps) = ps"
  by (induction ps rule: join_path.induct) (auto simp: split_element split_slash)

lemma join_path_append: "ps \<noteq> [] \<Longrightarrow> qs \<noteq> [] \<Longrightarrow> join_path (ps @ qs) = join_path ps @ slash # join_path qs"
proof (induction ps rule: join_path.induct)
  case (2 p)
  then show ?case by (cases qs) auto
qed auto

lemma plain_no_slash: "list_all plain_element ps \<Longrightarrow> list_all (\<lambda>p. slash \<notin> set p) ps"
  by (induction ps) (auto simp: plain_element_def)

lemma join_path_empty_iff: "list_all plain_element ps \<Longrightarrow> join_path ps = [] \<longleftrightarrow> ps = []"
  by (cases ps rule: join_path.cases) (auto simp: plain_element_def)

text \<open>An absolute path of plain elements is clean, and joining plain elements to it appends them.\<close>

definition plain_root :: "string list \<Rightarrow> string" where
  "plain_root ps = slash # join_path ps"

lemma split_plain_root: "ps \<noteq> [] \<Longrightarrow> list_all plain_element ps \<Longrightarrow> split_path (plain_root ps) = [] # ps"
  by (simp add: plain_root_def split_join_path plain_no_slash)

lemma clean_plain_root: "list_all plain_element ps \<Longrightarrow> filepath_Clean (plain_root ps) = plain_root ps"
proof (cases "ps = []")
  case False
  assume "list_all plain_element ps"
  with split_plain_root [OF False this] clean_plain [OF this, of True "[]" "[]"] show ?thesis
    by (simp add: filepath_Clean_def is_rooted_def Let_def) (simp add: plain_root_def)
qed (simp add: plain_root_def filepath_Clean_def is_rooted_def)

lemma join_plain_root:
  assumes "ps \<noteq> []" and "qs \<noteq> []" and "list_all plain_element ps" and "list_all plain_element qs"
  shows "filepath_Join [plain_root ps, join_path qs] = plain_root (ps @ qs)"
proof -
  have ne: "join_path qs \<noteq> []" using join_path_empty_iff [OF assms(4)] assms(2) by simp
  have "join_path [plain_root ps, join_path qs] = plain_root (ps @ qs)"
    by (simp add: plain_root_def join_path_append assms)
  moreover have "list_all plain_element (ps @ qs)" using assms by simp
  ultimately show ?thesis
    using ne by (simp add: filepath_Join_def plain_root_def) (simp add: clean_plain_root flip: plain_root_def)
qed

end
