(* ===== verification/Setup.thy ===== *)
theory Setup
  imports Cli_App Go_Paths
begin

text \<open>
  How the client puts itself together (\<^verbatim>\<open>cmd/client/setup.go\<close>,
  \<^verbatim>\<open>internal/client/pkg/config\<close>, \<^verbatim>\<open>internal/pkg/config\<close>,
  \<^verbatim>\<open>internal/pkg/grpcclient\<close>): reading the configuration, the paths, the logger, the
  transport of its connections, \<^verbatim>\<open>BuildDelivery\<close> with what it opens and closes, and
  the main function.
\<close>

section \<open>What the process meets\<close>

text \<open>
  The answers of the operating system and of the libraries that open something. \<^verbatim>\<open>viper\<close>
  merges defaults, environment and file; what it makes of them is its own.
\<close>

record 'cfg viper =
  vp_GetString :: "string \<Rightarrow> string"
  vp_Changed :: "string \<Rightarrow> bool"
  vp_ReadInConfig :: "string \<Rightarrow> go_error option"
  vp_Unmarshal :: "string option \<Rightarrow> go_error + 'cfg"

record host =
  os_UserHomeDir :: "go_error + string"
  os_Getwd :: "go_error + string"
  os_Stat_IsDir :: "string \<Rightarrow> bool option"
  os_MkdirAll :: "string \<Rightarrow> go_error option"
  os_OpenFile :: "string \<Rightarrow> go_error option"
  sql_Open :: "string \<Rightarrow> go_error option"
  goose_SetDialect :: "go_error option"
  goose_Up :: "string \<Rightarrow> go_error option"
  x509_AppendCertsFromPEM :: "bytes \<Rightarrow> bool"
  grpc_NewClient :: "string \<Rightarrow> go_error option"

definition check :: "go_error option \<Rightarrow> ('s, go_error, unit) cmd" where
  "check r = (case r of None \<Rightarrow> ret () | Some e \<Rightarrow> raise e)"

section \<open>Configuration\<close>

record grpc_tls =
  gt_Enabled :: bool
  gt_CAFile :: string

record client_logging =
  lc_File :: string
  lc_Level :: string
  lc_Format :: string

record client_config =
  cf_AutherAddr :: string
  cf_SkeeperAddr :: string
  cf_DataDir :: string
  cf_MaxFileBytes :: int
  cf_GRPCTLS :: grpc_tls
  cf_Logging :: client_logging

text \<open>The environment variables and defaults that \<^verbatim>\<open>Load\<close> tells viper.\<close>

definition client_env :: "(string \<times> string) list" where
  "client_env = [
     (''auther_addr'', ''SKEEPERCLI_AUTHER''), (''skeeper_addr'', ''SKEEPERCLI_SKEEPER''), (''data_dir'', ''SKEEPERCLI_DATA''),
     (''max_file_bytes'', ''SKEEPERCLI_MAX_FILE_BYTES''), (''grpc_tls.enabled'', ''SKEEPERCLI_GRPC_TLS_ENABLED''),
     (''grpc_tls.ca_file'', ''SKEEPERCLI_GRPC_CA_FILE''), (''client_config_file'', ''SKEEPERCLI_CONFIG''),
     (''logging.file'', ''SKEEPERCLI_LOG_FILE''), (''logging.level'', ''SKEEPERCLI_LOG_LEVEL''), (''logging.format'', ''SKEEPERCLI_LOG_FORMAT'')]"

definition client_defaults :: client_config where
  "client_defaults = \<lparr>cf_AutherAddr = ''127.0.0.1:50051'', cf_SkeeperAddr = ''127.0.0.1:50052'', cf_DataDir = ''~/.skeepercli'',
     cf_MaxFileBytes = 10 * 2 ^ 20, cf_GRPCTLS = \<lparr>gt_Enabled = False, gt_CAFile = ''config/keys/grpc_server.crt''\<rparr>,
     cf_Logging = \<lparr>lc_File = [], lc_Level = ''info'', lc_Format = ''json''\<rparr>\<rparr>"

text \<open>
  \<^verbatim>\<open>Load\<close>: a file named by the flag must be readable; the default one, or one named by
  the environment, is read only if it is there and not a directory. Unmarshalling sees the file
  that was read.
\<close>

definition Load :: "host \<Rightarrow> 'cfg viper \<Rightarrow> go_error + 'cfg" where
  "Load H v =
    (let cfgPath = vp_GetString v ''client_config_file'';
         read = (\<lambda>path. case vp_ReadInConfig v path of
             Some e \<Rightarrow> Inl (Wrap (Some e) ''read config file'')
           | None \<Rightarrow> Inr (Some path));
         file = (if cfgPath = [] then Inr None
           else if vp_Changed v ''config'' then read cfgPath
           else if os_Stat_IsDir H cfgPath = Some False then read cfgPath
           else Inr None)
     in case file of
          Inl e \<Rightarrow> Inl e
        | Inr merged \<Rightarrow> (case vp_Unmarshal v merged of
              Inl e \<Rightarrow> Inl (Wrap (Some e) ''unmarshal config'')
            | Inr cfg \<Rightarrow> Inr cfg))"

text \<open>The configuration of the two services.\<close>

definition config_New :: "'cfg viper \<Rightarrow> string \<Rightarrow> go_error + 'cfg" where
  "config_New v configPath =
    (if configPath = [] then Inl (ErrNew ''config path is empty'')
     else case vp_ReadInConfig v configPath of
       Some e \<Rightarrow> Inl (Wrap (Some e) ''failed to read config file'')
     | None \<Rightarrow> (case vp_Unmarshal v (Some configPath) of
           Inl e \<Rightarrow> Inl (Wrap (Some e) ''failed to unmarshall config'')
         | Inr cfg \<Rightarrow> Inr cfg))"

section \<open>Paths and the logger\<close>

definition expandPath :: "host \<Rightarrow> string \<Rightarrow> go_error + string" where
  "expandPath H p =
    (case p of
       c # d # rest \<Rightarrow>
         if c = CHR ''~'' \<and> (d = slash \<or> d = CHR 0x5C)
         then (case os_UserHomeDir H of Inl e \<Rightarrow> Inl e | Inr h \<Rightarrow> Inr (filepath_Join [h, rest]))
         else Inr p
     | _ \<Rightarrow> Inr p)"

datatype slog_level = LevelDebug | LevelInfo | LevelWarn | LevelError

definition parseSlogLevel :: "lib \<Rightarrow> string \<Rightarrow> slog_level" where
  "parseSlogLevel L s =
    (let l = strings_ToLower L (strings_TrimSpace L s)
     in if l = ''debug'' then LevelDebug
        else if l = ''warn'' \<or> l = ''warning'' then LevelWarn
        else if l = ''err'' \<or> l = ''error'' then LevelError
        else LevelInfo)"

text \<open>What is open, the latest first, and the files.\<close>

datatype transport = Plaintext | TLS_1_2 (root_CAs: bytes)

datatype handle =
    LogFile string
  | Database string
  | AutherConn string "transport list"
  | SkeeperConn string "transport list"

record boot =
  bt_files :: files
  bt_open :: "handle list"

definition opened :: "handle \<Rightarrow> (boot, go_error, unit) cmd" where
  "opened h b = (Inr (), b\<lparr>bt_open := h # bt_open b\<rparr>)"

definition closed :: "handle \<Rightarrow> boot \<Rightarrow> boot" where
  "closed h b = b\<lparr>bt_open := remove1 h (bt_open b)\<rparr>"

record logger =
  lg_Level :: slog_level
  lg_Out :: "string option"
  lg_Text :: bool

definition newClientLogger :: "lib \<Rightarrow> host \<Rightarrow> client_logging \<Rightarrow> (boot, go_error, logger) cmd" where
  "newClientLogger L H cfg =
    (let path = strings_TrimSpace L (lc_File cfg);
         lg = (\<lambda>out. \<lparr>lg_Level = parseSlogLevel L (lc_Level cfg), lg_Out = out,
           lg_Text = (strings_ToLower L (strings_TrimSpace L (lc_Format cfg)) = ''text'')\<rparr>)
     in if path = [] then ret (lg None)
        else
          bind_m (map_err (\<lambda>e. Wrap (Some e) ''log file path'') (of_result (expandPath H path))) (\<lambda>p.
          bind_m (map_err (\<lambda>e. Wrap (Some e) ''log file dir'') (check (os_MkdirAll H (filepath_Dir p)))) (\<lambda>_.
          bind_m (map_err (\<lambda>e. Wrap (Some e) ''open log file'') (check (os_OpenFile H p))) (\<lambda>_.
          bind_m (opened (LogFile p)) (\<lambda>_.
          ret (lg (Some p)))))))"

section \<open>Transport\<close>

definition DialOptions :: "host \<Rightarrow> env \<Rightarrow> grpc_tls \<Rightarrow> (boot, go_error, transport list) cmd" where
  "DialOptions H ev cfg =
    (if gt_Enabled cfg then
       if gt_CAFile cfg = [] then raise (ErrNew ''grpc tls enabled but ca_file is empty'')
       else
         bind_m (map_err (\<lambda>e. Wrap (Some e) ''read grpc ca file'') (try_call ev FileRead)) (\<lambda>_.
         bind_m (gets (\<lambda>b. bt_files b (gt_CAFile cfg))) (\<lambda>content.
           case content of
             None \<Rightarrow> raise (Wrap (Some (LibErr ''no such file or directory'')) ''read grpc ca file'')
           | Some pemData \<Rightarrow>
               bind_m (ensure (x509_AppendCertsFromPEM H pemData) (ErrNew ''grpc ca file: no certificates parsed'')) (\<lambda>_.
               ret [TLS_1_2 pemData])))
     else ret [Plaintext])"

definition NewAutherClient :: "host \<Rightarrow> string \<Rightarrow> transport list \<Rightarrow> (boot, go_error, unit) cmd" where
  "NewAutherClient H addr dialOpts =
    bind_m (ensure (addr \<noteq> []) (ErrNew ''auther address is required'')) (\<lambda>_.
    bind_m (ensure (dialOpts \<noteq> []) (ErrNew ''dial options are required (use grpcclient.DialOptions)'')) (\<lambda>_.
    bind_m (check (grpc_NewClient H addr)) (\<lambda>_.
    opened (AutherConn addr dialOpts))))"

definition NewSkeeperClient :: "host \<Rightarrow> string \<Rightarrow> transport list \<Rightarrow> (boot, go_error, unit) cmd" where
  "NewSkeeperClient H addr dialOpts =
    bind_m (ensure (addr \<noteq> []) (ErrNew ''skeeper address is required'')) (\<lambda>_.
    bind_m (ensure (dialOpts \<noteq> []) (ErrNew ''dial options are required (use grpcclient.DialOptions)'')) (\<lambda>_.
    bind_m (check (grpc_NewClient H addr)) (\<lambda>_.
    opened (SkeeperConn addr dialOpts))))"

section \<open>The local database\<close>

text \<open>A \<^verbatim>\<open>defer\<close> that closes a resource when the function fails.\<close>

definition or_close :: "handle \<Rightarrow> (boot, go_error, 'a) cmd \<Rightarrow> (boot, go_error, 'a) cmd" where
  "or_close h c b = (case c b of (Inl e, t) \<Rightarrow> (Inl e, closed h t) | (Inr x, t) \<Rightarrow> (Inr x, t))"

definition on_files :: "(files, go_error, 'a) cmd \<Rightarrow> (boot, go_error, 'a) cmd" where
  "on_files c = zoom bt_files (\<lambda>f b. b\<lparr>bt_files := f\<rparr>) c"

definition db_New :: "host \<Rightarrow> env \<Rightarrow> string \<Rightarrow> (boot, go_error, bytes) cmd" where
  "db_New H ev dsn =
    bind_m (map_err (\<lambda>e. Wrap (Some e) ''open sqlite'') (check (sql_Open H dsn))) (\<lambda>_.
    bind_m (opened (Database dsn)) (\<lambda>_.
    or_close (Database dsn) (on_files (loadOrCreateSessionKey ev (filepath_Join [filepath_Dir dsn, ''.session-key''])))))"

definition RunMigrations :: "host \<Rightarrow> string \<Rightarrow> (boot, go_error, unit) cmd" where
  "RunMigrations H dsn =
    bind_m (check (goose_SetDialect H)) (\<lambda>_.
    map_err (\<lambda>e. Wrap (Some e) ''goose up'') (check (goose_Up H dsn)))"

section \<open>The whole client\<close>

text \<open>From the migrations on; the database is open.\<close>

definition connect_clients ::
  "lib \<Rightarrow> services \<Rightarrow> host \<Rightarrow> env \<Rightarrow> client_config \<Rightarrow> string \<Rightarrow> (boot, go_error, delivery) cmd" where
  "connect_clients L S H ev cfg dbPath =
    bind_m (map_err (\<lambda>e. Wrap (Some e) ''migrations'') (RunMigrations H dbPath)) (\<lambda>_.
    bind_m (map_err (\<lambda>e. Wrap (Some e) ''grpc dial options'') (DialOptions H ev (cf_GRPCTLS cfg))) (\<lambda>dialOpts.
    bind_m (map_err (\<lambda>e. Wrap (Some e) ''auther client'') (NewAutherClient H (cf_AutherAddr cfg) dialOpts)) (\<lambda>_.
    bind_m (map_err (\<lambda>e. Wrap (Some e) ''skeeper client'') (NewSkeeperClient H (cf_SkeeperAddr cfg) dialOpts)) (\<lambda>_.
    or_close (SkeeperConn (cf_SkeeperAddr cfg) dialOpts)
      (of_result (delivery_New (Some (auth_port L S))
        (Some (secret_port L (NewSecretUseCase (Some (wired_vault L S)) (cf_MaxFileBytes cfg))))
        (Some (sync_port L (NewSyncUseCase (wired_sync L S))))))))))"

definition BuildDelivery ::
  "lib \<Rightarrow> services \<Rightarrow> host \<Rightarrow> env \<Rightarrow> client_config viper \<Rightarrow> (boot, go_error, delivery) cmd" where
  "BuildDelivery L S H ev v =
    bind_m (map_err (\<lambda>e. Wrap (Some e) ''failed to load client config'') (of_result (Load H v))) (\<lambda>cfg.
    bind_m (of_result (expandPath H (cf_DataDir cfg))) (\<lambda>dir.
    bind_m (map_err (\<lambda>e. Wrap (Some e) ''data dir'') (check (os_MkdirAll H dir))) (\<lambda>_.
    bind_m (of_result (filepath_Abs (os_Getwd H) (filepath_Join [dir, ''local.db'']))) (\<lambda>dbPath.
    bind_m (newClientLogger L H (cf_Logging cfg)) (\<lambda>l.
    bind_m (map_err (\<lambda>e. Wrap (Some e) ''open db'') (db_New H ev dbPath)) (\<lambda>sessionKey.
    or_close (Database dbPath) (connect_clients L S H ev cfg dbPath)))))))"

section \<open>What it opens and closes\<close>

lemma delivery_wired: "delivery_New (Some (auth_port L S)) (Some (secret_port L (NewSecretUseCase (Some (wired_vault L S)) n)))
    (Some (sync_port L (NewSyncUseCase (wired_sync L S)))) = Inr (wired_delivery L S n)"
  by (simp add: delivery_New_def wired_delivery_def)

text \<open>Commands that only look, or only write files.\<close>

lemma keeps_open [cmd_frame]:
  "keeps bt_open (check r)" "keeps bt_open (on_files c)" "keeps bt_open (RunMigrations H dsn)"
  "keeps bt_open (DialOptions H ev cfg)"
proof -
  show check: "keeps bt_open (check r)" for r :: "go_error option"
    by (simp add: check_def split: option.split)
  show "keeps bt_open (on_files c)"
    by (simp add: keeps_def on_files_def zoom_def split: prod.split)
  show "keeps bt_open (RunMigrations H dsn)"
    unfolding RunMigrations_def by (intro cmd_frame check)
  show "keeps bt_open (DialOptions H ev cfg)"
    unfolding DialOptions_def by (intro cmd_frame)
qed

text \<open>TLS that was asked for is TLS that is used.\<close>

lemma DialOptions_Inr:
  assumes "DialOptions H ev cfg b = (Inr opts, t)"
  shows "opts \<noteq> []" and "gt_Enabled cfg \<Longrightarrow> \<exists>pem. bt_files b (gt_CAFile cfg) = Some pem \<and>
      x509_AppendCertsFromPEM H pem \<and> opts = [TLS_1_2 pem]"
  using assms unfolding DialOptions_def
  by (auto simp: cmd_defs try_call_def split: if_splits option.splits)

lemma map_err_cases:
  assumes "map_err h c s = (r, t)"
  obtains (err) e where "c s = (Inl e, t)" and "r = Inl (h e)" | (ok) x where "c s = (Inr x, t)" and "r = Inr x"
  using assms by (auto simp: map_err_def split: prod.splits sum.splits)

lemma logger_open:
  assumes "newClientLogger L H cfg b = (r, t)"
  shows "case r of Inl e \<Rightarrow> bt_open t = bt_open b
    | Inr l \<Rightarrow> bt_open t = (case lg_Out l of None \<Rightarrow> [] | Some p \<Rightarrow> [LogFile p]) @ bt_open b"
  using assms unfolding newClientLogger_def Let_def
  by (auto simp: cmd_defs check_def opened_def split: if_splits sum.splits option.splits)

lemma db_New_open:
  assumes "db_New H ev dsn b = (r, t)"
  shows "bt_open t = (case r of Inl e \<Rightarrow> [] | Inr key \<Rightarrow> [Database dsn]) @ bt_open b"
  using assms unfolding db_New_def
  by (auto simp: cmd_defs check_def opened_def or_close_def on_files_def closed_def split: sum.splits option.splits prod.splits)

lemma new_clients_open:
  "NewAutherClient H addr opts b = (r, t) \<Longrightarrow>
    bt_open t = (case r of Inl e \<Rightarrow> [] | Inr _ \<Rightarrow> [AutherConn addr opts]) @ bt_open b"
  "NewSkeeperClient H addr opts b = (r, t) \<Longrightarrow>
    bt_open t = (case r of Inl e \<Rightarrow> [] | Inr _ \<Rightarrow> [SkeeperConn addr opts]) @ bt_open b"
  unfolding NewAutherClient_def NewSkeeperClient_def
  by (auto simp: cmd_defs check_def opened_def split: if_splits option.splits)

lemma connect_clients_open:
  assumes "connect_clients L S H ev cfg dbPath b = (r, t)"
  shows "case r of
      Inl e \<Rightarrow> \<exists>conns. bt_open t = conns @ bt_open b \<and> (\<forall>h\<in>set conns. \<exists>opts. h = AutherConn (cf_AutherAddr cfg) opts)
    | Inr d \<Rightarrow> d = wired_delivery L S (cf_MaxFileBytes cfg) \<and>
        (\<exists>opts. bt_open t = [SkeeperConn (cf_SkeeperAddr cfg) opts, AutherConn (cf_AutherAddr cfg) opts] @ bt_open b \<and>
          (gt_Enabled (cf_GRPCTLS cfg) \<longrightarrow> (\<exists>pem. opts = [TLS_1_2 pem] \<and> x509_AppendCertsFromPEM H pem)))"
  using assms [unfolded connect_clients_def]
proof (cases rule: bind_m_cases)
  case err
  with keepsD [OF keeps_map_err [OF keeps_open(3)] err(1)] show ?thesis by simp
next
  case (ok x b1)
  have b1: "bt_open b1 = bt_open b" using keepsD [OF keeps_map_err [OF keeps_open(3)] ok(1)] by simp
  from ok(2) show ?thesis
  proof (cases rule: bind_m_cases)
    case err
    with keepsD [OF keeps_map_err [OF keeps_open(4)] err(1)] b1 show ?thesis by simp
  next
    case (ok opts b2)
    have b2: "bt_open b2 = bt_open b" using keepsD [OF keeps_map_err [OF keeps_open(4)] ok(1)] b1 by simp
    note tls = DialOptions_Inr(2) [OF map_err_InrD [OF ok(1)]]
    from ok(2) show ?thesis
    proof (cases rule: bind_m_cases)
      case err
      from err(1) obtain e where "NewAutherClient H (cf_AutherAddr cfg) opts b2 = (Inl e, t)" by (rule map_err_cases) auto
      from new_clients_open(1) [OF this] err(2) b2 show ?thesis by simp
    next
      case (ok y b3)
      then have b3: "bt_open b3 = AutherConn (cf_AutherAddr cfg) opts # bt_open b"
        using new_clients_open(1) [OF map_err_InrD [OF ok(1)]] b2 by simp
      from ok(2) show ?thesis
      proof (cases rule: bind_m_cases)
        case err
        from err(1) obtain e where "NewSkeeperClient H (cf_SkeeperAddr cfg) opts b3 = (Inl e, t)" by (rule map_err_cases) auto
        from new_clients_open(2) [OF this] err(2) b3 show ?thesis
          by (auto intro: exI [of _ "[AutherConn (cf_AutherAddr cfg) opts]"])
      next
        case (ok z b4)
        have "bt_open b4 = [SkeeperConn (cf_SkeeperAddr cfg) opts, AutherConn (cf_AutherAddr cfg) opts] @ bt_open b"
          using new_clients_open(2) [OF map_err_InrD [OF ok(1)]] b3 by simp
        with ok(2) tls show ?thesis by (auto simp: delivery_wired or_close_def of_result_def)
      qed
    qed
  qed
qed

lemma or_close_cases:
  assumes "or_close h c b = (r, t)"
  obtains (err) e u where "c b = (Inl e, u)" and "r = Inl e" and "t = closed h u" | (ok) x where "c b = (Inr x, t)" and "r = Inr x"
  using assms by (auto simp: or_close_def split: prod.splits sum.splits)

lemma of_result_cases:
  assumes "bind_m (of_result q) f s = (r, t)"
  obtains (err) e where "q = Inl e" and "r = Inl e" and "t = s" | (ok) x where "q = Inr x" and "f x s = (r, t)"
  using assms by (auto simp: bind_m_def of_result_def split: sum.splits)

lemma map_err_of_result: "map_err h (of_result q) = of_result (case q of Inl e \<Rightarrow> Inl (h e) | Inr x \<Rightarrow> Inr x)"
  by (auto simp: cmd_defs fun_eq_iff split: sum.split)

lemma check_cases:
  assumes "bind_m (map_err h (check q)) f s = (r, t)"
  obtains (err) e where "r = Inl e" and "t = s" | (ok) "f () s = (r, t)"
  using assms by (auto simp: cmd_defs check_def split: option.splits)

definition only_logs :: "handle list \<Rightarrow> bool" where
  "only_logs hs \<longleftrightarrow> hs = [] \<or> (\<exists>p. hs = [LogFile p])"

text \<open>The steps up to the database.\<close>

lemma open_database:
  assumes "bind_m (newClientLogger L H lc) (\<lambda>l. bind_m (map_err h (db_New H ev dbPath)) (\<lambda>key. or_close (Database dbPath) rest)) b = (r, t)"
  obtains (err) e logs where "r = Inl e" and "only_logs logs" and "bt_open t = logs @ bt_open b"
    | (failed) e u logs b1 where "rest b1 = (Inl e, u)" and "r = Inl e" and "t = closed (Database dbPath) u" and "only_logs logs"
        and "bt_open b1 = Database dbPath # logs @ bt_open b"
    | (ok) x logs b1 where "rest b1 = (Inr x, t)" and "r = Inr x" and "only_logs logs" and "bt_open b1 = Database dbPath # logs @ bt_open b"
  using assms
proof (cases rule: bind_m_cases)
  case err
  then show thesis using logger_open [OF err(1)] by (intro that(1) [of _ "[]"]) (simp_all add: only_logs_def)
next
  case (ok l b1)
  define logs where "logs = (case lg_Out l of None \<Rightarrow> [] | Some p \<Rightarrow> [LogFile p])"
  have logs: "only_logs logs" "bt_open b1 = logs @ bt_open b"
    using logger_open [OF ok(1)] by (auto simp: logs_def only_logs_def split: option.split)
  from ok(2) show thesis
  proof (cases rule: bind_m_cases)
    case err
    from err(1) obtain e where "db_New H ev dbPath b1 = (Inl e, t)" by (rule map_err_cases) auto
    from db_New_open [OF this] err(2) logs show thesis by (intro that(1)) simp_all
  next
    case (ok key b2)
    have b2: "bt_open b2 = Database dbPath # logs @ bt_open b"
      using db_New_open [OF map_err_InrD [OF ok(1)]] logs(2) by simp
    from ok(2) show thesis
      by (cases rule: or_close_cases) (rule that(2) [OF _ _ _ logs(1) b2], assumption+, rule that(3) [OF _ _ logs(1) b2], assumption+)
  qed
qed

lemma build_steps:
  assumes "BuildDelivery L S H ev v b = (r, t)"
  obtains (early) e where "r = Inl e" and "t = b"
    | (database) cfg dbPath where "Load H v = Inr cfg"
        and "bind_m (newClientLogger L H (cf_Logging cfg)) (\<lambda>l.
          bind_m (map_err (\<lambda>e. Wrap (Some e) ''open db'') (db_New H ev dbPath)) (\<lambda>sessionKey.
          or_close (Database dbPath) (connect_clients L S H ev cfg dbPath))) b = (r, t)"
  using assms [unfolded BuildDelivery_def map_err_of_result]
proof (cases rule: of_result_cases)
  case (ok cfg)
  then have cfg: "Load H v = Inr cfg" by (simp split: sum.splits)
  from ok(2) show thesis
  proof (cases rule: of_result_cases)
    case (ok dir)
    from ok(2) show thesis
    proof (cases rule: check_cases)
      case ok
      then show thesis by (cases rule: of_result_cases) (rule early, assumption+, rule database [OF cfg], assumption)
    qed (rule early)
  qed (rule early)
qed (rule early)

text \<open>
  C32: What the client opens and closes when it starts. If building it fails, whatever fails,
  neither the database nor the connection to the vault service stays open; only the log file and
  the connection to Auther may (nothing closes them). If it succeeds, the handlers are the use
  cases wired to the configured services, all four things are open, and both connections use the
  transport of the configuration: with TLS switched on, never a plaintext one.
\<close>

theorem build_delivery:
  assumes "BuildDelivery L S H ev v b = (r, t)"
  shows "case r of
      Inl e \<Rightarrow> \<exists>left. bt_open t = left @ bt_open b \<and> (\<forall>h\<in>set left. (\<exists>p. h = LogFile p) \<or> (\<exists>addr opts. h = AutherConn addr opts))
    | Inr d \<Rightarrow> \<exists>cfg dsn opts logs. Load H v = Inr cfg \<and> d = wired_delivery L S (cf_MaxFileBytes cfg) \<and> only_logs logs \<and>
        bt_open t = [SkeeperConn (cf_SkeeperAddr cfg) opts, AutherConn (cf_AutherAddr cfg) opts, Database dsn] @ logs @ bt_open b \<and>
        (gt_Enabled (cf_GRPCTLS cfg) \<longrightarrow> (\<exists>pem. opts = [TLS_1_2 pem] \<and> x509_AppendCertsFromPEM H pem))"
  using assms
proof (cases rule: build_steps)
  case (early e)
  then show ?thesis by simp
next
  case (database cfg dbPath)
  from database(2) show ?thesis
  proof (cases rule: open_database)
    case (err e logs)
    then show ?thesis by (auto simp: only_logs_def)
  next
    case (failed e u logs b1)
    from connect_clients_open [OF failed(1)] obtain conns
      where u: "bt_open u = conns @ Database dbPath # logs @ bt_open b" and conns: "\<forall>h\<in>set conns. \<exists>opts. h = AutherConn (cf_AutherAddr cfg) opts"
      using failed(5) by auto
    have "Database dbPath \<notin> set conns" using conns by auto
    then have "bt_open t = (conns @ logs) @ bt_open b" by (simp add: failed(3) closed_def u remove1_append)
    moreover have "\<forall>h\<in>set (conns @ logs). (\<exists>p. h = LogFile p) \<or> (\<exists>addr opts. h = AutherConn addr opts)"
      using conns failed(4) by (auto simp: only_logs_def)
    ultimately show ?thesis using failed(2) by auto
  next
    case (ok d logs b1)
    with connect_clients_open [OF ok(1)] database(1) show ?thesis by auto
  qed
qed

definition toy_host :: host where
  "toy_host = \<lparr>os_UserHomeDir = Inr ''/home/ann'', os_Getwd = Inr ''/tmp'', os_Stat_IsDir = (\<lambda>_. None), os_MkdirAll = (\<lambda>_. None),
     os_OpenFile = (\<lambda>_. None), sql_Open = (\<lambda>_. None), goose_SetDialect = None, goose_Up = (\<lambda>_. None),
     x509_AppendCertsFromPEM = (\<lambda>_. False), grpc_NewClient = (\<lambda>_. None)\<rparr>"

definition toy_viper :: "client_config viper" where
  "toy_viper = \<lparr>vp_GetString = (\<lambda>_. ''config/client.yaml''), vp_Changed = (\<lambda>_. False), vp_ReadInConfig = (\<lambda>_. None),
     vp_Unmarshal = (\<lambda>_. Inr (client_defaults\<lparr>cf_GRPCTLS := \<lparr>gt_Enabled = True, gt_CAFile = []\<rparr>\<rparr>))\<rparr>"

theorem build_delivery_witness:
  "\<exists>e t. BuildDelivery toy toy_services toy_host (calm (Unix_Ns 0)) toy_viper \<lparr>bt_files = Map.empty, bt_open = []\<rparr> = (Inl e, t) \<and>
    Database ''/home/ann/.skeepercli/local.db'' \<notin> set (bt_open t)"
proof -
  obtain r t where run: "BuildDelivery toy toy_services toy_host (calm (Unix_Ns 0)) toy_viper \<lparr>bt_files = Map.empty, bt_open = []\<rparr> = (r, t)"
    by (cases "BuildDelivery toy toy_services toy_host (calm (Unix_Ns 0)) toy_viper \<lparr>bt_files = Map.empty, bt_open = []\<rparr>")
  have cfg: "Load toy_host toy_viper = Inr (client_defaults\<lparr>cf_GRPCTLS := \<lparr>gt_Enabled = True, gt_CAFile = []\<rparr>\<rparr>)"
    by (simp add: Load_def toy_viper_def toy_host_def Let_def)
  from build_delivery [OF run] have built: "case r of
      Inl e \<Rightarrow> \<exists>left. bt_open t = left \<and> (\<forall>h\<in>set left. (\<exists>p. h = LogFile p) \<or> (\<exists>addr opts. h = AutherConn addr opts))
    | Inr d \<Rightarrow> \<exists>pem. x509_AppendCertsFromPEM toy_host pem"
    by (auto simp: cfg split: sum.splits)
  moreover have "\<not> x509_AppendCertsFromPEM toy_host pem" for pem by (simp add: toy_host_def)
  ultimately obtain e where "r = Inl e" and "\<forall>h\<in>set (bt_open t). (\<exists>p. h = LogFile p) \<or> (\<exists>addr opts. h = AutherConn addr opts)"
    by (cases r) auto
  then show ?thesis using run by auto
qed

section \<open>Smaller facts\<close>

text \<open>A path under the home directory is one after it is expanded.\<close>

lemma expand_home:
  assumes "os_UserHomeDir H = Inr (plain_root home)" and "home \<noteq> []" and "rel \<noteq> []"
    and "list_all plain_element home" and "list_all plain_element rel"
  shows "expandPath H (CHR ''~'' # slash # join_path rel) = Inr (plain_root (home @ rel))"
  by (simp add: expandPath_def assms(1) join_plain_root [OF assms(2-5)])

text \<open>A default configuration file that is missing is no error; one that was asked for is.\<close>

lemma load_missing:
  assumes "vp_ReadInConfig v (vp_GetString v ''client_config_file'') = Some e"
    and "os_Stat_IsDir H (vp_GetString v ''client_config_file'') = None" and "vp_GetString v ''client_config_file'' \<noteq> []"
  shows "Load H v = (if vp_Changed v ''config'' then Inl (Wrap (Some e) ''read config file'')
    else case vp_Unmarshal v None of Inl e' \<Rightarrow> Inl (Wrap (Some e') ''unmarshal config'') | Inr cfg \<Rightarrow> Inr cfg)"
  using assms by (simp add: Load_def Let_def)

section \<open>The program\<close>

text \<open>
  \<^verbatim>\<open>ExecuteContext\<close> prints the error of the command to the standard error and exits
  with 1. (Cobra has printed it before, since neither of its silencing options is set.)
\<close>

definition ExecuteContext ::
  "lib \<Rightarrow> (gotime \<Rightarrow> string) \<Rightarrow> tty \<Rightarrow> env \<Rightarrow> string list \<Rightarrow> app \<Rightarrow> console \<Rightarrow> (nat \<times> go_error option) \<times> console" where
  "ExecuteContext L format tty ev args a k =
    (case run_command L format tty ev args a k of
       (Inl e, a', k') \<Rightarrow> ((1, Some e), k')
     | (Inr _, a', k') \<Rightarrow> ((0, None), k'))"

text \<open>\<open>b\<close> is what is open when the process starts; each process wires itself at most once.\<close>

definition client_main ::
  "lib \<Rightarrow> services \<Rightarrow> host \<Rightarrow> client_config viper \<Rightarrow> boot \<Rightarrow> (gotime \<Rightarrow> string) \<Rightarrow> tty \<Rightarrow> env \<Rightarrow> string \<Rightarrow> string \<Rightarrow>
    string list \<Rightarrow> console \<Rightarrow> (nat \<times> go_error option) \<times> console" where
  "client_main L S H v b format tty ev version buildTime args k =
    (case app_New version buildTime None (Some (\<lambda>ev. fst (BuildDelivery L S H ev v b))) of
       Inl e \<Rightarrow> ((1, Some e), k)
     | Inr a \<Rightarrow> ExecuteContext L format tty ev args a k)"

lemma run_command_wired:
  assumes "longest buildRoot args = Some c" and "cc_Run c = Some h" and "\<forall>n. cc_Args c = Some n \<longrightarrow> length (drop (length (cc_Path c)) args) = n"
    and "ensureHandlers ev a = (r, a')"
  shows "run_command L format tty ev args a k =
    (case r of
       Some e \<Rightarrow> (Inl e, a', k)
     | None \<Rightarrow> (case ap_handlers a' of
           None \<Rightarrow> (Inl (LibErr ''nil pointer dereference''), a', k)
         | Some d \<Rightarrow> (case run_handler L format tty ev d h (drop (length (cc_Path c)) args) k of (r, k') \<Rightarrow> (r, a', k'))))"
proof -
  have "\<not> (\<exists>n. cc_Args c = Some n \<and> length (drop (length (cc_Path c)) args) \<noteq> n)" using assms(3) by blast
  then show ?thesis
    unfolding run_command_def assms(1,2,4) option.case Let_def by (simp only: if_False prod.case split: option.split)
qed

text \<open>
  A command whose start-up fails has read nothing, printed nothing but the error, written no file
  of its own and left the vault as it was.
\<close>

lemma client_main_start:
  assumes "longest buildRoot args = Some c" and "cc_Run c = Some h" and "\<forall>n. cc_Args c = Some n \<longrightarrow> length (drop (length (cc_Path c)) args) = n"
  shows "client_main L S H v b format tty ev version buildTime args k =
    (case fst (BuildDelivery L S H ev v b) of
       Inl e \<Rightarrow> ((1, Some e), k)
     | Inr d \<Rightarrow> (case run_handler L format tty ev d h (drop (length (cc_Path c)) args) k of
           (Inl e, k') \<Rightarrow> ((1, Some e), k') | (Inr _, k') \<Rightarrow> ((0, None), k')))"
proof (cases "fst (BuildDelivery L S H ev v b)")
  case (Inl e)
  show ?thesis
    unfolding client_main_def app_New_def ExecuteContext_def
    by (simp add: run_command_wired [OF assms] ensureHandlers_def Inl)
next
  case (Inr d)
  show ?thesis
    unfolding client_main_def app_New_def ExecuteContext_def
    by (simp add: run_command_wired [OF assms] ensureHandlers_def Inr split: prod.split sum.split)
qed

end
