(* ===== verification/Service_Main.thy ===== *)
theory Service_Main
  imports Setup Interceptors Auther_Service Pg_Url
begin

text \<open>
  How the two services start (\<^verbatim>\<open>cmd/auther/main.go\<close>,
  \<^verbatim>\<open>cmd/skeeper/main.go\<close> and their configuration): each step that fails is logged and
  ends the process with exit code 1; what a \<^verbatim>\<open>defer\<close> would close stays open then, since
  \<^verbatim>\<open>os.Exit\<close> runs no deferred call.
\<close>

section \<open>Configuration and repository\<close>

record service_config =
  vc_Postgres :: pg_config
  vc_JWT :: jwt_config
  vc_Service :: server_config

text \<open>
  What a service process meets: the \<^verbatim>\<open>-config\<close> flag, if it was given; viper by the prefix
  of the environment variables; the file system; and pgx, with any type of configurations and pools.
\<close>

record ('c, 'p) service_host =
  sh_ConfigFlag :: "string option"
  sh_Viper :: "string \<Rightarrow> service_config viper"
  sh_ReadFile :: "string \<Rightarrow> string + bytes"
  sh_ServerTLS :: "string \<Rightarrow> string \<Rightarrow> go_error + unit"
  sh_ParseConfig :: "string \<Rightarrow> go_error + 'c"
  sh_NewWithConfig :: "'c \<Rightarrow> go_error + 'p"

definition flag_value :: "('c, 'p) service_host \<Rightarrow> string \<Rightarrow> string" where
  "flag_value H preset = (case sh_ConfigFlag H of None \<Rightarrow> preset | Some p \<Rightarrow> p)"

definition auther_config_New :: "('c, 'p) service_host \<Rightarrow> go_error + service_config" where
  "auther_config_New H = config_New (sh_Viper H ''AUTHER'') (flag_value H ''config/auther.yaml'')"

definition skeeper_config_New :: "('c, 'p) service_host \<Rightarrow> go_error + service_config" where
  "skeeper_config_New H = config_New (sh_Viper H ''SKEEPER'') (flag_value H ''config/skeeper.yaml'')"

text \<open>Both repositories are their pool, opened from a configuration or a connection string.\<close>

record 'p repository = rp_pool :: 'p

definition NewFromPool :: "'p \<Rightarrow> 'p repository" where
  "NewFromPool pool = \<lparr>rp_pool = pool\<rparr>"

definition auther_repo_New :: "('c, 'p) service_host \<Rightarrow> pg_config \<Rightarrow> go_error + 'p repository" where
  "auther_repo_New H cfg =
    (case NewPool (sh_ParseConfig H) (sh_NewWithConfig H) cfg of Inl e \<Rightarrow> Inl e | Inr pool \<Rightarrow> Inr (NewFromPool pool))"

definition skeeper_repo_New :: "('c, 'p) service_host \<Rightarrow> pg_config \<Rightarrow> go_error + 'p repository" where
  "skeeper_repo_New H cfg =
    (case NewPool (sh_ParseConfig H) (sh_NewWithConfig H) cfg of Inl e \<Rightarrow> Inl e | Inr pool \<Rightarrow> Inr (NewFromPool pool))"

definition NewFromString :: "('c, 'p) service_host \<Rightarrow> string \<Rightarrow> go_error + 'p repository" where
  "NewFromString H connStr =
    (case NewPoolFromConnString (sh_ParseConfig H) (sh_NewWithConfig H) connStr of
       Inl e \<Rightarrow> Inl e | Inr pool \<Rightarrow> Inr (NewFromPool pool))"

section \<open>The processes\<close>

text \<open>The errors a process logged, the pools it has open, and what it served. Its error is its exit code.\<close>

record ('p, 'x) process =
  ps_log :: "(string \<times> go_error) list"
  ps_pools :: "'p list"
  ps_served :: "'x list"

definition or_exit :: "string \<Rightarrow> go_error + 'a \<Rightarrow> (('p, 'x) process, nat, 'a) cmd" where
  "or_exit msg r s =
    (case r of
       Inl e \<Rightarrow> (Inl 1, s\<lparr>ps_log := ps_log s @ [(msg, e)]\<rparr>)
     | Inr x \<Rightarrow> (Inr x, s))"

definition opens :: "'p repository \<Rightarrow> (('p, 'x) process, nat, unit) cmd" where
  "opens repo s = (Inr (), s\<lparr>ps_pools := rp_pool repo # ps_pools s\<rparr>)"

definition repo_Close :: "'p repository \<Rightarrow> (('p, 'x) process, nat, unit) cmd" where
  "repo_Close repo s = (Inr (), s\<lparr>ps_pools := remove1 (rp_pool repo) (ps_pools s)\<rparr>)"

definition serving :: "'x \<Rightarrow> (('p, 'x) process, nat, unit) cmd" where
  "serving x s = (Inr (), s\<lparr>ps_served := ps_served s @ [x]\<rparr>)"

text \<open>
  \<open>returns\<close> is what \<^verbatim>\<open>Server.Serve\<close> returns in the end (theory \<open>Server_Life\<close>); the
  process serves a server and, at Auther, the use case that was made. \<open>m\<close> is the method whose
  interceptor chain is looked at.
\<close>

definition auther_main ::
  "lib \<Rightarrow> env \<Rightarrow> string \<Rightarrow> ('c, 'p) service_host \<Rightarrow> (('s, 'a) grpc_server \<times> auther_uc \<Rightarrow> go_error + unit) \<Rightarrow>
    (('p, ('s, 'a) grpc_server \<times> auther_uc) process, nat, unit) cmd" where
  "auther_main L ev m H returns =
    bind_m (or_exit ''failed to init config'' (auther_config_New H)) (\<lambda>cfg.
    bind_m (or_exit ''failed to init jwt helper'' (NewFromConfig L (sh_ReadFile H) (vc_JWT cfg))) (\<lambda>jwtHelper.
    bind_m (or_exit ''failed to init repo'' (auther_repo_New H (vc_Postgres cfg))) (\<lambda>repo.
    bind_m (opens repo) (\<lambda>_.
    bind_m (or_exit ''failed to init usecase'' (New_auther L ev jwtHelper)) (\<lambda>uc.
    bind_m (or_exit ''failed to init grpc server'' (server_New (sh_ServerTLS H) L ev m (vc_Service cfg) [])) (\<lambda>srv.
    bind_m (serving (srv, uc)) (\<lambda>_.
    bind_m (or_exit ''failed with error'' (returns (srv, uc))) (\<lambda>_.
    repo_Close repo))))))))"

definition skeeper_main ::
  "lib \<Rightarrow> env \<Rightarrow> string \<Rightarrow> ('c, 'p) service_host \<Rightarrow> (('s, 'a) grpc_server \<Rightarrow> go_error + unit) \<Rightarrow>
    (('p, ('s, 'a) grpc_server) process, nat, unit) cmd" where
  "skeeper_main L ev m H returns =
    bind_m (or_exit ''failed to init config'' (skeeper_config_New H)) (\<lambda>cfg.
    bind_m (or_exit ''failed to init jwt helper'' (NewFromConfig L (sh_ReadFile H) (vc_JWT cfg))) (\<lambda>jwtHelper.
    bind_m (or_exit ''failed to init repo'' (skeeper_repo_New H (vc_Postgres cfg))) (\<lambda>repo.
    bind_m (opens repo) (\<lambda>_.
    bind_m (or_exit ''failed to init grpc server'' (skeeper_server (sh_ServerTLS H) L ev m (vc_Service cfg) jwtHelper)) (\<lambda>srv.
    bind_m (serving srv) (\<lambda>_.
    bind_m (or_exit ''failed with error'' (returns srv)) (\<lambda>_.
    repo_Close repo)))))))"

definition started :: "('p, 'x) process" where
  "started = \<lparr>ps_log = [], ps_pools = [], ps_served = []\<rparr>"

section \<open>How a process ends\<close>

text \<open>The outcome of a process that has served: without an error and everything closed, or not.\<close>

definition ran :: "'p \<Rightarrow> 'x \<Rightarrow> go_error + unit \<Rightarrow> (nat + unit) \<times> ('p, 'x) process \<Rightarrow> bool" where
  "ran pool x served out \<longleftrightarrow>
    (case served of
       Inl e \<Rightarrow> out = (Inl 1, \<lparr>ps_log = [(''failed with error'', e)], ps_pools = [pool], ps_served = [x]\<rparr>)
     | Inr _ \<Rightarrow> out = (Inr (), \<lparr>ps_log = [], ps_pools = [], ps_served = [x]\<rparr>))"

lemma bind_or_exit:
  "bind_m (or_exit msg r) f s =
    (case r of Inl e \<Rightarrow> (Inl 1, s\<lparr>ps_log := ps_log s @ [(msg, e)]\<rparr>) | Inr x \<Rightarrow> f x s)"
  by (simp add: bind_m_def or_exit_def split: sum.split)

lemma bind_opens: "bind_m (opens repo) f s = f () (s\<lparr>ps_pools := rp_pool repo # ps_pools s\<rparr>)"
  and bind_serving: "bind_m (serving x) g s = g () (s\<lparr>ps_served := ps_served s @ [x]\<rparr>)"
  by (simp_all add: bind_m_def opens_def serving_def)

lemmas process_simps = bind_or_exit bind_opens bind_serving repo_Close_def ran_def started_def

lemma skeeper_main_ran:
  assumes "skeeper_main L ev m H returns started = (r, t)"
  shows "ps_served t = [] \<and> r = Inl 1 \<and> length (ps_log t) = 1 \<or>
    (\<exists>cfg jwt repo srv. skeeper_config_New H = Inr cfg \<and> NewFromConfig L (sh_ReadFile H) (vc_JWT cfg) = Inr jwt \<and>
      skeeper_repo_New H (vc_Postgres cfg) = Inr repo \<and>
      server_New (sh_ServerTLS H) L ev m (vc_Service cfg) [AuthInterceptor L ev jwt] = Inr srv \<and>
      ran (rp_pool repo) srv (returns srv) (r, t))"
  using assms by (auto simp: skeeper_main_def process_simps skeeper_server_def split: sum.splits)

lemma auther_main_ran:
  assumes "auther_main L ev m H returns started = (r, t)"
  shows "ps_served t = [] \<and> r = Inl 1 \<and> length (ps_log t) = 1 \<or>
    (\<exists>cfg jwt repo uc srv. auther_config_New H = Inr cfg \<and> NewFromConfig L (sh_ReadFile H) (vc_JWT cfg) = Inr jwt \<and>
      auther_repo_New H (vc_Postgres cfg) = Inr repo \<and> New_auther L ev jwt = Inr uc \<and>
      server_New (sh_ServerTLS H) L ev m (vc_Service cfg) [] = Inr srv \<and>
      ran (rp_pool repo) (srv, uc) (returns (srv, uc)) (r, t))"
  using assms by (auto simp: auther_main_def process_simps split: sum.splits)

text \<open>
  C31: The vault service serves nothing unless its whole start-up succeeded, and then with TLS
  exactly if the configuration asks for it and with authentication by the configured key behind
  the recovery and request-info interceptors. It exits with code 0, its pool closed and no error
  logged, exactly if it served and \<^verbatim>\<open>Serve\<close> returned no error; every other end is
  one logged error and code 1.
\<close>

theorem skeeper_starts:
  assumes "skeeper_main L ev m H returns started = (r, t)"
  shows "ps_served t = [] \<and> r = Inl 1 \<and> length (ps_log t) = 1 \<or>
    (\<exists>cfg jwt repo srv. skeeper_config_New H = Inr cfg \<and> NewFromConfig L (sh_ReadFile H) (vc_JWT cfg) = Inr jwt \<and>
      skeeper_repo_New H (vc_Postgres cfg) = Inr repo \<and>
      gs_creds srv = st_Enabled (sc_TLS (vc_Service cfg)) \<and>
      gs_unary srv = [NewUnaryRecoveryInterceptor m, NewRequestInfoInterceptor L ev m, AuthInterceptor L ev jwt] \<and>
      ran (rp_pool repo) srv (returns srv) (r, t))"
  using skeeper_main_ran [OF assms]
proof (elim disjE exE conjE)
  fix cfg jwt repo srv
  assume steps: "skeeper_config_New H = Inr cfg" "NewFromConfig L (sh_ReadFile H) (vc_JWT cfg) = Inr jwt"
    "skeeper_repo_New H (vc_Postgres cfg) = Inr repo"
    and srv: "server_New (sh_ServerTLS H) L ev m (vc_Service cfg) [AuthInterceptor L ev jwt] = Inr srv"
    and out: "ran (rp_pool repo) srv (returns srv) (r, t)"
  from server_New_Inr [OF srv] steps out show ?thesis by simp blast
qed simp

text \<open>
  The authentication service serves nothing unless its whole start-up succeeded, and then
  with TLS exactly if the configuration asks for it, on tokens signed with the configured key; its
  callers need no token. It exits with code 0, its pool closed, exactly if \<^verbatim>\<open>Serve\<close>
  returned no error.
\<close>

theorem auther_starts:
  assumes "auther_main L ev m H returns started = (r, t)"
  shows "ps_served t = [] \<and> r = Inl 1 \<and> length (ps_log t) = 1 \<or>
    (\<exists>cfg jwt repo uc srv. auther_config_New H = Inr cfg \<and> NewFromConfig L (sh_ReadFile H) (vc_JWT cfg) = Inr jwt \<and>
      auther_repo_New H (vc_Postgres cfg) = Inr repo \<and> au_jwtHelper uc = jwt \<and>
      gs_creds srv = st_Enabled (sc_TLS (vc_Service cfg)) \<and>
      gs_unary srv = [NewUnaryRecoveryInterceptor m, NewRequestInfoInterceptor L ev m] \<and>
      ran (rp_pool repo) (srv, uc) (returns (srv, uc)) (r, t))"
  using auther_main_ran [OF assms]
proof (elim disjE exE conjE)
  fix cfg jwt repo uc srv
  assume steps: "auther_config_New H = Inr cfg" "NewFromConfig L (sh_ReadFile H) (vc_JWT cfg) = Inr jwt"
    "auther_repo_New H (vc_Postgres cfg) = Inr repo"
    and uc: "New_auther L ev jwt = Inr uc" and srv: "server_New (sh_ServerTLS H) L ev m (vc_Service cfg) [] = Inr srv"
    and out: "ran (rp_pool repo) (srv, uc) (returns (srv, uc)) (r, t)"
  have "au_jwtHelper uc = jwt" using uc by (auto simp: New_auther_def split: sum.splits)
  with server_New_Inr [OF srv] steps out show ?thesis by simp blast
qed simp

section \<open>Concrete services\<close>

definition sample_service :: service_config where
  "sample_service = \<lparr>vc_Postgres = sample_pg,
     vc_JWT = \<lparr>jc_PrivateKeyFile = ''priv'', jc_PublicKeyFile = ''pub'', jc_AccessTokenLifetime = 900, jc_RefreshTokenLifetime = 86400, jc_Audience = []\<rparr>,
     vc_Service = \<lparr>sc_ListenAddr = '':50051'', sc_GracefulTimeout = 10, sc_TLS = \<lparr>st_Enabled = True, st_CertFile = ''crt'', st_KeyFile = ''key''\<rparr>,
       sc_ReflectionEnabled = False\<rparr>\<rparr>"

definition sample_host :: "(string \<times> string \<times> string \<times> string \<times> string, string) service_host" where
  "sample_host = \<lparr>sh_ConfigFlag = None,
     sh_Viper = (\<lambda>_. \<lparr>vp_GetString = (\<lambda>_. []), vp_Changed = (\<lambda>_. False), vp_ReadInConfig = (\<lambda>_. None), vp_Unmarshal = (\<lambda>_. Inr sample_service)\<rparr>),
     sh_ReadFile = Inr, sh_ServerTLS = (\<lambda>_ _. Inr ()), sh_ParseConfig = (\<lambda>_. Inr ([], [], [], [], [])), sh_NewWithConfig = (\<lambda>_. Inr ''pool'')\<rparr>"

lemma toy_dummy_hash: "\<exists>h. NewDummyBcryptHash toy (calm t) = Inr h"
  by (simp add: NewDummyBcryptHash_def toy_sel b64_encode_padded_def rand_bytes_def calm_def upt_conv_Cons Let_def)

lemmas sample_start = skeeper_config_New_def auther_config_New_def config_New_def flag_value_def sample_host_def sample_service_def
  NewFromConfig_def New_helper_def skeeper_repo_New_def auther_repo_New_def NewPool_def PoolConfig_def NewFromPool_def
  server_New_def New_auther_def process_simps Let_def toy_sel

theorem skeeper_starts_witness:
  "\<exists>t srv. skeeper_main toy (calm (Unix_Ns 0)) ''/api.Skeeper/Sync'' sample_host (\<lambda>_ :: (unit, unit) grpc_server. Inr ()) started = (Inr (), t) \<and>
    ps_served t = [srv] \<and> ps_pools t = [] \<and> gs_creds srv"
proof -
  obtain r t where run: "skeeper_main toy (calm (Unix_Ns 0)) ''/api.Skeeper/Sync'' sample_host (\<lambda>_ :: (unit, unit) grpc_server. Inr ()) started = (r, t)"
    by (cases "skeeper_main toy (calm (Unix_Ns 0)) ''/api.Skeeper/Sync'' sample_host (\<lambda>_ :: (unit, unit) grpc_server. Inr ()) started")
  then have "r = Inr ()"
    by (simp add: skeeper_main_def skeeper_server_def sample_start split: sum.splits)
  with skeeper_starts [OF run] run show ?thesis
    by (auto simp: ran_def skeeper_config_New_def config_New_def flag_value_def sample_host_def sample_service_def)
qed

theorem auther_starts_witness:
  "\<exists>t e. auther_main toy (calm (Unix_Ns 0)) ''/api.Skeeper/Sync'' sample_host (\<lambda>_ :: (unit, unit) grpc_server \<times> auther_uc. Inl (LibErr ''closed'')) started = (Inl 1, t) \<and>
    ps_pools t = [''pool''] \<and> ps_log t = [(''failed with error'', e)]"
proof -
  obtain r t where run: "auther_main toy (calm (Unix_Ns 0)) ''/api.Skeeper/Sync'' sample_host (\<lambda>_ :: (unit, unit) grpc_server \<times> auther_uc. Inl (LibErr ''closed'')) started = (r, t)"
    by (cases "auther_main toy (calm (Unix_Ns 0)) ''/api.Skeeper/Sync'' sample_host (\<lambda>_ :: (unit, unit) grpc_server \<times> auther_uc. Inl (LibErr ''closed'')) started")
  obtain h where "NewDummyBcryptHash toy (calm (Unix_Ns 0)) = Inr h" using toy_dummy_hash by (rule exE)
  with run have "ps_served t \<noteq> []"
    by (auto simp: auther_main_def sample_start split: sum.splits)
  with auther_starts [OF run] run show ?thesis
    by (auto simp: ran_def auther_repo_New_def NewPool_def PoolConfig_def NewFromPool_def sample_host_def)
qed

end
