(* ===== verification/Secrecy.thy ===== *)
theory Secrecy
  imports Secret_Properties
begin

text \<open>
  What the vault lets out of a secret. A cipher that hides everything but the length of what it
  seals is made a hypothesis on the library, and secrecy is stated as noninterference: two
  commands that differ in the secret only do the same to the whole world, the device's database,
  the vault service and the answer included. (Logging is outside the model; the use case logs
  the name of a new entry in clear.)
\<close>

section \<open>A cipher that hides\<close>

text \<open>Sealings of data of the same length are the same, whatever the data and the key.\<close>

definition sealing_hides :: "lib \<Rightarrow> bool" where
  "sealing_hides L \<longleftrightarrow>
    (\<forall>k k' n d d'. length d = length d' \<longrightarrow> gcm_Seal L k n d = gcm_Seal L k' n d') \<and>
    (\<forall>p s t m h n. length (argon2_IDKey L p s t m h n) = n)"

lemma length_derived: "sealing_hides L \<Longrightarrow> length (DeriveMasterKey L p s) = 32"
  by (simp add: sealing_hides_def DeriveMasterKey_def KeyLength_def)

lemma encrypt_hides:
  assumes "sealing_hides L" and "length d = length d'" and "length k = 32" and "length k' = 32"
  shows "EncryptAESGCM L ev r d k = EncryptAESGCM L ev r d' k'"
proof -
  have "gcm_Seal L k n d = gcm_Seal L k' n d'" for n
    using assms(1,2) by (simp add: sealing_hides_def)
  then show ?thesis by (simp add: EncryptAESGCM_32 assms(3,4))
qed

text \<open>Contents that look alike: the same length, and metadata whose JSON has the same length.\<close>

definition alike :: "lib \<Rightarrow> bytes \<times> entry_metadata \<Rightarrow> bytes \<times> entry_metadata \<Rightarrow> bool" where
  "alike L c c' \<longleftrightarrow> length (fst c) = length (fst c') \<and>
    length (json_Marshal_meta L (snd c)) = length (json_Marshal_meta L (snd c'))"

lemma seal_hides:
  assumes "sealing_hides L" and "alike L (p, m) (p', m')" and "length k = 32" and "length k' = 32"
  shows "sealWithNewDEK L ev e p m k uid = sealWithNewDEK L ev e p' m' k' uid"
proof -
  let ?dek = "rand_bytes ev DrawDEK 32"
  have dek: "length ?dek = 32" by simp
  have lens: "length p = length p'" "length (json_Marshal_meta L m) = length (json_Marshal_meta L m')"
    using assms(2) by (simp_all add: alike_def)
  have enc: "EncryptAESGCM L ev DrawPayloadNonce p ?dek = EncryptAESGCM L ev DrawPayloadNonce p' ?dek"
    "EncryptAESGCM L ev DrawMetaNonce (json_Marshal_meta L m) ?dek = EncryptAESGCM L ev DrawMetaNonce (json_Marshal_meta L m') ?dek"
    "EncryptAESGCM L ev DrawDekNonce ?dek k = EncryptAESGCM L ev DrawDekNonce ?dek k'"
    by (rule encrypt_hides [OF assms(1) lens(1) dek dek], rule encrypt_hides [OF assms(1) lens(2) dek dek],
        rule encrypt_hides [OF assms(1) refl assms(3,4)])
  show ?thesis by (simp only: sealWithNewDEK_def Let_def enc)
qed

section \<open>Master passwords\<close>

text \<open>Master passwords that the verifier does not tell apart.\<close>

definition same_verifier :: "lib \<Rightarrow> string \<Rightarrow> string \<Rightarrow> bool" where
  "same_verifier L mp mp' \<longleftrightarrow>
    (\<forall>s. MasterKeyVerifier L (DeriveMasterKey L mp s) = MasterKeyVerifier L (DeriveMasterKey L mp' s))"

text \<open>
  Commands that use the derived key only through its verifier, or to seal under it, do not tell
  such passwords apart.
\<close>

lemma derive_hides:
  assumes "same_verifier L mp mp'"
    and "c (DeriveMasterKey L mp s) = c' (DeriveMasterKey L mp' s)"
  shows "bind_m (of_result (deriveAndCheckMasterKey L s v mp)) c = bind_m (of_result (deriveAndCheckMasterKey L s v mp')) c'"
proof -
  have "MasterKeyVerifier L (DeriveMasterKey L mp s) = MasterKeyVerifier L (DeriveMasterKey L mp' s)"
    using assms(1) by (simp add: same_verifier_def)
  then show ?thesis
    using assms(2) by (auto simp: deriveAndCheckMasterKey_def Let_def bind_m_def of_result_def fun_eq_iff)
qed

lemma publish_hides:
  "MasterKeyVerifier L k = MasterKeyVerifier L k' \<Longrightarrow>
    finalizeVaultVerifier L ev uc uid s v k = finalizeVaultVerifier L ev uc uid s v k'"
  by (simp only: finalizeVaultVerifier_def publishVaultCrypto_def cong: option.case_cong if_cong)

section \<open>Noninterference\<close>

lemma insert_hides:
  assumes "sealing_hides L" and "alike L (p, m) (p', m')" and "same_verifier L mp mp'"
  shows "insertEncryptedEntry L ev uc typ m p mp = insertEncryptedEntry L ev uc typ m' p' mp'"
proof -
  have ver: "MasterKeyVerifier L (DeriveMasterKey L mp s) = MasterKeyVerifier L (DeriveMasterKey L mp' s)" for s
    using assms(3) by (simp add: same_verifier_def)
  have seal: "sealWithNewDEK L ev e p m (DeriveMasterKey L mp s) uid = sealWithNewDEK L ev e p' m' (DeriveMasterKey L mp' s) uid" for e s uid
    by (rule seal_hides [OF assms(1,2)]) (rule length_derived [OF assms(1)])+
  have rest: "bind_m (of_result (deriveAndCheckMasterKey L s v mp)) (\<lambda>masterKey.
      bind_m (of_result (sealWithNewDEK L ev (new_entry (fresh_uuid ev IdEntry) typ) p m masterKey uid)) (\<lambda>entry.
      bind_m (on_device (SaveEntry L ev entry True)) (\<lambda>_.
      finalizeVaultVerifier L (call_at 3 ev) uc uid s v masterKey))) =
    bind_m (of_result (deriveAndCheckMasterKey L s v mp')) (\<lambda>masterKey.
      bind_m (of_result (sealWithNewDEK L ev (new_entry (fresh_uuid ev IdEntry) typ) p' m' masterKey uid)) (\<lambda>entry.
      bind_m (on_device (SaveEntry L ev entry True)) (\<lambda>_.
      finalizeVaultVerifier L (call_at 3 ev) uc uid s v masterKey)))" for s v uid
    by (rule derive_hides [OF assms(3)]) (simp only: seal publish_hides [OF ver])
  show ?thesis unfolding insertEncryptedEntry_def by (simp only: rest)
qed

lemma seal_hides_same:
  assumes "sealing_hides L" and "alike L (p, m) (p', m')"
  shows "sealWithNewDEK L ev e p m k uid = sealWithNewDEK L ev e p' m' k uid"
proof -
  let ?dek = "rand_bytes ev DrawDEK 32"
  have dek: "length ?dek = 32" by simp
  have lens: "length p = length p'" "length (json_Marshal_meta L m) = length (json_Marshal_meta L m')"
    using assms(2) by (simp_all add: alike_def)
  show ?thesis
    by (simp only: sealWithNewDEK_def Let_def encrypt_hides [OF assms(1) lens(1) dek dek] encrypt_hides [OF assms(1) lens(2) dek dek])
qed


section \<open>A concrete hiding cipher\<close>

definition hiding :: lib where
  "hiding = toy\<lparr>gcm_Seal := \<lambda>k n d. replicate (length d + 16) CHR ''*'', argon2_IDKey := \<lambda>p s t m h n. replicate n CHR ''k''\<rparr>"

lemma hiding_hides: "sealing_hides hiding" "same_verifier hiding mp mp'"
  by (simp_all add: sealing_hides_def same_verifier_def DeriveMasterKey_def hiding_def)


end
