(* ===== verification/Vault_Map.thy ===== *)
theory Vault_Map
  imports Secret_Properties
begin

text \<open>
  What a vault is to its user: a map from identifiers to secrets and tombstones, closed by the
  master password of the first secret. The vault use case on encrypted rows refines it: every
  sequence of commands answers as the map does.
\<close>

section \<open>The abstract vault\<close>

datatype cell = Secret string entry_metadata bytes | Tombstone

record vault =
  vt_Password :: "string option"
  vt_Cells :: "uuid \<Rightarrow> cell option"

text \<open>The commands of the use case; \<open>Add\<close> and \<open>Change\<close> stand for those of the fixed types.\<close>

datatype vault_cmd =
    Add string entry_metadata bytes
  | AddFile entry_metadata string bytes
  | Change uuid string entry_metadata bytes
  | Describe uuid entry_metadata
  | Refile uuid entry_metadata bytes string
  | Remove uuid
  | Read uuid

definition too_large :: "int \<Rightarrow> bytes \<Rightarrow> bool" where
  "too_large maxb b \<longleftrightarrow> maxb > 0 \<and> int (length b) > maxb"

text \<open>A new secret: the first one sets the master password.\<close>

definition vault_add :: "uuid \<Rightarrow> string \<Rightarrow> cell \<Rightarrow> vault \<Rightarrow> (go_error + decrypted_entry option) \<times> vault" where
  "vault_add i q c v =
    (if vt_Password v = None \<or> vt_Password v = Some q
     then (Inr None, v\<lparr>vt_Password := Some q, vt_Cells := (vt_Cells v)(i \<mapsto> c)\<rparr>)
     else (Inl (Sentinel ErrWrongMasterPassword), v))"

text \<open>A command on a secret: whether it is there comes before whether the password is right.\<close>

definition vault_use ::
  "uuid \<Rightarrow> string \<Rightarrow> (string \<Rightarrow> entry_metadata \<Rightarrow> bytes \<Rightarrow> vault \<Rightarrow> (go_error + decrypted_entry option) \<times> vault) \<Rightarrow>
    vault \<Rightarrow> (go_error + decrypted_entry option) \<times> vault" where
  "vault_use i q f v =
    (case vt_Cells v i of
       None \<Rightarrow> (Inl (Sentinel ErrEntryNotFound), v)
     | Some Tombstone \<Rightarrow> (Inl (Sentinel ErrEntryDeleted), v)
     | Some (Secret t m p) \<Rightarrow>
         if vt_Password v = Some q then f t m p v else (Inl (Sentinel ErrWrongMasterPassword), v))"

definition vault_set :: "uuid \<Rightarrow> cell \<Rightarrow> vault \<Rightarrow> (go_error + decrypted_entry option) \<times> vault" where
  "vault_set i c v = (Inr None, v\<lparr>vt_Cells := (vt_Cells v)(i \<mapsto> c)\<rparr>)"

fun vault_step :: "int \<Rightarrow> uuid \<Rightarrow> string \<Rightarrow> vault_cmd \<Rightarrow> vault \<Rightarrow> (go_error + decrypted_entry option) \<times> vault" where
  "vault_step maxb new q (Add t m p) v = vault_add new q (Secret t m p) v"
| "vault_step maxb new q (AddFile m name b) v =
    (if too_large maxb b then (Inl (file_too_large (int (length b)) maxb), v)
     else vault_add new q (Secret EntryTypeFile (m\<lparr>md_OriginalFilename := sanitizeOriginalFilename name\<rparr>) b) v)"
| "vault_step maxb new q (Change i t m p) v =
    vault_use i q (\<lambda>t' m' p' v. if t' \<noteq> t then (Inl (Sentinel ErrWrongEntryType), v) else vault_set i (Secret t m p) v) v"
| "vault_step maxb new q (Describe i m) v =
    vault_use i q (\<lambda>t' m' p' v. if t' \<noteq> EntryTypeFile then (Inl (Sentinel ErrWrongEntryType), v)
      else vault_set i (Secret t' (merge_file_meta m' m) p') v) v"
| "vault_step maxb new q (Refile i m b name) v =
    vault_use i q (\<lambda>t' m' p' v. if t' \<noteq> EntryTypeFile then (Inl (Sentinel ErrWrongEntryType), v)
      else if too_large maxb b then (Inl (file_too_large (int (length b)) maxb), v)
      else vault_set i (Secret t' ((merge_file_meta m' m)\<lparr>md_OriginalFilename := sanitizeOriginalFilename name\<rparr>) b) v) v"
| "vault_step maxb new q (Remove i) v = vault_use i q (\<lambda>t' m' p' v. vault_set i Tombstone v) v"
| "vault_step maxb new q (Read i) v =
    vault_use i q (\<lambda>t' m' p' v. (Inr (Some \<lparr>de_Payload = p', de_Meta = shown_meta t' m', de_Type = t'\<rparr>), v)) v"

section \<open>The commands of the program\<close>

definition quietly :: "('s, 'e, unit) cmd \<Rightarrow> ('s, 'e, decrypted_entry option) cmd" where
  "quietly c = bind_m c (\<lambda>_. ret None)"

fun run_cmd :: "lib \<Rightarrow> env \<Rightarrow> secret_uc \<Rightarrow> string \<Rightarrow> vault_cmd \<Rightarrow> (world, go_error, decrypted_entry option) cmd" where
  "run_cmd L ev uc q (Add t m p) = quietly (insertEncryptedEntry L ev uc t m p q)"
| "run_cmd L ev uc q (AddFile m name b) = quietly (SetFile L ev uc m name b q)"
| "run_cmd L ev uc q (Change i t m p) = quietly (updateEntryReplaceContent L ev uc i t m p q)"
| "run_cmd L ev uc q (Describe i m) = quietly (UpdateFile L ev uc i m q False [] [])"
| "run_cmd L ev uc q (Refile i m b name) = quietly (UpdateFile L ev uc i m q True b name)"
| "run_cmd L ev uc q (Remove i) = quietly (DeleteEntry L ev uc i q)"
| "run_cmd L ev uc q (Read i) = bind_m (GetDecryptedEntry L ev uc i q) (\<lambda>d. ret (Some d))"

section \<open>When rows are a vault\<close>

fun cell_ok :: "lib \<Rightarrow> (string \<Rightarrow> bool) \<Rightarrow> int64 \<Rightarrow> bytes \<Rightarrow> local_row list \<Rightarrow> uuid \<Rightarrow> cell option \<Rightarrow> bool" where
  "cell_ok L clean u mk rows i None = (\<forall>r. look_local rows (uuid_String L i) = Some r \<longrightarrow> le_UserID r \<noteq> u)"
| "cell_ok L clean u mk rows i (Some Tombstone) =
    (\<exists>e b. look_local rows (uuid_String L i) = Some (entry_to_row L e b u) \<and> ce_IsDeleted e)"
| "cell_ok L clean u mk rows i (Some (Secret t m p)) =
    (\<exists>e b. look_local rows (uuid_String L i) = Some (entry_to_row L e b u) \<and> ce_UUID e = i \<and> \<not> ce_IsDeleted e \<and>
      ce_Type e = t \<and> open_entry L e mk = Inr (p, m) \<and> clean_meta clean m)"

text \<open>Before the first secret no verifier is known; afterwards device and server agree on one.\<close>

definition implements :: "lib \<Rightarrow> (string \<Rightarrow> bool) \<Rightarrow> secret_uc \<Rightarrow> int64 \<Rightarrow> world \<Rightarrow> vault \<Rightarrow> bool" where
  "implements L clean uc u w v \<longleftrightarrow> local_ok (wd_device w) \<and>
    (case vt_Password v of
       None \<Rightarrow> remote_params uc u w = None \<and> (\<forall>s x. dv_crypto (wd_device w) u = Some (s, x) \<longrightarrow> x = []) \<and>
         (\<forall>i. vt_Cells v i = None \<and> cell_ok L clean u [] (entries_of w) i None)
     | Some q \<Rightarrow> \<exists>s. let mk = DeriveMasterKey L q s; sv = (s, MasterKeyVerifier L mk)
         in dv_crypto (wd_device w) u = Some sv \<and> (remote_params uc u w = None \<or> remote_params uc u w = Some sv) \<and>
           (\<forall>i. cell_ok L clean u mk (entries_of w) i (vt_Cells v i)))"

text \<open>Passwords that the verifier tells apart.\<close>

definition told_apart :: "lib \<Rightarrow> string \<Rightarrow> string \<Rightarrow> bool" where
  "told_apart L q q' \<longleftrightarrow> q = q' \<or>
    (\<forall>s. MasterKeyVerifier L (DeriveMasterKey L q s) \<noteq> MasterKeyVerifier L (DeriveMasterKey L q' s))"

text \<open>What a command leaves alone, so that the next one can run.\<close>

definition still_ready :: "world \<Rightarrow> world \<Rightarrow> bool" where
  "still_ready w w' \<longleftrightarrow> dv_session (wd_device w') = dv_session (wd_device w) \<and>
    dv_sessionKey (wd_device w') = dv_sessionKey (wd_device w) \<and> params_ok w'"

section \<open>Writing a cell\<close>

lemma cell_ok_other:
  assumes "uuid_ok L" and "ce_UUID e \<noteq> i"
  shows "cell_ok L clean u mk (put_row le_UUID (entry_to_row L e b u) rows) i c = cell_ok L clean u mk rows i c"
proof -
  have "uuid_String L i \<noteq> uuid_String L (ce_UUID e)" using assms by (simp add: uuid_String_inj)
  note look = look_put_entry_other [OF this, of b u rows]
  show ?thesis
  proof (cases c)
    case (Some d)
    then show ?thesis by (cases d) (simp_all add: look)
  qed (simp add: look)
qed

text \<open>An entry that is stored for a cell.\<close>

fun stored_as :: "lib \<Rightarrow> (string \<Rightarrow> bool) \<Rightarrow> bytes \<Rightarrow> client_entry \<Rightarrow> cell \<Rightarrow> bool" where
  "stored_as L clean mk e Tombstone = (ce_IsDeleted e \<and> sealed e)"
| "stored_as L clean mk e (Secret t m p) =
    (\<not> ce_IsDeleted e \<and> ce_Type e = t \<and> open_entry L e mk = Inr (p, m) \<and> clean_meta clean m)"

lemma stored_as_sealed: "stored_as L clean mk e c \<Longrightarrow> sealed e"
  by (cases c) (auto dest: open_entry_sealed)

lemma cells_put:
  assumes "uuid_ok L" and "\<forall>j. cell_ok L clean u mk rows j (cells j)" and "stored_as L clean mk e c"
  shows "\<forall>j. cell_ok L clean u mk (put_row le_UUID (entry_to_row L e True u) rows) j ((cells(ce_UUID e \<mapsto> c)) j)"
proof
  fix j
  show "cell_ok L clean u mk (put_row le_UUID (entry_to_row L e True u) rows) j ((cells(ce_UUID e \<mapsto> c)) j)"
  proof (cases "j = ce_UUID e")
    case True
    with assms(3) show ?thesis by (cases c) (auto intro!: exI [of _ e])
  next
    case False
    then have "ce_UUID e \<noteq> j" by simp
    with False assms(2) show ?thesis by (simp add: cell_ok_other [OF assms(1)])
  qed
qed

section \<open>Simulation\<close>

definition simulates ::
  "lib \<Rightarrow> (string \<Rightarrow> bool) \<Rightarrow> secret_uc \<Rightarrow> int64 \<Rightarrow> world \<Rightarrow> 'r \<times> vault \<Rightarrow> 'r \<times> world \<Rightarrow> bool" where
  "simulates L clean uc u w spec out \<longleftrightarrow>
    fst out = fst spec \<and> implements L clean uc u (snd out) (snd spec) \<and> still_ready w (snd out)"

text \<open>The vault has password \<open>q'\<close>, over the salt \<open>s\<close>.\<close>

definition closed_by :: "lib \<Rightarrow> (string \<Rightarrow> bool) \<Rightarrow> secret_uc \<Rightarrow> int64 \<Rightarrow> world \<Rightarrow> vault \<Rightarrow> string \<Rightarrow> bytes \<Rightarrow> bool" where
  "closed_by L clean uc u w v q' s \<longleftrightarrow> vt_Password v = Some q' \<and>
    (let mk = DeriveMasterKey L q' s; sv = (s, MasterKeyVerifier L mk)
     in dv_crypto (wd_device w) u = Some sv \<and> (remote_params uc u w = None \<or> remote_params uc u w = Some sv) \<and>
       (\<forall>i. cell_ok L clean u mk (entries_of w) i (vt_Cells v i)))"

lemma implements_closed: "local_ok (wd_device w) \<Longrightarrow> closed_by L clean uc u w v q' s \<Longrightarrow> implements L clean uc u w v"
  by (auto simp: implements_def closed_by_def Let_def)

lemma closed_params:
  assumes "closed_by L clean uc u w v q' s"
  shows "params ev uc u w = (s, MasterKeyVerifier L (DeriveMasterKey L q' s))"
    and "set_params u (s, MasterKeyVerifier L (DeriveMasterKey L q' s)) w = w"
proof -
  let ?sv = "(s, MasterKeyVerifier L (DeriveMasterKey L q' s))"
  have "dv_crypto (wd_device w) u = Some ?sv" "remote_params uc u w = None \<or> remote_params uc u w = Some ?sv"
    using assms by (simp_all add: closed_by_def Let_def)
  from params_settled [OF this] show "params ev uc u w = ?sv" and "set_params u ?sv w = w" .
qed

lemma closed_accepts:
  assumes "crypto_ok L" and "told_apart L q q'"
  shows "accepts L (s, MasterKeyVerifier L (DeriveMasterKey L q' s)) q \<longleftrightarrow> q = q'"
proof -
  have "MasterKeyVerifier L (DeriveMasterKey L q' s) \<noteq> []" using assms(1) by simp
  with assms(2) show ?thesis by (auto simp: accepts_def told_apart_def)
qed

lemma simulates_same:
  assumes "ready L ev S uc u w" and "implements L clean uc u w v"
  shows "simulates L clean uc u w (r, v) (r, w)"
  using assms by (simp add: simulates_def still_ready_def ready_def)

text \<open>Writing a row for a cell of a closed vault.\<close>

lemma simulates_put:
  assumes "ready L ev S uc u w" and "implements L clean uc u w v" and "closed_by L clean uc u w v q' s" and "uuid_ok L"
    and "ce_UUID e = i" and "stored_as L clean (DeriveMasterKey L q' s) e c"
  shows "simulates L clean uc u w (vault_set i c v) (Inr None, put_entry L e u w)"
proof -
  let ?w = "put_entry L e u w"
  have ok: "local_ok (wd_device ?w)"
    using assms(2) local_ok_put_entry(1) [OF _ stored_as_sealed [OF assms(6)]] by (simp add: implements_def)
  have "closed_by L clean uc u ?w (v\<lparr>vt_Cells := (vt_Cells v)(i \<mapsto> c)\<rparr>) q' s"
    using assms(3) cells_put [OF assms(4) _ assms(6), of u "entries_of w" "vt_Cells v"] assms(5)
    by (simp add: closed_by_def Let_def del: fun_upd_apply)
  from implements_closed [OF ok this] show ?thesis
    using assms(1) by (simp add: simulates_def vault_set_def still_ready_def ready_def params_ok_def)
qed

lemma quietly_run: "c w = (r, w') \<Longrightarrow> quietly c (w :: world) = (map_sum id (\<lambda>_. None) r, w')"
  by (cases r) (simp_all add: quietly_def bind_m_def ret_def)

text \<open>A new secret.\<close>

lemma implements_cells:
  assumes "implements L clean uc u w v"
  obtains (fresh) "vt_Password v = None" and "remote_params uc u w = None" and "\<And>s x. dv_crypto (wd_device w) u = Some (s, x) \<Longrightarrow> x = []"
      and "\<And>mk. \<forall>j. cell_ok L clean u mk (entries_of w) j (vt_Cells v j)"
    | (closed) q' s where "vt_Password v = Some q'" and "closed_by L clean uc u w v q' s"
proof (cases "vt_Password v")
  case None
  with assms show thesis by (intro fresh) (auto simp: implements_def)
next
  case (Some q')
  with assms show thesis by (auto simp: implements_def closed_by_def Let_def intro: closed)
qed

text \<open>A password is accepted for a new secret if there is none yet, or it is the vault's.\<close>

lemma add_accepted:
  assumes "implements L clean uc u w v" and "crypto_ok L" and "\<And>q'. vt_Password v = Some q' \<Longrightarrow> told_apart L q q'"
  shows "accepts L (params ev uc u w) q \<longleftrightarrow> vt_Password v = None \<or> vt_Password v = Some q"
  using assms(1)
proof (cases rule: implements_cells)
  case fresh
  have "snd (params ev uc u w) = []"
    using fresh(2,3) by (auto simp: params_def split: option.split)
  with fresh(1) show ?thesis by (simp add: accepts_def)
next
  case (closed q' s)
  then show ?thesis using closed_accepts [OF assms(2) assms(3) [OF closed(1)], of s] by (auto simp: closed_params)
qed

lemma add_refused:
  assumes "ready L ev S uc u w" and "implements L clean uc u w v" and "\<not> accepts L (params (call_at 2 ev) uc u w) q"
    and "vt_Password v \<noteq> None"
  shows "quietly (insertEncryptedEntry L ev uc t m p q) w = (Inl (Sentinel ErrWrongMasterPassword), w)"
  using assms(2)
proof (cases rule: implements_cells)
  case (closed q' s)
  from quietly_run [of "insertEncryptedEntry L ev uc t m p q", OF insert_refused [OF assms(1,3)]] show ?thesis
    by (simp add: closed_params [OF closed(2)])
qed (use assms(4) in simp)

lemma add_simulates:
  assumes "ready L ev S uc u w" and "implements L clean uc u w v" and "uuid_ok L" and "crypto_ok L" and "json_ok L clean"
    and "clean_meta clean m" and "\<And>q'. vt_Password v = Some q' \<Longrightarrow> told_apart L q q'"
  shows "simulates L clean uc u w (vault_add (fresh_uuid ev IdEntry) q (Secret t m p) v)
    (quietly (insertEncryptedEntry L ev uc t m p q) w)"
proof (cases "vt_Password v = None \<or> vt_Password v = Some q")
  case False
  with add_accepted [OF assms(2,4,7)] have "\<not> accepts L (params (call_at 2 ev) uc u w) q" by simp
  from add_refused [OF assms(1,2) this] False simulates_same [OF assms(1,2)] show ?thesis by (auto simp: vault_add_def)
next
  case True
  then have acc: "accepts L (params (call_at 2 ev) uc u w) q" using add_accepted [OF assms(2,4,7)] by simp
  let ?s = "fst (params (call_at 2 ev) uc u w)"
  let ?mk = "DeriveMasterKey L q ?s"
  let ?sv = "(?s, MasterKeyVerifier L ?mk)"
  from insert_run [OF assms(1,4-6) acc, of t p] obtain e
    where re: "resealed ev (new_entry (fresh_uuid ev IdEntry) t) NowSeal u e" and op: "open_entry L e ?mk = Inr (p, m)"
      and run: "insertEncryptedEntry L ev uc t m p q w = (Inr (), publish uc u ?sv (set_params u ?sv (put_entry L e u w)))"
    unfolding Let_def by (elim exE conjE)
  let ?w = "publish uc u ?sv (set_params u ?sv (put_entry L e u w))"
  have id: "ce_UUID e = fresh_uuid ev IdEntry" "ce_Type e = t" "\<not> ce_IsDeleted e"
    using re by (simp_all add: resealed_def new_entry_def)
  have cells: "\<forall>j. cell_ok L clean u ?mk (entries_of w) j (vt_Cells v j)"
    using assms(2)
  proof (cases rule: implements_cells)
    case (closed q' s)
    with True show ?thesis by (simp add: closed_params [OF closed(2)]) (simp add: closed_by_def Let_def)
  qed
  have "closed_by L clean uc u ?w (v\<lparr>vt_Password := Some q, vt_Cells := (vt_Cells v)(fresh_uuid ev IdEntry \<mapsto> Secret t m p)\<rparr>) q ?s"
    using cells_put [OF assms(3) cells, of e "Secret t m p"] op assms(6) id
    by (simp add: closed_by_def Let_def fun_upd_same del: fun_upd_apply)
  moreover have "local_ok (wd_device ?w)"
    using assms(2) local_ok_put_opens(2) [OF _ op, of w] by (simp add: implements_def)
  moreover have "still_ready w ?w"
    using assms(1,4) params_sizes(1) [OF assms(1)] by (auto simp: still_ready_def ready_def params_ok_def)
  ultimately show ?thesis
    using implements_closed quietly_run [of "insertEncryptedEntry L ev uc t m p q", OF run] True by (simp add: simulates_def vault_add_def)
qed

text \<open>What is at an identifier, and what the lookup of the commands finds there.\<close>

lemma cell_cases:
  assumes "ready L ev S uc u w" and "implements L clean uc u w v" and "uuid_ok L" and "sqlite_time_ok L"
  obtains (missing) "vt_Cells v i = None" and "live_entry L ev i u w = (Inl (Sentinel ErrEntryNotFound), w)"
    | (gone) "vt_Cells v i = Some Tombstone" and "live_entry L ev i u w = (Inl (Sentinel ErrEntryDeleted), w)"
    | (secret) t m p q' s e b where "vt_Cells v i = Some (Secret t m p)" and "closed_by L clean uc u w v q' s"
      and "look_local (entries_of w) (uuid_String L i) = Some (entry_to_row L e b u)" and "ce_UUID e = i"
      and "ce_IsDeleted e = False" and "ce_Type e = t" and "open_entry L e (DeriveMasterKey L q' s) = Inr (p, m)" and "clean_meta clean m"
proof -
  have nf: "no_faults ev" and ok: "local_ok (wd_device w)" using assms(1,2) by (simp_all add: ready_def implements_def)
  note live = live_entry_run [OF nf ok, of L i u]
  have cell: "\<exists>mk. cell_ok L clean u mk (entries_of w) i (vt_Cells v i)"
    using assms(2) by (cases "vt_Password v") (auto simp: implements_def Let_def)
  show thesis
  proof (cases "vt_Cells v i")
    case None
    with cell have "live_entry L ev i u w = (Inl (Sentinel ErrEntryNotFound), w)" by (auto simp: live split: option.split)
    with None show thesis by (rule missing)
  next
    case (Some c)
    then have "vt_Password v \<noteq> None" using assms(2) by (cases "vt_Password v") (auto simp: implements_def)
    then obtain q' s where cl: "closed_by L clean uc u w v q' s"
      using assms(2) by (auto simp: implements_def closed_by_def Let_def)
    then have at: "cell_ok L clean u (DeriveMasterKey L q' s) (entries_of w) i (Some c)"
      using Some by (simp add: closed_by_def Let_def) metis
    show thesis
    proof (cases c)
      case Tombstone
      with at obtain e b where "look_local (entries_of w) (uuid_String L i) = Some (entry_to_row L e b u)" and "ce_IsDeleted e" by auto
      then have "live_entry L ev i u w = (Inl (Sentinel ErrEntryDeleted), w)"
        by (simp add: live scan_entry_to_row [OF assms(3,4)])
      with Some Tombstone show thesis by (intro gone) simp_all
    next
      case (Secret t m p)
      with at Some cl show thesis by (auto intro!: secret [OF _ cl])
    qed
  qed
qed

lemma dead_runs:
  assumes "ready L ev S uc u w" and "live_entry L ev i u w = (Inl x, w)"
  shows "unlockEntry L ev uc i q w = (Inl x, w)" and "DeleteEntry L ev uc i q w = (Inl x, w)"
    and "GetDecryptedEntry L ev uc i q w = (Inl x, w)"
proof -
  have uid: "requireAutherUserID L (call_at 1 ev) w = (Inr u, w)"
    using assms(1) by (intro requireAutherUserID_run) (simp_all add: ready_def)
  show "unlockEntry L ev uc i q w = (Inl x, w)" and "DeleteEntry L ev uc i q w = (Inl x, w)"
    and "GetDecryptedEntry L ev uc i q w = (Inl x, w)"
    unfolding unlockEntry_def DeleteEntry_def GetDecryptedEntry_def bind_m_def uid by (simp_all add: assms(2))
qed

lemma use_simulates:
  assumes "ready L ev S uc u w" and "implements L clean uc u w v" and "uuid_ok L" and "sqlite_time_ok L" and "crypto_ok L"
    and "\<And>q'. vt_Password v = Some q' \<Longrightarrow> told_apart L q q'"
    and dead: "\<And>x. live_entry L ev i u w = (Inl x, w) \<Longrightarrow> out = (Inl x, w)"
    and wrong: "\<And>e b sv. look_local (entries_of w) (uuid_String L i) = Some (entry_to_row L e b u) \<Longrightarrow> ce_UUID e = i \<Longrightarrow> ce_IsDeleted e = False \<Longrightarrow>
      params (call_at 2 ev) uc u w = sv \<Longrightarrow> set_params u sv w = w \<Longrightarrow> \<not> accepts L sv q \<Longrightarrow> out = (Inl (Sentinel ErrWrongMasterPassword), w)"
    and right: "\<And>e b s t m p sv. closed_by L clean uc u w v q s \<Longrightarrow>
      look_local (entries_of w) (uuid_String L i) = Some (entry_to_row L e b u) \<Longrightarrow> ce_UUID e = i \<Longrightarrow> ce_IsDeleted e = False \<Longrightarrow>
      ce_Type e = t \<Longrightarrow> open_entry L e (DeriveMasterKey L q s) = Inr (p, m) \<Longrightarrow> clean_meta clean m \<Longrightarrow>
      sv = (s, MasterKeyVerifier L (DeriveMasterKey L q s)) \<Longrightarrow> params (call_at 2 ev) uc u w = sv \<Longrightarrow> set_params u sv w = w \<Longrightarrow>
      accepts L sv q \<Longrightarrow> simulates L clean uc u w (f t m p v) out"
  shows "simulates L clean uc u w (vault_use i q f v) out"
  using assms(1-4)
proof (cases rule: cell_cases [where i = i])
  case missing
  with dead [OF missing(2)] simulates_same [OF assms(1,2)] show ?thesis by (simp add: vault_use_def)
next
  case gone
  with dead [OF gone(2)] simulates_same [OF assms(1,2)] show ?thesis by (simp add: vault_use_def)
next
  case (secret t m p q' s e b)
  have pw: "vt_Password v = Some q'" using secret(2) by (simp add: closed_by_def)
  let ?sv = "(s, MasterKeyVerifier L (DeriveMasterKey L q' s))"
  note acc = closed_accepts [OF assms(5) assms(6) [OF pw], of s] and par = closed_params [OF secret(2)]
  show ?thesis
  proof (cases "q = q'")
    case True
    have "simulates L clean uc u w (f t m p v) out"
      by (rule right [OF _ secret(3-6) _ secret(8), where sv = ?sv]) (use secret(2,7) True acc par in simp_all)
    with secret(1) pw True show ?thesis by (simp add: vault_use_def)
  next
    case False
    from wrong [OF secret(3-5) par] acc False have "out = (Inl (Sentinel ErrWrongMasterPassword), w)" by simp
    with secret(1) pw False simulates_same [OF assms(1,2)] show ?thesis by (simp add: vault_use_def)
  qed
qed

text \<open>The commands on a secret, one by one.\<close>

lemma clean_merge: "clean_meta clean m' \<Longrightarrow> clean_meta clean m \<Longrightarrow> clean_meta clean (merge_file_meta m' m)"
  by (auto simp: clean_meta_def merge_file_meta_def)

lemma remove_simulates:
  assumes "ready L ev S uc u w" and "implements L clean uc u w v" and "uuid_ok L" and "sqlite_time_ok L" and "crypto_ok L"
    and "\<And>q'. vt_Password v = Some q' \<Longrightarrow> told_apart L q q'"
  shows "simulates L clean uc u w (vault_use i q (\<lambda>t' m' p' v. vault_set i Tombstone v) v) (quietly (DeleteEntry L ev uc i q) w)"
  using assms
proof (rule use_simulates)
  fix x assume "live_entry L ev i u w = (Inl x, w)"
  from quietly_run [of "DeleteEntry L ev uc i q", OF dead_runs(2) [OF assms(1) this]]
  show "quietly (DeleteEntry L ev uc i q) w = (Inl x, w)" by simp
next
  fix e b sv assume look: "look_local (entries_of w) (uuid_String L i) = Some (entry_to_row L e b u)"
    and del: "ce_IsDeleted e = False" and sv: "params (call_at 2 ev) uc u w = sv" "set_params u sv w = w" and "\<not> accepts L sv q"
  with delete_run [where mp = q, OF assms(1) _ assms(3,4) look del] assms(2)
  show "quietly (DeleteEntry L ev uc i q) w = (Inl (Sentinel ErrWrongMasterPassword), w)"
    by (simp add: quietly_def bind_m_def implements_def)
next
  fix e b s t m p sv assume cl: "closed_by L clean uc u w v q s"
    and look: "look_local (entries_of w) (uuid_String L i) = Some (entry_to_row L e b u)" and i: "ce_UUID e = i"
    and del: "ce_IsDeleted e = False" and sv: "params (call_at 2 ev) uc u w = sv" "set_params u sv w = w" and acc: "accepts L sv q"
    and sv_def: "sv = (s, MasterKeyVerifier L (DeriveMasterKey L q s))"
  let ?e = "e\<lparr>ce_IsDeleted := True, ce_Version := ce_Version e + 1, ce_UpdatedAt := time_now ev NowDelete\<rparr>"
  have same: "set_params u sv (put_entry L ?e u w) = put_entry L ?e u w"
    using cl by (intro set_params_same) (simp add: closed_by_def Let_def sv_def)
  have "DeleteEntry L ev uc i q w = (Inr (), put_entry L ?e u w)"
    using delete_run [where mp = q, OF assms(1) _ assms(3,4) look del] assms(2) acc
    by (simp add: sv implements_def same)
  from quietly_run [of "DeleteEntry L ev uc i q", OF this] simulates_put [OF assms(1,2) cl assms(3), of ?e i Tombstone] i
    local_ok_sealed [OF _ look] assms(2) [unfolded implements_def]
  show "simulates L clean uc u w (vault_set i Tombstone v) (quietly (DeleteEntry L ev uc i q) w)" by simp
qed

lemma read_simulates:
  assumes "ready L ev S uc u w" and "implements L clean uc u w v" and "uuid_ok L" and "sqlite_time_ok L" and "crypto_ok L"
    and "\<And>q'. vt_Password v = Some q' \<Longrightarrow> told_apart L q q'"
  shows "simulates L clean uc u w
    (vault_use i q (\<lambda>t' m' p' v. (Inr (Some \<lparr>de_Payload = p', de_Meta = shown_meta t' m', de_Type = t'\<rparr>), v)) v)
    (bind_m (GetDecryptedEntry L ev uc i q) (\<lambda>d. ret (Some d)) w)"
  using assms
proof (rule use_simulates)
  have ok: "local_ok (wd_device w)" using assms(2) by (simp add: implements_def)
  note get = get_run [where mp = q, OF assms(1) ok assms(3,4)]
  {
    fix x assume "live_entry L ev i u w = (Inl x, w)"
    from dead_runs(3) [OF assms(1) this] show "bind_m (GetDecryptedEntry L ev uc i q) (\<lambda>d. ret (Some d)) w = (Inl x, w)"
      by (simp add: bind_m_def)
  next
    fix e b sv assume look: "look_local (entries_of w) (uuid_String L i) = Some (entry_to_row L e b u)" and i: "ce_UUID e = i"
      and del: "ce_IsDeleted e = False" and "params (call_at 2 ev) uc u w = sv" "set_params u sv w = w" "\<not> accepts L sv q"
    then show "bind_m (GetDecryptedEntry L ev uc i q) (\<lambda>d. ret (Some d)) w = (Inl (Sentinel ErrWrongMasterPassword), w)"
      by (simp add: bind_m_def get [OF look i del])
  next
    fix e b s t m p sv assume look: "look_local (entries_of w) (uuid_String L i) = Some (entry_to_row L e b u)" and i: "ce_UUID e = i"
      and del: "ce_IsDeleted e = False" and t: "ce_Type e = t" and op: "open_entry L e (DeriveMasterKey L q s) = Inr (p, m)"
      and sv: "params (call_at 2 ev) uc u w = sv" "set_params u sv w = w" and acc: "accepts L sv q"
      and sv_def: "sv = (s, MasterKeyVerifier L (DeriveMasterKey L q s))"
    have "GetDecryptedEntry L ev uc i q w = (Inr \<lparr>de_Payload = p, de_Meta = shown_meta t m, de_Type = t\<rparr>, w)"
      unfolding get [OF look i del] sv using acc by (simp add: op t sv_def)
    then show "simulates L clean uc u w (Inr (Some \<lparr>de_Payload = p, de_Meta = shown_meta t m, de_Type = t\<rparr>), v)
        (bind_m (GetDecryptedEntry L ev uc i q) (\<lambda>d. ret (Some d)) w)"
      using simulates_same [OF assms(1,2)] by (simp add: bind_m_def ret_def)
  }
qed

lemma unlocked_dead:
  assumes "ready L ev S uc u w" and "live_entry L ev i u w = (Inl x, w)"
  shows "quietly (updateEntryReplaceContent L ev uc i t m p q) w = (Inl x, w)"
    and "quietly (UpdateFile L ev uc i m q rep b name) w = (Inl x, w)"
  using dead_runs(1) [OF assms, of q]
  by (simp_all add: quietly_def bind_m_def updateEntryReplaceContent_def UpdateFile_def)

lemma unlocked_wrong:
  assumes "ready L ev S uc u w" and "implements L clean uc u w v" and "uuid_ok L" and "sqlite_time_ok L"
    and "look_local (entries_of w) (uuid_String L i) = Some (entry_to_row L e b u)" and "ce_IsDeleted e = False"
    and "params (call_at 2 ev) uc u w = sv" and "set_params u sv w = w" and "\<not> accepts L sv q"
  shows "quietly (updateEntryReplaceContent L ev uc i t m p q) w = (Inl (Sentinel ErrWrongMasterPassword), w)"
    and "quietly (UpdateFile L ev uc i m q rep d name) w = (Inl (Sentinel ErrWrongMasterPassword), w)"
proof -
  have ok: "local_ok (wd_device w)" using assms(2) by (simp add: implements_def)
  have "unlockEntry L ev uc i q w = (Inl (Sentinel ErrWrongMasterPassword), w)"
    using unlock_run [where mp = q, OF assms(1) ok assms(3-6)] assms(7-9) by simp
  then show "quietly (updateEntryReplaceContent L ev uc i t m p q) w = (Inl (Sentinel ErrWrongMasterPassword), w)"
    and "quietly (UpdateFile L ev uc i m q rep d name) w = (Inl (Sentinel ErrWrongMasterPassword), w)"
    by (simp_all add: quietly_def bind_m_def updateEntryReplaceContent_def UpdateFile_def)
qed

lemma put_same:
  assumes "closed_by L clean uc u w v q s"
  shows "set_params u (s, MasterKeyVerifier L (DeriveMasterKey L q s)) (put_entry L e u w) = put_entry L e u w"
  using assms by (intro set_params_same) (simp add: closed_by_def Let_def)

lemma change_simulates:
  assumes "ready L ev S uc u w" and "implements L clean uc u w v" and "uuid_ok L" and "sqlite_time_ok L" and "crypto_ok L"
    and "\<And>q'. vt_Password v = Some q' \<Longrightarrow> told_apart L q q'" and "json_ok L clean" and "clean_meta clean m"
  shows "simulates L clean uc u w
    (vault_use i q (\<lambda>t' m' p' v. if t' \<noteq> t then (Inl (Sentinel ErrWrongEntryType), v) else vault_set i (Secret t m p) v) v)
    (quietly (updateEntryReplaceContent L ev uc i t m p q) w)"
  using assms(1-6)
proof (rule use_simulates)
  show "live_entry L ev i u w = (Inl x, w) \<Longrightarrow> quietly (updateEntryReplaceContent L ev uc i t m p q) w = (Inl x, w)" for x
    by (rule unlocked_dead(1) [OF assms(1)])
next
  fix e b sv assume "look_local (entries_of w) (uuid_String L i) = Some (entry_to_row L e b u)" and "ce_IsDeleted e = False"
    and "params (call_at 2 ev) uc u w = sv" "set_params u sv w = w" "\<not> accepts L sv q"
  then show "quietly (updateEntryReplaceContent L ev uc i t m p q) w = (Inl (Sentinel ErrWrongMasterPassword), w)"
    by (rule unlocked_wrong(1) [OF assms(1-4)])
next
  fix e b s t' m' p' sv assume cl: "closed_by L clean uc u w v q s"
    and look: "look_local (entries_of w) (uuid_String L i) = Some (entry_to_row L e b u)" and i: "ce_UUID e = i"
    and del: "ce_IsDeleted e = False" and t: "ce_Type e = t'" and op: "open_entry L e (DeriveMasterKey L q s) = Inr (p', m')"
    and sv_def: "sv = (s, MasterKeyVerifier L (DeriveMasterKey L q s))"
    and sv: "params (call_at 2 ev) uc u w = sv" "set_params u sv w = w" and acc: "accepts L sv q"
  have ok: "local_ok (wd_device w)" using assms(2) by (simp add: implements_def)
  note run = update_run [OF assms(1) ok assms(3,4) look del, unfolded sv, OF acc _ assms(5,7,8), of "(p', m')" t p]
  show "simulates L clean uc u w (if t' \<noteq> t then (Inl (Sentinel ErrWrongEntryType), v) else vault_set i (Secret t m p) v)
      (quietly (updateEntryReplaceContent L ev uc i t m p q) w)"
  proof (cases "t' = t")
    case False
    have "updateEntryReplaceContent L ev uc i t m p q w = (Inl (Sentinel ErrWrongEntryType), w)"
      using run op False by (simp add: sv_def t sv(2) [unfolded sv_def])
    from quietly_run [of "updateEntryReplaceContent L ev uc i t m p q", OF this] False simulates_same [OF assms(1,2)]
    show ?thesis by simp
  next
    case True
    with run op obtain e' where re: "resealed ev e NowSeal u e'" and op': "open_entry L e' (DeriveMasterKey L q s) = Inr (p, m)"
      and upd: "updateEntryReplaceContent L ev uc i t m p q w = (Inr (), put_entry L e' u w)"
      by (auto simp: sv_def t put_same [OF cl])
    have "ce_UUID e' = i" "ce_IsDeleted e' = False" "ce_Type e' = t" using re i del t True by (simp_all add: resealed_def)
    with simulates_put [OF assms(1,2) cl assms(3), of e' i "Secret t m p"] op' assms(8)
      quietly_run [of "updateEntryReplaceContent L ev uc i t m p q", OF upd] True
    show ?thesis by simp
  qed
qed

text \<open>Files: unlocked, the type is checked; then the metadata, and the content if it is replaced.\<close>

lemma file_unlocked:
  assumes "ready L ev S uc u w" and "local_ok (wd_device w)" and "uuid_ok L" and "sqlite_time_ok L"
    and "look_local (entries_of w) (uuid_String L i) = Some (entry_to_row L e b u)" and "ce_IsDeleted e = False"
    and "params (call_at 2 ev) uc u w = (s, V)" and "set_params u (s, V) w = w" and "accepts L (s, V) q"
    and "open_entry L e (DeriveMasterKey L q s) = Inr (p, m')"
  obtains dek where "unlockEntry L ev uc i q w = (Inr (e\<lparr>ce_IsDirty := b, ce_UserID := Some u\<rparr>, u, DeriveMasterKey L q s, dek), w)"
    and "decryptMetaWithDEK L (e\<lparr>ce_IsDirty := b, ce_UserID := Some u\<rparr>) dek = Inr m'"
proof -
  from assms(10) obtain dek where dek: "DecryptAESGCM L (ce_EncryptedDek e) (DeriveMasterKey L q s) = Inr dek"
    and m: "decryptMetaWithDEK L e dek = Inr m'" by (rule open_entry_InrD)
  from unlock_run [where mp = q, OF assms(1-6)] assms(7-9) dek
  have "unlockEntry L ev uc i q w = (Inr (e\<lparr>ce_IsDirty := b, ce_UserID := Some u\<rparr>, u, DeriveMasterKey L q s, dek), w)" by simp
  with m show thesis by (intro that [of dek]) (simp_all add: open_entry_local)
qed

lemma refile_run:
  assumes "ready L ev S uc u w" and "unlockEntry L ev uc i q w = (Inr (e, u, mk, dek), w)" and "length mk = 32"
    and "decryptMetaWithDEK L e dek = Inr m'" and "ce_Type e = EntryTypeFile" and "crypto_ok L" and "json_ok L clean"
    and "\<not> too_large (su_maxFileBytes uc) d"
    and "clean_meta clean ((merge_file_meta m' m)\<lparr>md_OriginalFilename := sanitizeOriginalFilename name\<rparr>)"
  shows "\<exists>e'. resealed ev e NowSeal u e' \<and>
    open_entry L e' mk = Inr (d, (merge_file_meta m' m)\<lparr>md_OriginalFilename := sanitizeOriginalFilename name\<rparr>) \<and>
    UpdateFile L ev uc i m q True d name w = (Inr (), put_entry L e' u w)"
proof -
  have nf: "no_faults ev" using assms(1) by (simp add: ready_def)
  from seal_opens [OF assms(6,7,9,3)] obtain e'
    where seal: "sealWithNewDEK L ev e d ((merge_file_meta m' m)\<lparr>md_OriginalFilename := sanitizeOriginalFilename name\<rparr>) mk u = Inr e'"
      and re: "resealed ev e NowSeal u e'"
      and op: "open_entry L e' mk = Inr (d, (merge_file_meta m' m)\<lparr>md_OriginalFilename := sanitizeOriginalFilename name\<rparr>)" by blast
  have save: "on_device (SaveEntry L ev e' True) w = (Inr (), put_entry L e' u w)"
    using re by (simp add: on_device_apply SaveEntry_ok [OF nf, of e' u, OF _ open_entry_sealed [OF op]] resealed_def put_entry_def)
  have "UpdateFile L ev uc i m q True d name w = (Inr (), put_entry L e' u w)"
    using assms(8) by (auto simp: UpdateFile_def bind_m_def assms(2,4,5) of_result_def Let_def seal save too_large_def)
  with re op show ?thesis by blast
qed

lemma file_meta_clean:
  assumes "clean_meta clean m'" and "clean_meta clean m" and "clean (sanitizeOriginalFilename name)"
  shows "clean_meta clean ((merge_file_meta m' m)\<lparr>md_OriginalFilename := sanitizeOriginalFilename name\<rparr>)"
  using assms by (auto simp: clean_meta_def merge_file_meta_def)

lemma describe_simulates:
  assumes "ready L ev S uc u w" and "implements L clean uc u w v" and "uuid_ok L" and "sqlite_time_ok L" and "crypto_ok L"
    and "\<And>q'. vt_Password v = Some q' \<Longrightarrow> told_apart L q q'" and "json_ok L clean" and "clean_meta clean m"
  shows "simulates L clean uc u w
    (vault_use i q (\<lambda>t' m' p' v. if t' \<noteq> EntryTypeFile then (Inl (Sentinel ErrWrongEntryType), v)
      else vault_set i (Secret t' (merge_file_meta m' m) p') v) v)
    (quietly (UpdateFile L ev uc i m q False [] []) w)"
  using assms(1-6)
proof (rule use_simulates)
  show "live_entry L ev i u w = (Inl x, w) \<Longrightarrow> quietly (UpdateFile L ev uc i m q False [] []) w = (Inl x, w)" for x
    by (rule unlocked_dead(2) [OF assms(1)])
next
  fix e b sv assume "look_local (entries_of w) (uuid_String L i) = Some (entry_to_row L e b u)" and "ce_IsDeleted e = False"
    and "params (call_at 2 ev) uc u w = sv" "set_params u sv w = w" "\<not> accepts L sv q"
  then show "quietly (UpdateFile L ev uc i m q False [] []) w = (Inl (Sentinel ErrWrongMasterPassword), w)"
    by (rule unlocked_wrong(2) [OF assms(1-4)])
next
  fix e b s t' m' p' sv assume cl: "closed_by L clean uc u w v q s"
    and look: "look_local (entries_of w) (uuid_String L i) = Some (entry_to_row L e b u)" and i: "ce_UUID e = i"
    and del: "ce_IsDeleted e = False" and t: "ce_Type e = t'" and op: "open_entry L e (DeriveMasterKey L q s) = Inr (p', m')"
    and cm: "clean_meta clean m'" and sv_def: "sv = (s, MasterKeyVerifier L (DeriveMasterKey L q s))"
    and sv: "params (call_at 2 ev) uc u w = sv" "set_params u sv w = w" and acc: "accepts L sv q"
  have ok: "local_ok (wd_device w)" using assms(2) by (simp add: implements_def)
  show "simulates L clean uc u w (if t' \<noteq> EntryTypeFile then (Inl (Sentinel ErrWrongEntryType), v)
      else vault_set i (Secret t' (merge_file_meta m' m) p') v) (quietly (UpdateFile L ev uc i m q False [] []) w)"
  proof (cases "t' = EntryTypeFile")
    case False
    from file_unlocked [OF assms(1) ok assms(3,4) look del sv [unfolded sv_def] acc [unfolded sv_def] op] obtain dek
      where "unlockEntry L ev uc i q w = (Inr (e\<lparr>ce_IsDirty := b, ce_UserID := Some u\<rparr>, u, DeriveMasterKey L q s, dek), w)" .
    then show ?thesis
      using False t simulates_same [OF assms(1,2)] by (simp add: quietly_def UpdateFile_def bind_m_def raise_def)
  next
    case True
    have open': "open_entry L e (DeriveMasterKey L q (fst (params (call_at 2 ev) uc u w))) = Inr (p', m')"
      using op by (simp add: sv(1) sv_def)
    have "ce_Type e = EntryTypeFile" using t True by simp
    from update_file_run [OF assms(1) ok assms(3,4) look del _ open' assms(5,7) this clean_merge [OF cm assms(8)], of "[]" "[]"] acc
    obtain e' rd where re: "resealed ev e rd u e'" and op': "open_entry L e' (DeriveMasterKey L q s) = Inr (p', merge_file_meta m' m)"
      and upd: "UpdateFile L ev uc i m q False [] [] w = (Inr (), put_entry L e' u w)"
      by (auto simp: sv(1) sv_def put_same [OF cl])
    have "ce_UUID e' = i" "ce_IsDeleted e' = False" "ce_Type e' = t'" using re i del t by (simp_all add: resealed_def)
    with simulates_put [OF assms(1,2) cl assms(3), of e' i "Secret t' (merge_file_meta m' m) p'"] op' clean_merge [OF cm assms(8)]
      quietly_run [of "UpdateFile L ev uc i m q False [] []", OF upd] True
    show ?thesis by simp
  qed
qed

definition refiled :: "int \<Rightarrow> uuid \<Rightarrow> entry_metadata \<Rightarrow> bytes \<Rightarrow> string \<Rightarrow> string \<Rightarrow> entry_metadata \<Rightarrow> bytes \<Rightarrow> vault \<Rightarrow>
    (go_error + decrypted_entry option) \<times> vault" where
  "refiled maxb i m d name t' m' p' v =
    (if t' \<noteq> EntryTypeFile then (Inl (Sentinel ErrWrongEntryType), v)
     else if too_large maxb d then (Inl (file_too_large (int (length d)) maxb), v)
     else vault_set i (Secret t' ((merge_file_meta m' m)\<lparr>md_OriginalFilename := sanitizeOriginalFilename name\<rparr>) d) v)"

lemma refile_unlocked:
  assumes "ready L ev S uc u w" and "implements L clean uc u w v" and "uuid_ok L" and "crypto_ok L" and "json_ok L clean"
    and "clean_meta clean m" and "clean_meta clean m'" and "clean (sanitizeOriginalFilename name)" and "closed_by L clean uc u w v q s"
    and "ce_UUID e = i" and "ce_IsDeleted e = False" and "ce_Type e = t'"
    and unl: "unlockEntry L ev uc i q w = (Inr (e, u, DeriveMasterKey L q s, dek), w)" and dm: "decryptMetaWithDEK L e dek = Inr m'"
  shows "simulates L clean uc u w (refiled (su_maxFileBytes uc) i m d name t' m' p' v) (quietly (UpdateFile L ev uc i m q True d name) w)"
proof -
  let ?m = "(merge_file_meta m' m)\<lparr>md_OriginalFilename := sanitizeOriginalFilename name\<rparr>"
  consider (other) "t' \<noteq> EntryTypeFile" | (large) "t' = EntryTypeFile" "too_large (su_maxFileBytes uc) d"
    | (fits) "t' = EntryTypeFile" "\<not> too_large (su_maxFileBytes uc) d" by blast
  then show ?thesis
  proof cases
    case other
    then show ?thesis
      using assms(12) simulates_same [OF assms(1,2)] unl by (simp add: refiled_def quietly_def UpdateFile_def bind_m_def raise_def)
  next
    case large
    then show ?thesis
      using assms(12) simulates_same [OF assms(1,2)] unl dm
      by (simp add: refiled_def quietly_def UpdateFile_def bind_m_def raise_def of_result_def Let_def too_large_def)
  next
    case fits
    have "length (DeriveMasterKey L q s) = 32" "ce_Type e = EntryTypeFile" using assms(4,12) fits by simp_all
    from refile_run [OF assms(1) unl this(1) dm this(2) assms(4,5) fits(2) file_meta_clean [OF assms(7,6,8)]] obtain e'
      where re: "resealed ev e NowSeal u e'" and op': "open_entry L e' (DeriveMasterKey L q s) = Inr (d, ?m)"
      and upd: "UpdateFile L ev uc i m q True d name w = (Inr (), put_entry L e' u w)" by blast
    have "ce_UUID e' = i" "ce_IsDeleted e' = False" "ce_Type e' = t'" using re assms(10-12) by (simp_all add: resealed_def)
    with simulates_put [OF assms(1,2,9,3), of e' i "Secret t' ?m d"] op' file_meta_clean [OF assms(7,6,8)]
      quietly_run [of "UpdateFile L ev uc i m q True d name", OF upd] fits
    show ?thesis by (simp add: refiled_def)
  qed
qed

lemma refile_simulates:
  assumes "ready L ev S uc u w" and "implements L clean uc u w v" and "uuid_ok L" and "sqlite_time_ok L" and "crypto_ok L"
    and "\<And>q'. vt_Password v = Some q' \<Longrightarrow> told_apart L q q'" and "json_ok L clean" and "clean_meta clean m"
    and "clean (sanitizeOriginalFilename name)"
  shows "simulates L clean uc u w (vault_use i q (refiled (su_maxFileBytes uc) i m d name) v) (quietly (UpdateFile L ev uc i m q True d name) w)"
  using assms(1-6)
proof (rule use_simulates)
  show "live_entry L ev i u w = (Inl x, w) \<Longrightarrow> quietly (UpdateFile L ev uc i m q True d name) w = (Inl x, w)" for x
    by (rule unlocked_dead(2) [OF assms(1)])
next
  fix e b sv assume "look_local (entries_of w) (uuid_String L i) = Some (entry_to_row L e b u)" and "ce_IsDeleted e = False"
    and "params (call_at 2 ev) uc u w = sv" "set_params u sv w = w" "\<not> accepts L sv q"
  then show "quietly (UpdateFile L ev uc i m q True d name) w = (Inl (Sentinel ErrWrongMasterPassword), w)"
    by (rule unlocked_wrong(2) [OF assms(1-4)])
next
  fix e b s t' m' p' sv assume cl: "closed_by L clean uc u w v q s"
    and look: "look_local (entries_of w) (uuid_String L i) = Some (entry_to_row L e b u)" and i: "ce_UUID e = i"
    and del: "ce_IsDeleted e = False" and t: "ce_Type e = t'" and op: "open_entry L e (DeriveMasterKey L q s) = Inr (p', m')"
    and cm: "clean_meta clean m'" and sv_def: "sv = (s, MasterKeyVerifier L (DeriveMasterKey L q s))"
    and sv: "params (call_at 2 ev) uc u w = sv" "set_params u sv w = w" and acc: "accepts L sv q"
  have ok: "local_ok (wd_device w)" using assms(2) by (simp add: implements_def)
  let ?e = "e\<lparr>ce_IsDirty := b, ce_UserID := Some u\<rparr>"
  from file_unlocked [OF assms(1) ok assms(3,4) look del sv [unfolded sv_def] acc [unfolded sv_def] op] obtain dek
    where unl: "unlockEntry L ev uc i q w = (Inr (?e, u, DeriveMasterKey L q s, dek), w)"
      and dm: "decryptMetaWithDEK L ?e dek = Inr m'" .
  have "ce_UUID ?e = i" "ce_IsDeleted ?e = False" "ce_Type ?e = t'" using i del t by simp_all
  from refile_unlocked [OF assms(1-3,5,7,8) cm assms(9) cl this unl dm]
  show "simulates L clean uc u w (refiled (su_maxFileBytes uc) i m d name t' m' p' v) (quietly (UpdateFile L ev uc i m q True d name) w)" .
qed

section \<open>Sequences of commands\<close>

text \<open>Texts that JSON gives back as they are.\<close>

fun cmd_ok :: "(string \<Rightarrow> bool) \<Rightarrow> vault_cmd \<Rightarrow> bool" where
  "cmd_ok clean (Add t m p) = clean_meta clean m"
| "cmd_ok clean (AddFile m name b) = clean_meta clean (m\<lparr>md_OriginalFilename := sanitizeOriginalFilename name\<rparr>)"
| "cmd_ok clean (Change i t m p) = clean_meta clean m"
| "cmd_ok clean (Describe i m) = clean_meta clean m"
| "cmd_ok clean (Refile i m b name) = (clean_meta clean m \<and> clean (sanitizeOriginalFilename name))"
| "cmd_ok clean (Remove i) = True"
| "cmd_ok clean (Read i) = True"

lemma step_simulates:
  assumes "ready L ev S uc u w" and "implements L clean uc u w v" and "uuid_ok L" and "sqlite_time_ok L" and "crypto_ok L"
    and "\<And>q'. vt_Password v = Some q' \<Longrightarrow> told_apart L q q'" and "json_ok L clean" and "cmd_ok clean c"
  shows "simulates L clean uc u w (vault_step (su_maxFileBytes uc) (fresh_uuid ev IdEntry) q c v) (run_cmd L ev uc q c w)"
proof (cases c)
  case (Add t m p)
  then show ?thesis using add_simulates [OF assms(1-3,5,7) _ assms(6)] assms(8) by simp
next
  case (AddFile m name b)
  let ?m = "m\<lparr>md_OriginalFilename := sanitizeOriginalFilename name\<rparr>"
  have "clean_meta clean ?m" using assms(8) AddFile by simp
  note add = add_simulates [OF assms(1-3,5,7) this assms(6), of EntryTypeFile b]
  show ?thesis
  proof (cases "too_large (su_maxFileBytes uc) b")
    case True
    then show ?thesis using AddFile simulates_same [OF assms(1,2)]
      by (simp add: SetFile_def quietly_def bind_m_def raise_def too_large_def)
  next
    case False
    then have "SetFile L ev uc m name b q = insertEncryptedEntry L ev uc EntryTypeFile ?m b q"
      by (auto simp: SetFile_def too_large_def)
    with False AddFile add show ?thesis by simp
  qed
next
  case (Change i t m p)
  then show ?thesis using change_simulates [OF assms(1-7)] assms(8) by simp
next
  case (Describe i m)
  then show ?thesis using describe_simulates [OF assms(1-7)] assms(8) by simp
next
  case (Refile i m b name)
  then show ?thesis using refile_simulates [OF assms(1-7)] assms(8) by (simp add: refiled_def [abs_def])
next
  case (Remove i)
  then show ?thesis using remove_simulates [OF assms(1-6)] by simp
next
  case (Read i)
  then show ?thesis using read_simulates [OF assms(1-6)] by simp
qed

text \<open>Each command has surroundings and a typed master password of its own.\<close>

fun run_cmds :: "lib \<Rightarrow> secret_uc \<Rightarrow> (env \<times> string \<times> vault_cmd) list \<Rightarrow> world \<Rightarrow> (go_error + decrypted_entry option) list \<times> world" where
  "run_cmds L uc [] w = ([], w)"
| "run_cmds L uc ((ev, q, c) # cs) w =
    (let (r, w') = run_cmd L ev uc q c w; (rs, w'') = run_cmds L uc cs w' in (r # rs, w''))"

fun vault_steps :: "int \<Rightarrow> (env \<times> string \<times> vault_cmd) list \<Rightarrow> vault \<Rightarrow> (go_error + decrypted_entry option) list \<times> vault" where
  "vault_steps maxb [] v = ([], v)"
| "vault_steps maxb ((ev, q, c) # cs) v =
    (let (r, v') = vault_step maxb (fresh_uuid ev IdEntry) q c v; (rs, v'') = vault_steps maxb cs v' in (r # rs, v''))"

lemma vault_use_password:
  assumes "\<And>t m p. vt_Password (snd (f t m p v)) = vt_Password v"
  shows "vt_Password (snd (vault_use i q f v)) = vt_Password v"
  using assms by (auto simp: vault_use_def split: option.split cell.split)

lemma step_password: "vt_Password (snd (vault_step maxb new q c v)) = vt_Password v \<or> vt_Password (snd (vault_step maxb new q c v)) = Some q"
  by (cases c) (auto simp: vault_add_def vault_set_def vault_use_password)

lemma cmds_simulate:
  assumes libs: "uuid_ok L" "sqlite_time_ok L" "crypto_ok L" "json_ok L clean"
    and apart: "\<forall>q\<in>P. \<forall>q'\<in>P. told_apart L q q'"
  shows "implements L clean uc u w v \<Longrightarrow> (\<forall>(ev, q, c)\<in>set cs. ready L ev S uc u w \<and> cmd_ok clean c \<and> q \<in> P) \<Longrightarrow>
    set_option (vt_Password v) \<subseteq> P \<Longrightarrow>
    fst (run_cmds L uc cs w) = fst (vault_steps (su_maxFileBytes uc) cs v) \<and>
    implements L clean uc u (snd (run_cmds L uc cs w)) (snd (vault_steps (su_maxFileBytes uc) cs v))"
proof (induction cs arbitrary: w v)
  case Nil
  then show ?case by simp
next
  case (Cons x cs)
  obtain ev q c where x: "x = (ev, q, c)" by (cases x)
  have rdy: "ready L ev S uc u w" and ok: "cmd_ok clean c" and q: "q \<in> P" using Cons.prems(2) by (simp_all add: x)
  obtain r w' where run: "run_cmd L ev uc q c w = (r, w')" by (cases "run_cmd L ev uc q c w")
  obtain r' v' where spec: "vault_step (su_maxFileBytes uc) (fresh_uuid ev IdEntry) q c v = (r', v')"
    by (cases "vault_step (su_maxFileBytes uc) (fresh_uuid ev IdEntry) q c v")
  have "told_apart L q q'" if "vt_Password v = Some q'" for q' using apart q Cons.prems(3) that by auto
  from step_simulates [OF rdy Cons.prems(1) libs(1-3) this libs(4) ok]
  have same: "r = r'" and imp: "implements L clean uc u w' v'" and still: "still_ready w w'"
    by (simp_all add: run spec simulates_def)
  have "\<forall>(ev, q, c)\<in>set cs. ready L ev S uc u w' \<and> cmd_ok clean c \<and> q \<in> P"
    using Cons.prems(2) still by (auto simp: still_ready_def intro: ready_cong)
  moreover have "set_option (vt_Password v') \<subseteq> P"
    using step_password [of "su_maxFileBytes uc" "fresh_uuid ev IdEntry" q c v] Cons.prems(3) q by (auto simp: spec)
  ultimately have "fst (run_cmds L uc cs w') = fst (vault_steps (su_maxFileBytes uc) cs v') \<and>
      implements L clean uc u (snd (run_cmds L uc cs w')) (snd (vault_steps (su_maxFileBytes uc) cs v'))"
    by (rule Cons.IH [OF imp])
  then show ?case by (simp add: x run spec same split_beta)
qed

text \<open>
  C5: A vault is a map behind a master password. Every sequence of commands of a signed-in user,
  each with a master password of its own, in which no call fails, answers exactly as the
  abstract vault does: adding, changing, describing and replacing files, removing and reading,
  with the errors for missing, deleted and wrongly typed entries, for files that are too
  large and for wrong passwords, in the order in which the abstract vault checks them. The rows
  implement the vault again at the end.
\<close>

theorem vault_refines_map:
  assumes "uuid_ok L" and "sqlite_time_ok L" and "crypto_ok L" and "json_ok L clean"
    and "\<forall>q\<in>P. \<forall>q'\<in>P. told_apart L q q'" and "set_option (vt_Password v) \<subseteq> P"
    and "implements L clean uc u w v" and "\<forall>(ev, q, c)\<in>set cs. ready L ev S uc u w \<and> cmd_ok clean c \<and> q \<in> P"
  shows "fst (run_cmds L uc cs w) = fst (vault_steps (su_maxFileBytes uc) cs v) \<and>
    implements L clean uc u (snd (run_cmds L uc cs w)) (snd (vault_steps (su_maxFileBytes uc) cs v))"
  by (rule cmds_simulate [OF assms(1-5,7,8,6)])

section \<open>A concrete vault\<close>

definition new_vault :: vault where
  "new_vault = \<lparr>vt_Password = None, vt_Cells = Map.empty\<rparr>"

definition sample_cmds :: "(env \<times> string \<times> vault_cmd) list" where
  "sample_cmds = [(calm (Unix_Ns 0), ''pw'', Read 7), (calm (Unix_Ns 0), ''pw'', Add EntryTypeText toy_meta ''hello''),
     (calm (Unix_Ns 0), ''no'', Read 7), (calm (Unix_Ns 0), ''pw'', Read 7), (calm (Unix_Ns 0), ''pw'', Remove 7), (calm (Unix_Ns 0), ''pw'', Read 7)]"

lemma sample_apart: "\<forall>q\<in>{''pw'', ''no''}. \<forall>q'\<in>{''pw'', ''no''}. told_apart toy q q'"
  by (auto simp: told_apart_def MasterKeyVerifier_def DeriveMasterKey_def KeyLength_def toy_def)

lemma signed_world_new: "implements toy (\<lambda>_. True) toy_secrets 1 signed_world new_vault"
proof -
  have "remote_params toy_secrets 1 signed_world = None"
    by (simp add: remote_params_def signed_world_local(4) toy_db_def)
  moreover have "entries_of signed_world = []"
    by (rule signed_device) (simp add: empty_device_def)
  ultimately show ?thesis
    by (simp add: implements_def new_vault_def signed_world_local)
qed

theorem vault_refines_map_witness:
  "fst (run_cmds toy toy_secrets sample_cmds signed_world) =
    [Inl (Sentinel ErrEntryNotFound), Inr None, Inl (Sentinel ErrWrongMasterPassword),
     Inr (Some \<lparr>de_Payload = ''hello'', de_Meta = toy_meta, de_Type = EntryTypeText\<rparr>), Inr None, Inl (Sentinel ErrEntryDeleted)]"
proof -
  have cmds: "\<forall>(ev, q, c)\<in>set sample_cmds. ready toy ev toy_services toy_secrets 1 signed_world \<and> cmd_ok (\<lambda>_. True) c \<and> q \<in> {''pw'', ''no''}"
    using signed_world_ready toy_meta_clean(1) by (simp add: sample_cmds_def)
  have "set_option (vt_Password new_vault) \<subseteq> {''pw'', ''no''}" by (simp add: new_vault_def)
  from vault_refines_map [OF toy_uuid_ok toy_sqlite_time_ok toy_crypto_ok toy_json_ok_all sample_apart this signed_world_new cmds]
  have "fst (run_cmds toy toy_secrets sample_cmds signed_world) = fst (vault_steps (su_maxFileBytes toy_secrets) sample_cmds new_vault)"
    by (rule conjunct1)
  also have "fresh_uuid (calm (Unix_Ns 0)) IdEntry = 7" by (simp add: fresh_uuid_def calm_def)
  then have "fst (vault_steps (su_maxFileBytes toy_secrets) sample_cmds new_vault) =
    [Inl (Sentinel ErrEntryNotFound), Inr None, Inl (Sentinel ErrWrongMasterPassword),
     Inr (Some \<lparr>de_Payload = ''hello'', de_Meta = toy_meta, de_Type = EntryTypeText\<rparr>), Inr None, Inl (Sentinel ErrEntryDeleted)]"
    by (simp add: sample_cmds_def new_vault_def vault_use_def vault_add_def vault_set_def shown_meta_def EntryTypeFile_def EntryTypeText_def Let_def)
  finally show ?thesis .
qed

end
