(* ===== verification/Request_Log.thy ===== *)
theory Request_Log
  imports Interceptors Auther_Service
begin

text \<open>
  What the requests of both services leave in their logs: the handlers of
  \<^verbatim>\<open>internal/skeeper/delivery\<close> and \<^verbatim>\<open>internal/auther/delivery\<close> with
  their logging, behind the interceptors.
\<close>

section \<open>The handlers with their logging\<close>

definition Sync_handler :: "lib \<Rightarrow> env \<Rightarrow> ctx \<Rightarrow> api_sync_request \<Rightarrow> (skeeper_db logged, go_error, api_sync_response) cmd" where
  "Sync_handler L ev cx req =
    bind_m (or_status cx sync_request_status ''failed to create new sync request from proto''
      (of_result (NewSyncRequestFromProto L req))) (\<lambda>syncReq.
    bind_m (or_status cx sync_status ''failed to sync'' (Uc_Sync L ev cx syncReq)) (\<lambda>res.
    ret (SyncResponse_ToProto L res)))"

definition GetVaultCrypto_handler :: "env \<Rightarrow> ctx \<Rightarrow> (skeeper_db logged, go_error, api_vault_crypto option) cmd" where
  "GetVaultCrypto_handler ev cx =
    bind_m (or_status cx get_vault_status ''get vault crypto'' (Uc_GetVaultCrypto ev cx)) (\<lambda>(salt, verifier).
    ret (Some \<lparr>pv_KdfSalt = salt, pv_MasterVerifier = verifier\<rparr>))"

definition PutVaultCrypto_handler :: "env \<Rightarrow> ctx \<Rightarrow> api_vault_crypto option \<Rightarrow> (skeeper_db logged, go_error, unit) cmd" where
  "PutVaultCrypto_handler ev cx vault =
    (case vault of
       None \<Rightarrow> raise (StatusErr InvalidArgument ''missing vault'')
     | Some v \<Rightarrow>
         or_status cx put_vault_status ''put vault crypto''
           (Uc_PutVaultCrypto ev cx (pv_KdfSalt v) (pv_MasterVerifier v)))"

definition CreateUser_handler ::
  "lib \<Rightarrow> env \<Rightarrow> ctx \<Rightarrow> string option \<Rightarrow> string option \<Rightarrow> (auther_db logged, go_error, api_user option) cmd" where
  "CreateUser_handler L ev cx email password =
    bind_m (or_status cx create_user_status ''failed to create user''
      (Uc_CreateUser L ev \<lparr>cr_Email = get_str email, cr_Password = get_str password\<rparr>)) (\<lambda>info.
    ret (Some \<lparr>pu_Id = Some (ui_ID info), pu_Email = Some (ui_Email info)\<rparr>))"

definition Login_handler ::
  "lib \<Rightarrow> env \<Rightarrow> auther_uc \<Rightarrow> ctx \<Rightarrow> string option \<Rightarrow> string option \<Rightarrow> (auther_db logged, go_error, api_login_response) cmd" where
  "Login_handler L ev uc cx email password =
    bind_m (or_status cx login_status ''failed to login user''
      (Uc_LoginUser L ev uc \<lparr>cr_Email = get_str email, cr_Password = get_str password\<rparr>)) (\<lambda>resp.
    ret \<lparr>pl_RefreshToken = Some (token_message (tp_RefreshToken (lr_TokenPair resp))),
      pl_AccessToken = Some (token_message (tp_AccessToken (lr_TokenPair resp))),
      pl_User = Some \<lparr>pu_Id = Some (ui_ID (lr_User resp)), pu_Email = Some (ui_Email (lr_User resp))\<rparr>\<rparr>)"

definition ExchangeToken_handler ::
  "lib \<Rightarrow> env \<Rightarrow> auther_uc \<Rightarrow> ctx \<Rightarrow> string option \<Rightarrow> (auther_db logged, go_error, api_exchange_response) cmd" where
  "ExchangeToken_handler L ev uc cx refreshToken =
    bind_m (or_status cx exchange_status ''failed to exchange token'' (Uc_RotateToken L ev uc (get_str refreshToken))) (\<lambda>resp.
    ret \<lparr>px_RefreshToken = Some (token_message (tp_RefreshToken resp)),
      px_AccessToken = Some (token_message (tp_AccessToken resp))\<rparr>)"

text \<open>The requests of each service, with their replies.\<close>

definition skeeper_handler :: "lib \<Rightarrow> env \<Rightarrow> skeeper_call \<Rightarrow> ctx \<Rightarrow> (skeeper_db logged, go_error, skeeper_reply) cmd" where
  "skeeper_handler L ev call cx = (case call of
      CallSync req \<Rightarrow> bind_m (Sync_handler L ev cx req) (\<lambda>r. ret (ReplySync r))
    | CallGetVault \<Rightarrow> bind_m (GetVaultCrypto_handler ev cx) (\<lambda>r. ret (ReplyVault r))
    | CallPutVault v \<Rightarrow> bind_m (PutVaultCrypto_handler ev cx v) (\<lambda>_. ret ReplyPut))"

datatype auther_reply = ReplyUser "api_user option" | ReplyLogin api_login_response | ReplyExchange api_exchange_response

definition auther_answer :: "lib \<Rightarrow> env \<Rightarrow> auther_uc \<Rightarrow> auther_call \<Rightarrow> (auther_db, go_error, auther_reply) cmd" where
  "auther_answer L ev uc call = (case call of
      CallRegister e p \<Rightarrow> bind_m (Rpc_CreateUser L ev e p) (\<lambda>r. ret (ReplyUser r))
    | CallLogin e p \<Rightarrow> bind_m (Rpc_Login L ev uc e p) (\<lambda>r. ret (ReplyLogin r))
    | CallExchange t \<Rightarrow> bind_m (Rpc_ExchangeToken L ev uc t) (\<lambda>r. ret (ReplyExchange r)))"

definition auther_handler :: "lib \<Rightarrow> env \<Rightarrow> auther_uc \<Rightarrow> auther_call \<Rightarrow> ctx \<Rightarrow> (auther_db logged, go_error, auther_reply) cmd" where
  "auther_handler L ev uc call cx = (case call of
      CallRegister e p \<Rightarrow> bind_m (CreateUser_handler L ev cx e p) (\<lambda>r. ret (ReplyUser r))
    | CallLogin e p \<Rightarrow> bind_m (Login_handler L ev uc cx e p) (\<lambda>r. ret (ReplyLogin r))
    | CallExchange t \<Rightarrow> bind_m (ExchangeToken_handler L ev uc cx t) (\<lambda>r. ret (ReplyExchange r)))"

section \<open>A service that logs its unexpected errors\<close>

text \<open>
  The contract of a handler behind the two default interceptors: in the context \<open>who cx\<close> it is
  known under it answers as a plain one and logs internal errors only; neither depends on
  the request information.
\<close>

definition returned :: "('s, go_error, 'a) cmd \<Rightarrow> ('s, go_error, 'a outcome) cmd" where
  "returned c = bind_m c (\<lambda>r. ret (Returned r))"

lemma returned_apply: "returned c s = (case c s of (Inl e, t) \<Rightarrow> (Inl e, t) | (Inr x, t) \<Rightarrow> (Inr (Returned x), t))"
  by (simp add: returned_def bind_m_def ret_def split: prod.split sum.split)

locale logged_service =
  fixes plain :: "'c \<Rightarrow> ctx \<Rightarrow> ('s, go_error, 'r) cmd"
    and logging :: "'c \<Rightarrow> ctx \<Rightarrow> ('s logged, go_error, 'r) cmd"
    and who :: "ctx \<Rightarrow> ctx"
  assumes logs: "logs_errors (who cx) (plain call cx) (logging call cx)"
    and plain_info: "plain call (SetRequestInfo cx i) = plain call cx"
    and who_info: "GetRequestInfo (who (SetRequestInfo cx i)) = Some i"
begin

lemma request:
  assumes "plain call cx s = (r, t)"
  shows "\<exists>ls. NewUnaryRecoveryInterceptor m (NewRequestInfoInterceptor K env m (\<lambda>cx. returned (logging call cx))) cx (s, lg) =
      (map_sum id Returned r, (t, lg @ started_record K env m cx # ls @ [finished_record K env m cx (result_err r)])) \<and>
    (if \<exists>e. r = Inl e \<and> internal e
     then \<exists>msg e. ls = [err_record (who (fillRequestInfo K env cx m)) msg e] else ls = [])"
proof -
  let ?cx = "fillRequestInfo K env cx m"
  have p: "plain call ?cx s = (r, t)" by (subst fillRequestInfo_is_info) (simp add: plain_info assms)
  have "\<exists>ls. logging call ?cx (s, lg') = (r, (t, lg' @ ls)) \<and>
      (if \<exists>e. r = Inl e \<and> internal e then \<exists>msg e. ls = [err_record (who ?cx) msg e] else ls = [])" for lg'
    using logs [of ?cx call] unfolding logs_errors_def by (metis p fst_conv snd_conv)
  then obtain ls where run: "logging call ?cx (s, lg @ [started_record K env m cx]) = (r, (t, (lg @ [started_record K env m cx]) @ ls))"
    and ls: "if \<exists>e. r = Inl e \<and> internal e then \<exists>msg e. ls = [err_record (who ?cx) msg e] else ls = []" by blast
  have "NewUnaryRecoveryInterceptor m (NewRequestInfoInterceptor K env m (\<lambda>cx. returned (logging call cx))) cx (s, lg) =
      (map_sum id Returned r, (t, lg @ started_record K env m cx # ls @ [finished_record K env m cx (result_err r)]))"
    by (cases r) (simp_all add: default_chain returned_apply run result_err_def)
  with ls show ?thesis by blast
qed

text \<open>Every record of a request carries its information: nothing in the log of a service is anonymous.\<close>

lemma attributed: "err_record (who (fillRequestInfo K env cx m)) msg e =
    ContextHandler_Handle (Some (who (fillRequestInfo K env cx m))) \<lparr>lr_Level = LevelError, lr_Message = msg, lr_Attrs = [(''err'', LogErr (Some e))]\<rparr> \<and>
    GetRequestInfo (who (fillRequestInfo K env cx m)) = GetRequestInfo (fillRequestInfo K env cx m)"
  by (subst (2) fillRequestInfo_is_info, subst who_info)
    (simp add: err_record_def fillRequestInfo_def Let_def GetRequestInfo_def SetRequestInfo_def)

end

section \<open>Both services are such services\<close>

lemma not_internal_missing: "\<not> internal (StatusErr InvalidArgument m)" "\<not> internal (StatusErr Unauthenticated m)"
  by (simp_all add: internal_def)

lemma logs_skeeper_handler: "logs_errors cx (handle_call L ev call cx) (skeeper_handler L ev call cx)"
  unfolding handle_call_def skeeper_handler_def Rpc_Sync_def Sync_handler_def Rpc_GetVaultCrypto_def GetVaultCrypto_handler_def
    Rpc_PutVaultCrypto_def PutVaultCrypto_handler_def
  by (auto intro!: logs_errors_intros not_internal_missing split: skeeper_call.split option.split prod.split)

lemma logs_auther_handler: "logs_errors cx (auther_answer L ev uc call) (auther_handler L ev uc call cx)"
  unfolding auther_answer_def auther_handler_def Rpc_CreateUser_def CreateUser_handler_def Rpc_Login_def Login_handler_def
    Rpc_ExchangeToken_def ExchangeToken_handler_def
  by (auto intro!: logs_errors_intros split: auther_call.split)

text \<open>The user of the token, where it is accepted.\<close>

definition token_user :: "lib \<Rightarrow> env \<Rightarrow> jwt_helper \<Rightarrow> ctx \<Rightarrow> ctx" where
  "token_user L ev jwt cx = (case authorize L ev jwt cx of Inl _ \<Rightarrow> cx | Inr cx' \<Rightarrow> cx')"

lemma logs_served:
  "logs_errors (token_user L ev jwt cx) (serve L ev jwt call cx) (AuthInterceptor L ev jwt (skeeper_handler L ev call) cx)"
proof (cases "authorize L ev jwt cx")
  case (Inl e)
  then show ?thesis
    using authorize_InlD [OF Inl] by (auto simp: serve_def AuthInterceptor_def token_user_def intro!: logs_errors_raise not_internal_missing)
next
  case (Inr cx')
  then show ?thesis by (simp add: serve_def AuthInterceptor_def token_user_def logs_skeeper_handler)
qed

interpretation vault_log: logged_service "serve L ev jwt" "\<lambda>call. AuthInterceptor L ev jwt (skeeper_handler L ev call)" "token_user L ev jwt"
  for L ev jwt
proof
  show "logs_errors (token_user L ev jwt cx) (serve L ev jwt call cx) (AuthInterceptor L ev jwt (skeeper_handler L ev call) cx)" for cx call
    by (rule logs_served)
  show "serve L ev jwt call (SetRequestInfo cx i) = serve L ev jwt call cx" for call cx i
    by (simp add: serve_def AuthInterceptor_def authorize_info handle_call_info split: sum.split)
  show "GetRequestInfo (token_user L ev jwt (SetRequestInfo cx i)) = Some i" for cx i
    by (simp add: token_user_def authorize_info split: sum.split) (simp add: GetRequestInfo_def SetRequestInfo_def)
qed

interpretation auther_log: logged_service "\<lambda>call cx. auther_answer L ev uc call" "\<lambda>call cx. auther_handler L ev uc call cx" "\<lambda>cx. cx"
  for L ev uc
  by unfold_locales (simp_all add: logs_auther_handler GetRequestInfo_def SetRequestInfo_def)

section \<open>What a request leaves in the log\<close>

lemma AuthInterceptor_returned: "AuthInterceptor L ev jwt (\<lambda>cx. returned (h cx)) = (\<lambda>cx. returned (AuthInterceptor L ev jwt h cx))"
  by (rule ext) (simp add: AuthInterceptor_def returned_def bind_m_def raise_def split: sum.split)

text \<open>The attributes of a request.\<close>

definition request_attrs :: "request_info \<Rightarrow> string \<Rightarrow> (string \<times> log_value) list" where
  "request_attrs i user =
    [(''request_id'', LogText (ri_RequestID i)), (''remote_ip'', LogText (ri_RemoteIP i)),
     (''method'', LogText (ri_Method i)), (''path'', LogText (ri_Path i)),
     (''user_agent'', LogText (ri_UserAgent i)), (''user_id'', LogText user)]"

definition info_of :: "lib \<Rightarrow> env \<Rightarrow> ctx \<Rightarrow> string \<Rightarrow> request_info" where
  "info_of L ev cx m = the (GetRequestInfo (fillRequestInfo L ev cx m))"

lemma Handle_request:
  "GetRequestInfo cx = Some i \<Longrightarrow>
    ContextHandler_Handle (Some cx) r = AddAttrs (request_attrs i (case GetUserID cx of None \<Rightarrow> [] | Some u \<Rightarrow> fmt_d (sint u))) r"
  by (simp add: ContextHandler_Handle_def request_attrs_def Let_def)

lemma GetRequestInfo_fill: "GetRequestInfo (fillRequestInfo L ev cx m) = Some (info_of L ev cx m)"
  by (simp add: fillRequestInfo_def info_of_def Let_def GetRequestInfo_def SetRequestInfo_def)

lemma GetUserID_fill [simp]: "GetUserID (fillRequestInfo L ev cx m) = GetUserID cx"
  by (simp add: fillRequestInfo_def Let_def)

lemma fill_is: "fillRequestInfo L ev cx m = SetRequestInfo cx (info_of L ev cx m)"
  unfolding info_of_def by (rule fillRequestInfo_is_info)

lemma started_attrs: "cx_UserID cx = None \<Longrightarrow> lr_Attrs (started_record L ev m cx) = request_attrs (info_of L ev cx m) []"
  by (simp add: started_record_def Handle_request [OF GetRequestInfo_fill] AddAttrs_def) (simp add: GetUserID_def)

lemma internal_served:
  assumes "serve L ev jwt call cx db = (Inl e, db')" and "internal e"
  shows "\<exists>u. authorize L ev jwt cx = Inr (SetUserID cx u)"
proof (cases "authorize L ev jwt cx")
  case (Inl e')
  with assms authorize_InlD [OF Inl] show ?thesis
    by (auto simp: serve_def AuthInterceptor_def raise_def internal_def)
next
  case (Inr cx')
  with authorize_InrD [OF Inr] show ?thesis by (auto simp: SetUserID_def)
qed

text \<open>
  C27: What a request to the vault service leaves in the log. The service answers, and changes its
  database, as it would without logging; the log gets a record of the start and a record of the end with
  the error the client gets; between them, exactly if that error is \<^verbatim>\<open>Internal\<close>, one
  record at error level with the error that caused it, under the request's id, address, method
  and agent and the id of the user whose token was accepted. The records around it carry the
  same attributes with an empty user id.
\<close>

theorem request_is_logged:
  assumes "skeeper_server tls L ev m cfg jwt = Inr srv" and "serve L ev jwt call cx db = (r, db')" and "cx_UserID cx = None"
  shows "\<exists>ls. run_chain (gs_unary srv) (\<lambda>cx. returned (skeeper_handler L ev call cx)) cx (db, lg) =
      (map_sum id Returned r, (db', lg @ started_record L ev m cx # ls @ [finished_record L ev m cx (result_err r)])) \<and>
    lr_Attrs (started_record L ev m cx) = request_attrs (info_of L ev cx m) [] \<and>
    (if \<exists>e. r = Inl e \<and> internal e
     then \<exists>l e u. ls = [l] \<and> lr_Level l = LevelError \<and> authorize L ev jwt cx = Inr (SetUserID cx u) \<and>
       lr_Attrs l = (''err'', LogErr (Some e)) # request_attrs (info_of L ev cx m) (fmt_d (sint u))
     else ls = [])"
proof -
  from vault_log.request [OF assms(2), where m = m and lg = lg and K = L and env = ev] obtain ls
    where run: "run_chain (gs_unary srv) (\<lambda>cx. returned (skeeper_handler L ev call cx)) cx (db, lg) =
      (map_sum id Returned r, (db', lg @ started_record L ev m cx # ls @ [finished_record L ev m cx (result_err r)]))"
      and ls: "if \<exists>e. r = Inl e \<and> internal e
        then \<exists>msg e. ls = [err_record (token_user L ev jwt (fillRequestInfo L ev cx m)) msg e] else ls = []"
    unfolding recovered_chain [OF assms(1)] AuthInterceptor_returned by blast
  have err: "\<exists>l e u. ls = [l] \<and> lr_Level l = LevelError \<and> authorize L ev jwt cx = Inr (SetUserID cx u) \<and>
      lr_Attrs l = (''err'', LogErr (Some e)) # request_attrs (info_of L ev cx m) (fmt_d (sint u))"
    if "r = Inl x" and "internal x" for x
  proof -
    from internal_served [OF assms(2) [unfolded that(1)] that(2)] obtain u where u: "authorize L ev jwt cx = Inr (SetUserID cx u)" ..
    have who: "token_user L ev jwt (fillRequestInfo L ev cx m) = SetUserID (SetRequestInfo cx (info_of L ev cx m)) u"
      by (simp add: fill_is token_user_def authorize_info u SetUserID_info)
    have rec: "lr_Attrs (err_record (SetUserID (SetRequestInfo cx i) u) msg e) =
        (''err'', LogErr (Some e)) # request_attrs i (fmt_d (sint u))" for msg e i
      by (simp add: err_record_def Handle_request [of _ i] GetRequestInfo_def SetRequestInfo_def SetUserID_def AddAttrs_def GetUserID_def)
    from ls that obtain msg e where "ls = [err_record (SetUserID (SetRequestInfo cx (info_of L ev cx m)) u) msg e]"
      unfolding who by auto
    then show ?thesis using u rec by (intro exI [of _ e] exI [of _ u] exI [of _ "err_record _ msg e"] conjI) (assumption, simp_all add: err_record_def)
  qed
  with ls run started_attrs [OF assms(3)] show ?thesis by auto
qed

section \<open>What is not in the log\<close>

text \<open>A handler of the vault service knows its caller by the user id and the request's information only.\<close>

lemma Handle_cong:
  "GetUserID c1 = GetUserID c2 \<Longrightarrow> GetRequestInfo c1 = GetRequestInfo c2 \<Longrightarrow>
    ContextHandler_Handle (Some c1) r = ContextHandler_Handle (Some c2) r"
  by (simp add: ContextHandler_Handle_def split: option.split)

lemma or_status_cong:
  assumes "GetUserID c1 = GetUserID c2" and "GetRequestInfo c1 = GetRequestInfo c2"
  shows "or_status c1 status msg c = or_status c2 status msg c"
  by (rule ext) (auto simp: or_status_apply err_record_def Handle_cong [OF assms] split: prod.split sum.split)

lemma skeeper_handler_cong:
  assumes "GetUserID c1 = GetUserID c2" and "GetRequestInfo c1 = GetRequestInfo c2"
  shows "skeeper_handler L ev call c1 = skeeper_handler L ev call c2"
proof -
  have uc: "Uc_Sync L ev c1 = Uc_Sync L ev c2" "Uc_GetVaultCrypto ev c1 = Uc_GetVaultCrypto ev c2"
    "Uc_PutVaultCrypto ev c1 = Uc_PutVaultCrypto ev c2"
    by (rule ext | simp add: Uc_Sync_def Uc_GetVaultCrypto_def Uc_PutVaultCrypto_def assms(1))+
  show ?thesis
    by (cases call) (simp_all add: skeeper_handler_def Sync_handler_def GetVaultCrypto_handler_def PutVaultCrypto_handler_def
      or_status_cong [OF assms] uc split: option.split)
qed

text \<open>The metadata with a value for the access token.\<close>

definition with_token :: "string list \<Rightarrow> (string \<Rightarrow> string list) \<Rightarrow> ctx \<Rightarrow> ctx" where
  "with_token v md cx = cx\<lparr>cx_Metadata := Some (md(''authorization'' := v))\<rparr>"

lemma info_of_with_token: "info_of L ev (with_token v md cx) m = info_of L ev (with_token v' md cx) m"
  by (simp add: info_of_def with_token_def fillRequestInfo_def GetRequestInfo_def SetRequestInfo_def Let_def split: list.split)

lemma GetUserID_with_token [simp]: "GetUserID (with_token v md cx) = GetUserID cx"
  by (simp add: with_token_def GetUserID_def)

lemma records_with_token:
  "started_record L ev m (with_token v md cx) = started_record L ev m (with_token v' md cx)"
  "finished_record L ev m (with_token v md cx) = finished_record L ev m (with_token v' md cx)"
  "panic_record m (with_token v md cx) = panic_record m (with_token v' md cx)"
proof -
  have c: "ContextHandler_Handle (Some (fillRequestInfo L ev (with_token v md cx) m)) r =
      ContextHandler_Handle (Some (fillRequestInfo L ev (with_token v' md cx) m)) r" for r
    by (rule Handle_cong) (simp_all add: GetRequestInfo_fill info_of_with_token [of L ev v md cx m v'])
  show "started_record L ev m (with_token v md cx) = started_record L ev m (with_token v' md cx)"
    by (simp add: started_record_def c)
  show "finished_record L ev m (with_token v md cx) = finished_record L ev m (with_token v' md cx)"
    by (rule ext) (simp add: finished_record_def c)
  show "panic_record m (with_token v md cx) = panic_record m (with_token v' md cx)"
    by (rule ext) (auto simp: panic_record_def with_token_def GetUserID_def GetRequestInfo_def intro!: Handle_cong)
qed

text \<open>
  C14: Access tokens stay out of the log. Two requests that differ in the token alone, and whose
  tokens are accepted for the same user or refused with the same error, are answered
  alike and leave the same records, whatever they ask for and whatever fails.
\<close>

theorem tokens_not_logged:
  assumes "skeeper_server tls L ev m cfg jwt = Inr srv"
    and "map_sum id cx_UserID (authorize L ev jwt (with_token v md cx)) = map_sum id cx_UserID (authorize L ev jwt (with_token v' md cx))"
  shows "run_chain (gs_unary srv) (\<lambda>cx. returned (skeeper_handler L ev call cx)) (with_token v md cx) (db, lg) =
    run_chain (gs_unary srv) (\<lambda>cx. returned (skeeper_handler L ev call cx)) (with_token v' md cx) (db, lg)"
proof -
  let ?h = "\<lambda>cx. returned (skeeper_handler L ev call cx)"
  have auth: "AuthInterceptor L ev jwt ?h (fillRequestInfo L ev (with_token v md cx) m) =
      AuthInterceptor L ev jwt ?h (fillRequestInfo L ev (with_token v' md cx) m)"
  proof (cases "authorize L ev jwt (with_token v md cx)")
    case (Inl e)
    then have "authorize L ev jwt (with_token v' md cx) = Inl e"
      using assms(2) by (cases "authorize L ev jwt (with_token v' md cx)") simp_all
    with Inl show ?thesis by (simp add: AuthInterceptor_def fill_is authorize_info)
  next
    case (Inr c1)
    then obtain c2 where c2: "authorize L ev jwt (with_token v' md cx) = Inr c2" and u: "cx_UserID c1 = cx_UserID c2"
      using assms(2) Inr by (cases "authorize L ev jwt (with_token v' md cx)") simp_all
    have "skeeper_handler L ev call (SetRequestInfo c1 i) = skeeper_handler L ev call (SetRequestInfo c2 i)" for i
      by (rule skeeper_handler_cong) (simp_all add: GetUserID_def GetRequestInfo_def SetRequestInfo_def u)
    then show ?thesis
      by (simp add: AuthInterceptor_def fill_is authorize_info Inr c2 info_of_with_token [of L ev v md cx m v'])
  qed
  show ?thesis
    by (simp add: recovered_chain [OF assms(1)] default_chain auth records_with_token(1,2) [of L ev m v md cx v']
        records_with_token(3) [of m v md cx v'] split: prod.split sum.split outcome.split)
qed

text \<open>
  The authentication service: the error behind an \<^verbatim>\<open>Internal\<close> answer does not
  depend on the password.
\<close>

lemma Validate_same:
  assumes "Validate L \<lparr>cr_Email = e, cr_Password = p\<rparr> = Inr c" and "Validate L \<lparr>cr_Email = e, cr_Password = p'\<rparr> = Inr c'"
  shows "cr_Email c = cr_Email c'" and "length (cr_Password c) \<le> 72"
  using assms by (auto elim!: Validate_InrD)

lemma ValidateForLogin_same:
  assumes "ValidateForLogin L \<lparr>cr_Email = e, cr_Password = p\<rparr> = Inr c" and "ValidateForLogin L \<lparr>cr_Email = e, cr_Password = p'\<rparr> = Inr c'"
  shows "cr_Email c = cr_Email c'"
  using assms by (auto simp: ValidateForLogin_def validateEmail_def split: if_splits sum.splits)

lemma not_internal_validation:
  "\<not> internal (create_user_status (Wrap (Some (NewValidationError f m)) t))"
  "\<not> internal (login_status (Wrap (Some (NewValidationError f m)) t))"
  by (simp_all add: create_user_status_def login_status_def internal_def NewValidationError_def Wrap_def)

lemma insert_user_answer: "fst (insert_user \<lparr>dc_Email = m, dc_PasswordHash = h\<rparr> db) = fst (insert_user \<lparr>dc_Email = m, dc_PasswordHash = h'\<rparr> db)"
  by (simp add: insert_user_def split: sum.split)

lemma ack_call_answer:
  "fst (ack_call ev c q s) =
    (case fault ev (rpc ev) c of
       Some t \<Rightarrow> Inl (LibErr t)
     | None \<Rightarrow> (case fst (q s) of
         Inl e \<Rightarrow> Inl e
       | Inr x \<Rightarrow> (case fault ev (rpc ev) (Ack c) of Some t \<Rightarrow> Inl (LibErr t) | None \<Rightarrow> Inr x)))"
  by (simp add: ack_call_def bind_m_def try_call_def ret_def raise_def split: option.split prod.split sum.split)

lemma InsertUser_err:
  assumes "InsertUser ev \<lparr>dc_Email = m, dc_PasswordHash = h\<rparr> db = (Inl e, t)"
  shows "\<exists>t'. InsertUser ev \<lparr>dc_Email = m, dc_PasswordHash = h'\<rparr> db = (Inl e, t')"
proof -
  let ?q = "\<lambda>h. map_err (\<lambda>e. Wrap (Some e) ''failed to insert user'') (ack_call ev UserInsert (insert_user \<lparr>dc_Email = m, dc_PasswordHash = h\<rparr>)) db"
  have "fst (?q h) = fst (?q h')"
    by (simp add: map_err_def case_prod_beta ack_call_answer insert_user_answer [of m h db h'] split: sum.split)
  then show ?thesis
    using assms by (cases "?q h"; cases "?q h'"; cases "fst (?q h)")
      (auto simp: InsertUser_def bind_m_def ret_def raise_def split: sum.splits)
qed

lemma register_internal_same:
  assumes "bcrypt_ok L"
    and "Uc_CreateUser L ev \<lparr>cr_Email = e, cr_Password = p\<rparr> db = (Inl e1, t1)" and "internal (create_user_status e1)"
    and "Uc_CreateUser L ev \<lparr>cr_Email = e, cr_Password = p'\<rparr> db = (Inl e2, t2)" and "internal (create_user_status e2)"
  shows "e1 = e2"
proof -
  have valid: "\<exists>c h. Validate L \<lparr>cr_Email = e, cr_Password = q\<rparr> = Inr c \<and>
      map_err create_user_err (InsertUser ev \<lparr>dc_Email = cr_Email c, dc_PasswordHash = h\<rparr>) db = (Inl x, t)"
    if run: "Uc_CreateUser L ev \<lparr>cr_Email = e, cr_Password = q\<rparr> db = (Inl x, t)" and int: "internal (create_user_status x)" for q x t
  proof (cases "Validate L \<lparr>cr_Email = e, cr_Password = q\<rparr>")
    case (Inl y)
    with Validate_InlD [OF Inl] run int show ?thesis by (auto simp: Uc_CreateUser_def raise_def not_internal_validation)
  next
    case (Inr c)
    obtain h where "bcrypt_Generate L (rand_bytes ev DrawBcryptSalt 16) (cr_Password c) = Inr h"
      using assms(1) Validate_same(2) [OF Inr Inr] unfolding bcrypt_ok_def by blast
    then have "HashPassword L ev c = Inr h" by (simp add: HashPassword_def)
    with run Inr show ?thesis by (auto simp: Uc_CreateUser_def)
  qed
  from valid [OF assms(2,3)] obtain c h where c: "Validate L \<lparr>cr_Email = e, cr_Password = p\<rparr> = Inr c"
    and r1: "map_err create_user_err (InsertUser ev \<lparr>dc_Email = cr_Email c, dc_PasswordHash = h\<rparr>) db = (Inl e1, t1)" by blast
  from valid [OF assms(4,5)] obtain c' h' where c': "Validate L \<lparr>cr_Email = e, cr_Password = p'\<rparr> = Inr c'"
    and r2: "map_err create_user_err (InsertUser ev \<lparr>dc_Email = cr_Email c', dc_PasswordHash = h'\<rparr>) db = (Inl e2, t2)" by blast
  obtain x where x: "InsertUser ev \<lparr>dc_Email = cr_Email c, dc_PasswordHash = h\<rparr> db = (Inl x, t1)" "e1 = create_user_err x"
    using r1 by (auto simp: map_err_def split: prod.splits sum.splits)
  from InsertUser_err [OF x(1), of h'] r2 x(2) show ?thesis
    by (auto simp: map_err_def Validate_same(1) [OF c c'])
qed

lemma bind_attempt: "bind_m (attempt c) f s = (case c s of (r, t) \<Rightarrow> f r t)"
  by (simp add: bind_m_def attempt_def split: prod.split)

lemma login_internal_same:
  assumes "Uc_LoginUser L ev uc \<lparr>cr_Email = e, cr_Password = p\<rparr> db = (Inl e1, t1)" and "internal (login_status e1)"
    and "Uc_LoginUser L ev uc \<lparr>cr_Email = e, cr_Password = p'\<rparr> db = (Inl e2, t2)" and "internal (login_status e2)"
  shows "e1 = e2"
proof -
  let ?sel = "\<lambda>c. SelectUserByEmail ev (cr_Email c) db"
  define go where "go u = bind_m (map_err (\<lambda>e. Wrap (Some e) ''failed to create a new token pair'')
      (of_result (NewTokenPair L ev (au_jwtHelper uc) (ui_ID u)))) (\<lambda>tokenPair.
    bind_m (map_err (\<lambda>e. Wrap (Some e) ''failed to persist refresh token'')
      (ReplaceUserRefreshTokens L ev (ui_ID u) tokenPair)) (\<lambda>_. ret \<lparr>lr_TokenPair = tokenPair, lr_User = u\<rparr>))" for u
  have valid: "\<exists>c. ValidateForLogin L \<lparr>cr_Email = e, cr_Password = q\<rparr> = Inr c \<and>
      (case ?sel c of (Inl y, s) \<Rightarrow> x = y | (Inr u, s) \<Rightarrow> go u s = (Inl x, t))"
    if run: "Uc_LoginUser L ev uc \<lparr>cr_Email = e, cr_Password = q\<rparr> db = (Inl x, t)" and int: "internal (login_status x)" for q x t
  proof (cases "ValidateForLogin L \<lparr>cr_Email = e, cr_Password = q\<rparr>")
    case (Inl y)
    with ValidateForLogin_InlD [OF Inl] run int show ?thesis by (auto simp: Uc_LoginUser_def raise_def not_internal_validation)
  next
    case (Inr c)
    have no: "\<not> internal (login_status (Sentinel Uc_ErrUserNotExist))" by (simp add: login_status_def internal_def)
    obtain sel s where sel: "?sel c = (sel, s)" by (cases "?sel c")
    have "Uc_LoginUser L ev uc \<lparr>cr_Email = e, cr_Password = q\<rparr> db =
        (case sel of
           Inl y \<Rightarrow> if errors_is y Pg_ErrUserNotExist then (Inl (Sentinel Uc_ErrUserNotExist), s) else (Inl y, s)
         | Inr u \<Rightarrow> if bcrypt_Compare L (ui_PasswordHash u) (cr_Password c) then go u s else (Inl (Sentinel Uc_ErrUserNotExist), s))"
      by (simp add: Uc_LoginUser_def Inr bind_attempt sel Let_def raise_def go_def split: sum.split)
    with run int no show ?thesis by (auto simp: Inr sel split: sum.splits if_splits)
  qed
  obtain c where c: "ValidateForLogin L \<lparr>cr_Email = e, cr_Password = p\<rparr> = Inr c"
    and r1: "case ?sel c of (Inl y, s) \<Rightarrow> e1 = y | (Inr u, s) \<Rightarrow> go u s = (Inl e1, t1)"
    using valid [OF assms(1,2)] by (elim exE conjE) (rule that)
  obtain c' where c': "ValidateForLogin L \<lparr>cr_Email = e, cr_Password = p'\<rparr> = Inr c'"
    and r2: "case ?sel c' of (Inl y, s) \<Rightarrow> e2 = y | (Inr u, s) \<Rightarrow> go u s = (Inl e2, t2)"
    using valid [OF assms(3,4)] by (elim exE conjE) (rule that)
  obtain y s where sel: "?sel c' = (y, s)" by (cases "?sel c'")
  show ?thesis using r1 r2 unfolding ValidateForLogin_same [OF c c'] sel by (cases y) simp_all
qed

text \<open>So calls of one answer log the same.\<close>

lemma or_status_log:
  assumes "map_sum id (\<lambda>_. ()) (fst (map_err st c s)) = map_sum id (\<lambda>_. ()) (fst (map_err st c' s))"
    and same: "\<And>e e' t t'. c s = (Inl e, t) \<Longrightarrow> internal (st e) \<Longrightarrow> c' s = (Inl e', t') \<Longrightarrow> internal (st e') \<Longrightarrow> e = e'"
  shows "snd (snd (or_status cx st msg c (s, lg))) = snd (snd (or_status cx st msg c' (s, lg)))"
proof -
  obtain a u where a: "c s = (a, u)" by (cases "c s")
  obtain a' u' where a': "c' s = (a', u')" by (cases "c' s")
  show ?thesis
  proof (cases a)
    case (Inl e)
    then obtain e' where "a' = Inl e'" "st e = st e'" using assms(1) a a'
      by (cases a') (auto simp: map_err_def)
    moreover have "e = e'" if "internal (st e)"
      using same [of e u e' u'] that calculation Inl a a' by simp
    ultimately show ?thesis using Inl by (auto simp: or_status_apply a a')
  next
    case (Inr x)
    then have "\<exists>y. a' = Inr y" using assms(1) a a' by (cases a') (auto simp: map_err_def)
    with Inr show ?thesis by (auto simp: or_status_apply a a')
  qed
qed

lemma after_ret: "snd (bind_m c (\<lambda>x. ret (f x)) s) = snd (c s)"
  "map_sum id (\<lambda>_. ()) (fst (bind_m c (\<lambda>x. ret (f x)) s)) = map_sum id (\<lambda>_. ()) (fst (c s))"
  by (simp_all add: bind_m_def ret_def split: prod.split sum.split)

lemma forget_value: "x = y \<Longrightarrow> map_sum id (\<lambda>_. ()) x = map_sum id (\<lambda>_. ()) y"
  by simp

lemma login_log:
  assumes "map_sum id (\<lambda>_. ()) (fst (Rpc_Login L ev uc e p db)) = map_sum id (\<lambda>_. ()) (fst (Rpc_Login L ev uc e p' db))"
  shows "snd (snd (Login_handler L ev uc cx e p (db, lg))) = snd (snd (Login_handler L ev uc cx e p' (db, lg)))"
  unfolding Login_handler_def after_ret(1)
  by (rule or_status_log [OF _ login_internal_same])
    (use assms in \<open>simp only: Rpc_Login_def after_ret(2)\<close>)

lemma register_log:
  assumes "bcrypt_ok L"
    and "map_sum id (\<lambda>_. ()) (fst (Rpc_CreateUser L ev e p db)) = map_sum id (\<lambda>_. ()) (fst (Rpc_CreateUser L ev e p' db))"
  shows "snd (snd (CreateUser_handler L ev cx e p (db, lg))) = snd (snd (CreateUser_handler L ev cx e p' (db, lg)))"
  unfolding CreateUser_handler_def after_ret(1)
  by (rule or_status_log [OF _ register_internal_same [OF assms(1)]])
    (use assms(2) in \<open>simp only: Rpc_CreateUser_def after_ret(2)\<close>)

lemma default_chain_log:
  assumes "\<And>cx lg. fst (h cx (s, lg)) = fst (h' cx (s, lg))" and "\<And>cx lg. snd (snd (h cx (s, lg))) = snd (snd (h' cx (s, lg)))"
  shows "snd (snd (NewUnaryRecoveryInterceptor m (NewRequestInfoInterceptor L ev m (\<lambda>cx. returned (h cx))) cx (s, lg))) =
    snd (snd (NewUnaryRecoveryInterceptor m (NewRequestInfoInterceptor L ev m (\<lambda>cx. returned (h' cx))) cx (s, lg)))"
  using assms [of "fillRequestInfo L ev cx m" "lg @ [started_record L ev m cx]"]
  by (auto simp: default_chain returned_apply split: prod.split sum.split)

text \<open>
  C13: Passwords stay out of the log. Registrations, and logins, of one e-mail address with
  different passwords leave the same records whenever they are answered alike, whatever fails:
  the log of the authentication service tells of a password what the answer tells, and nothing else.
\<close>

theorem passwords_not_logged:
  assumes "server_New tls L ev m cfg [] = Inr srv" and "bcrypt_ok L" and "call \<in> {CallRegister, CallLogin}"
    and "fst (auther_answer L ev uc (call e p) db) = fst (auther_answer L ev uc (call e p') db)"
  shows "snd (snd (run_chain (gs_unary srv) (\<lambda>cx. returned (auther_handler L ev uc (call e p) cx)) cx (db, lg))) =
    snd (snd (run_chain (gs_unary srv) (\<lambda>cx. returned (auther_handler L ev uc (call e p') cx)) cx (db, lg)))"
proof -
  have chain: "run_chain (gs_unary srv) h = NewUnaryRecoveryInterceptor m (NewRequestInfoInterceptor L ev m h)" for h
    by (simp add: server_New_Inr(2) [OF assms(1)] run_chain_def)
  have fst: "fst (auther_handler L ev uc c cx (db, lg)) = fst (auther_answer L ev uc c db)" for c cx lg
    by (rule logs_errors_fst [OF logs_auther_handler])
  have snd: "snd (snd (auther_handler L ev uc (call e p) cx (db, lg))) = snd (snd (auther_handler L ev uc (call e p') cx (db, lg)))" for cx lg
  proof (cases "call = CallLogin")
    case True
    note same = forget_value [OF assms(4) [unfolded True auther_answer_def auther_call.case], unfolded after_ret(2)]
    show ?thesis
      unfolding True auther_handler_def auther_call.case after_ret(1) by (rule login_log [OF same])
  next
    case False
    with assms(3) have c: "call = CallRegister" by simp
    note same = forget_value [OF assms(4) [unfolded c auther_answer_def auther_call.case], unfolded after_ret(2)]
    show ?thesis
      unfolding c auther_handler_def auther_call.case after_ret(1) by (rule register_log [OF assms(2) same])
  qed
  show ?thesis unfolding chain by (rule default_chain_log) (simp_all add: fst snd assms(4))
qed

section \<open>Concrete requests\<close>

lemma plain_server: "\<exists>srv. skeeper_server (\<lambda>_ _. Inr ()) toy (calm (Unix_Ns 0)) ''/skeeper/Sync'' plain_config toy_helper = Inr srv"
  by (simp add: skeeper_server_def server_New_def plain_config_def)

theorem request_is_logged_witness:
  "\<exists>(srv :: (skeeper_db, skeeper_reply) grpc_server) lg.
    skeeper_server (\<lambda>_ _. Inr ()) toy (calm (Unix_Ns 0)) ''/skeeper/Sync'' plain_config toy_helper = Inr srv \<and>
    run_chain (gs_unary srv) (\<lambda>cx. returned (skeeper_handler toy (calm (Unix_Ns 0)) CallGetVault cx)) (toy_ctx None) (toy_db, []) =
      (Inl (StatusErr Unauthenticated ''metadata is not provided''), (toy_db, lg)) \<and>
    map lr_Level lg = [LevelInfo, LevelInfo]"
proof -
  obtain srv :: "(skeeper_db, skeeper_reply) grpc_server"
    where srv: "skeeper_server (\<lambda>_ _. Inr ()) toy (calm (Unix_Ns 0)) ''/skeeper/Sync'' plain_config toy_helper = Inr srv"
    using plain_server by (rule exE)
  have run: "serve toy (calm (Unix_Ns 0)) toy_helper CallGetVault (toy_ctx None) toy_db =
      (Inl (StatusErr Unauthenticated ''metadata is not provided''), toy_db)"
    by (simp add: serve_def AuthInterceptor_def authorize_def toy_ctx_def raise_def)
  from request_is_logged [OF srv run, of "[]"] srv show ?thesis
    by (auto simp: toy_ctx_def internal_def started_record_def finished_record_def)
qed

theorem tokens_not_logged_witness:
  "\<exists>srv :: (skeeper_db, skeeper_reply) grpc_server.
    skeeper_server (\<lambda>_ _. Inr ()) toy (calm (Unix_Ns 0)) ''/skeeper/Sync'' plain_config toy_helper = Inr srv \<and>
    run_chain (gs_unary srv) (\<lambda>cx. returned (skeeper_handler toy (calm (Unix_Ns 0)) CallGetVault cx)) (with_token [''secret1''] (\<lambda>_. []) (toy_ctx None)) (toy_db, []) =
    run_chain (gs_unary srv) (\<lambda>cx. returned (skeeper_handler toy (calm (Unix_Ns 0)) CallGetVault cx)) (with_token [''secret2''] (\<lambda>_. []) (toy_ctx None)) (toy_db, [])"
proof -
  obtain srv :: "(skeeper_db, skeeper_reply) grpc_server"
    where srv: "skeeper_server (\<lambda>_ _. Inr ()) toy (calm (Unix_Ns 0)) ''/skeeper/Sync'' plain_config toy_helper = Inr srv"
    using plain_server by (rule exE)
  have refused: "authorize toy (calm (Unix_Ns 0)) toy_helper (with_token [v] (\<lambda>_. []) (toy_ctx None)) =
      Inl (StatusErr Unauthenticated ''invalid authorization format'')" if "v \<in> {''secret1'', ''secret2''}" for v
    using that by (auto simp: authorize_def with_token_def)
  show ?thesis
    by (rule exI [of _ srv], rule conjI [OF srv], rule tokens_not_logged [OF srv]) (simp add: refused)
qed

theorem passwords_not_logged_witness:
  "\<exists>srv :: (auther_db, auther_reply) grpc_server. server_New (\<lambda>_ _. Inr ()) toy (calm (Unix_Ns 0)) ''/auther/Login'' plain_config [] = Inr srv \<and>
    snd (snd (run_chain (gs_unary srv) (\<lambda>cx. returned (auther_handler toy (calm (Unix_Ns 0)) toy_uc (CallLogin (Some ''a@b'') (Some ''longpass'')) cx)) (toy_ctx None) (empty_auther, []))) =
    snd (snd (run_chain (gs_unary srv) (\<lambda>cx. returned (auther_handler toy (calm (Unix_Ns 0)) toy_uc (CallLogin (Some ''a@b'') (Some ''otherpass'')) cx)) (toy_ctx None) (empty_auther, [])))"
proof -
  obtain srv :: "(auther_db, auther_reply) grpc_server"
    where srv: "server_New (\<lambda>_ _. Inr ()) toy (calm (Unix_Ns 0)) ''/auther/Login'' plain_config [] = Inr srv"
    by (simp add: server_New_def plain_config_def)
  have "fst (auther_answer toy (calm (Unix_Ns 0)) toy_uc (CallLogin (Some ''a@b'') (Some p)) empty_auther) =
      Inl (StatusErr Unauthenticated ''invalid email or password'')" if "p \<in> {''longpass'', ''otherpass''}" for p
  proof -
    have "ValidateForLogin toy \<lparr>cr_Email = ''a@b'', cr_Password = p\<rparr> = Inr \<lparr>cr_Email = ''a@b'', cr_Password = p\<rparr>"
      using that by (auto simp: ValidateForLogin_def validateEmail_def toy_normalize MaxPasswordBytes_def)
    then show ?thesis
      by (simp add: auther_answer_def Rpc_Login_def Uc_LoginUser_def attempt_def Let_def SelectUserByEmail_def
          empty_auther_def bind_m_def map_err_def gets_def try_call_def calm_def ret_def raise_def login_status_def)
  qed
  then show ?thesis
    by (intro exI [of _ srv] conjI srv passwords_not_logged [OF srv toy_bcrypt_ok]) simp_all
qed

end
