(* ===== verification/Test_Pools.thy ===== *)
theory Test_Pools
  imports Auther_Service
begin

text \<open>
  The databases of the repositories' integration tests
  (\<^verbatim>\<open>internal/integrationtest\<close>): a Postgres container that is started and migrated once
  per test binary, and the emptying of Auther's tables between tests. The container library, pgx
  and goose are parameters.
\<close>

section \<open>Hosts and states\<close>

record test_db =
  td_Image :: string
  td_Database :: string
  td_Username :: string
  td_Password :: string

text \<open>
  \<open>'c\<close> is a running container and \<open>'p\<close> a pool; \<open>th_GooseUp\<close> applies the migrations of a package
  to the database behind a pool.
\<close>

record ('c, 'p) test_host =
  th_Run :: "test_db \<Rightarrow> go_error + 'c"
  th_ConnectionString :: "'c \<Rightarrow> string \<Rightarrow> go_error + string"
  th_NewPool :: "string \<Rightarrow> go_error + 'p"
  th_SetDialect :: "string \<Rightarrow> go_error option"
  th_GooseUp :: "string \<Rightarrow> 'p \<Rightarrow> go_error option"

text \<open>
  The package variables of one pool, whether its \<^verbatim>\<open>sync.Once\<close> has run, and what the test
  binary has started, opened and migrated.
\<close>

record ('c, 'p) test_env =
  te_once :: bool
  te_pool :: "'p option"
  te_err :: "go_error option"
  te_containers :: "'c list"
  te_open :: "'p list"
  te_migrated :: "'p list"

definition untouched :: "('c, 'p) test_env" where
  "untouched = \<lparr>te_once = False, te_pool = None, te_err = None, te_containers = [], te_open = [], te_migrated = []\<rparr>"

section \<open>The pool of a test binary\<close>

text \<open>The SQL handle goose works on is closed again when it is done, whatever it returned.\<close>

definition GooseMigrate :: "('c, 'p) test_host \<Rightarrow> string \<Rightarrow> 'p \<Rightarrow> (('c, 'p) test_env, go_error, unit) cmd" where
  "GooseMigrate H migrations pool =
    (case th_SetDialect H ''postgres'' of
       Some e \<Rightarrow> raise e
     | None \<Rightarrow>
         (case th_GooseUp H migrations pool of
            Some e \<Rightarrow> raise e
          | None \<Rightarrow> (\<lambda>s. (Inr (), s\<lparr>te_migrated := pool # te_migrated s\<rparr>))))"

text \<open>The function given to \<^verbatim>\<open>Once.Do\<close>, over the settings in which the two pools differ.\<close>

definition start_pool :: "('c, 'p) test_host \<Rightarrow> test_db \<Rightarrow> string \<Rightarrow> (('c, 'p) test_env, go_error, 'p) cmd" where
  "start_pool H db migrations =
    bind_m (of_result (th_Run H db)) (\<lambda>c.
    bind_m (\<lambda>s. (Inr (), s\<lparr>te_containers := c # te_containers s\<rparr>)) (\<lambda>_.
    bind_m (of_result (th_ConnectionString H c ''sslmode=disable'')) (\<lambda>connStr.
    bind_m (of_result (th_NewPool H connStr)) (\<lambda>pool.
    bind_m (\<lambda>s. (Inr (), s\<lparr>te_open := pool # te_open s\<rparr>)) (\<lambda>_.
    bind_m (attempt (GooseMigrate H migrations pool)) (\<lambda>r.
    case r of
      Inl e \<Rightarrow> bind_m (\<lambda>s. (Inr (), s\<lparr>te_open := remove1 pool (te_open s)\<rparr>)) (\<lambda>_. raise e)
    | Inr _ \<Rightarrow> ret pool))))))"

definition test_pool :: "('c, 'p) test_host \<Rightarrow> test_db \<Rightarrow> string \<Rightarrow> (('c, 'p) test_env, go_error, 'p option) cmd" where
  "test_pool H db migrations =
    bind_m (gets te_once) (\<lambda>once.
    bind_m (if once then ret ()
      else (\<lambda>s. case start_pool H db migrations s of
          (Inl e, t) \<Rightarrow> (Inr (), t\<lparr>te_once := True, te_err := Some e\<rparr>)
        | (Inr pool, t) \<Rightarrow> (Inr (), t\<lparr>te_once := True, te_pool := Some pool\<rparr>))) (\<lambda>_.
    bind_m (gets te_err) (\<lambda>err.
    case err of Some e \<Rightarrow> raise e | None \<Rightarrow> gets te_pool)))"

definition AutherTestPool :: "('c, 'p) test_host \<Rightarrow> (('c, 'p) test_env, go_error, 'p option) cmd" where
  "AutherTestPool H = test_pool H
    \<lparr>td_Image = ''postgres:16-alpine'', td_Database = ''auther_db'', td_Username = ''auther_user'', td_Password = ''auther_password''\<rparr>
    ''migrations/auther''"

definition SkeeperPostgresPool :: "('c, 'p) test_host \<Rightarrow> (('c, 'p) test_env, go_error, 'p option) cmd" where
  "SkeeperPostgresPool H = test_pool H
    \<lparr>td_Image = ''postgres:16-alpine'', td_Database = ''skeeper_db'', td_Username = ''skeeper_user'', td_Password = ''skeeper_password''\<rparr>
    ''migrations/skeeper''"

text \<open>\<^verbatim>\<open>TRUNCATE\<close> with \<^verbatim>\<open>RESTART IDENTITY CASCADE\<close>: the tokens go with their users, both sequences start over.\<close>

definition TruncateAuther :: "go_error option \<Rightarrow> (auther_db, go_error, unit) cmd" where
  "TruncateAuther failed =
    (case failed of
       Some e \<Rightarrow> raise e
     | None \<Rightarrow> (\<lambda>db. (Inr (), db\<lparr>ad_Users := [], ad_UserSeq := 0, ad_Tokens := [], ad_TokenSeq := 0\<rparr>)))"

section \<open>What the tests can rely on\<close>

text \<open>The pool is migrated and open, or nothing is open and every test fails with the same error.\<close>

definition pool_ready :: "('c, 'p) test_env \<Rightarrow> bool" where
  "pool_ready s \<longleftrightarrow> te_once s \<and> length (te_containers s) \<le> 1 \<and>
    (case te_err s of
       Some _ \<Rightarrow> te_pool s = None \<and> te_open s = [] \<and> te_migrated s = []
     | None \<Rightarrow> (\<exists>p. te_pool s = Some p \<and> te_open s = [p] \<and> te_migrated s = [p]))"

lemma start_pool_outcome:
  assumes "start_pool H db m untouched = (r, t)"
  shows "te_once t = False" and "te_err t = None" and "te_pool t = None" and "length (te_containers t) \<le> 1"
    and "r = Inr p \<Longrightarrow> te_open t = [p] \<and> te_migrated t = [p]" and "r = Inl e \<Longrightarrow> te_open t = [] \<and> te_migrated t = []"
  using assms
  by (auto simp: start_pool_def GooseMigrate_def untouched_def cmd_defs split: sum.splits option.splits)

lemma first_call: "pool_ready (snd (test_pool H db m untouched))"
proof -
  obtain r t where run: "start_pool H db m untouched = (r, t)" by (cases "start_pool H db m untouched")
  have new: "te_once untouched = False" by (simp add: untouched_def)
  show ?thesis
    by (cases r) (use start_pool_outcome [OF run] in
      \<open>simp_all add: test_pool_def bind_m_def gets_def new run raise_def pool_ready_def\<close>)
qed

lemma later_calls:
  assumes "pool_ready s"
  shows "test_pool H db m s = (case te_err s of Some e \<Rightarrow> (Inl e, s) | None \<Rightarrow> (Inr (te_pool s), s))"
  using assms by (simp add: test_pool_def bind_m_def gets_def ret_def raise_def pool_ready_def split: option.split)

text \<open>
  However many tests ask for the pool, at most one container is started; all get the same pool,
  migrated once and still open, or all fail with the same error and no pool is left open.
\<close>

theorem pool_is_shared:
  "pool_ready (((snd \<circ> test_pool H db m) ^^ Suc n) untouched) \<and>
   ((snd \<circ> test_pool H db m) ^^ Suc n) untouched = snd (test_pool H db m untouched) \<and>
   fst (test_pool H db m (((snd \<circ> test_pool H db m) ^^ n) untouched)) = fst (test_pool H db m untouched)"
proof (induction n)
  case 0
  show ?case by (simp add: first_call)
next
  case (Suc n)
  let ?s = "snd (test_pool H db m untouched)"
  have s: "((snd \<circ> test_pool H db m) ^^ Suc n) untouched = ?s" using Suc.IH by blast
  have again: "test_pool H db m ?s = (fst (test_pool H db m untouched), ?s)"
    unfolding later_calls [OF first_call]
    by (simp add: test_pool_def bind_m_def gets_def untouched_def raise_def split: prod.split sum.split option.split)
  have "((snd \<circ> test_pool H db m) ^^ Suc (Suc n)) untouched = (snd \<circ> test_pool H db m) (((snd \<circ> test_pool H db m) ^^ Suc n) untouched)"
    by (simp only: funpow.simps(2) o_apply)
  also have "\<dots> = ?s" unfolding s o_apply again by simp
  finally have two: "((snd \<circ> test_pool H db m) ^^ Suc (Suc n)) untouched = ?s" .
  show ?case unfolding two s again using first_call [of H db m] by simp
qed

lemma TruncateAuther_run: "TruncateAuther None db = (Inr (), empty_auther)"
  by (simp add: TruncateAuther_def empty_auther_def)

lemma TruncateAuther_ok: "preserves auther_ok (TruncateAuther failed)"
  by (cases failed) (auto simp: preserves_def TruncateAuther_run empty_auther_ok raise_def TruncateAuther_def [of "Some _"])

end
